(* ===== verification/Emu_Prelude.thy ===== *)
theory Emu_Prelude
  imports Complex_Main "HOL-Library.AList" "HOL-Library.List_Lexorder" "HOL-Library.Char_ord"
begin

text \<open>
  Shared base of the development: the collections of rewrite rules the component theories
  extend, the gRPC status values every operation of \<^verbatim>\<open>core\<close> can return, Go's fixed-width
  integers, Go's maps as association lists with distinct keys, and the interface of a printer
  with its parser. Go strings are byte sequences, which is what \<^typ>\<open>string\<close> is here: \<^const>\<open>length\<close> of a
  string is Go's \<^verbatim>\<open>len\<close>.
\<close>

named_theorems go_defs \<open>defining equations of the small helpers, unfolded to evaluate an operation\<close>
named_theorems inv_intros \<open>the lemmas that an operation keeps a component's invariant\<close>
named_theorems eval_defs \<open>defining equations unfolded to evaluate closed instances\<close>

section \<open>Status values\<close>

text \<open>
  \<^verbatim>\<open>google.golang.org/grpc/codes\<close>, in the numeric order of the package. An error built by
  \<^verbatim>\<open>status.Errorf(c, format, args...)\<close> keeps its code, its format and the arguments it
  formats, so that two errors are equal when the code builds them alike.
\<close>

datatype code =
    OK | Canceled | Unknown | InvalidArgument | DeadlineExceeded | NotFound | AlreadyExists
  | PermissionDenied | ResourceExhausted | FailedPrecondition | Aborted | OutOfRange
  | Unimplemented | Internal | Unavailable | DataLoss | Unauthenticated

datatype status = Errorf (status_code: code) (status_format: string) (status_args: "string list")

type_synonym 'a result = "status + 'a"

fun is_ok :: "'a result \<Rightarrow> bool" where
  "is_ok (Inr _) = True"
| "is_ok (Inl _) = False"

fun err_code :: "'a result \<Rightarrow> code" where
  "err_code (Inl e) = status_code e"
| "err_code (Inr _) = OK"

lemma is_ok_iff: "is_ok r \<longleftrightarrow> (\<exists>x. r = Inr x)"
  by (cases r) auto

section \<open>Fixed-width integers\<close>

text \<open>
  Go's \<^verbatim>\<open>int32\<close>, \<^verbatim>\<open>int64\<close> (also \<^verbatim>\<open>int\<close> and \<^verbatim>\<open>time.Duration\<close>) are integers whose arithmetic
  wraps in two's complement. A value of the type is an \<^typ>\<open>int\<close> in range; every addition,
  subtraction and multiplication of the source that can leave the range is followed by
  the wrap.
\<close>

type_synonym int32 = int
type_synonym int64 = int
type_synonym duration = int
type_synonym time = int

definition wrap32 :: "int \<Rightarrow> int32" where
  "wrap32 x = (x + 2147483648) mod 4294967296 - 2147483648"

definition wrap64 :: "int \<Rightarrow> int64" where
  "wrap64 x = (x + 9223372036854775808) mod 18446744073709551616 - 9223372036854775808"

definition in_int32 :: "int \<Rightarrow> bool" where
  "in_int32 x \<longleftrightarrow> - 2147483648 \<le> x \<and> x < 2147483648"

definition in_int64 :: "int \<Rightarrow> bool" where
  "in_int64 x \<longleftrightarrow> - 9223372036854775808 \<le> x \<and> x < 9223372036854775808"

declare wrap32_def [eval_defs] wrap64_def [eval_defs]

lemma wrap32_id: "in_int32 x \<Longrightarrow> wrap32 x = x"
  by (simp add: wrap32_def in_int32_def)

lemma wrap64_id: "in_int64 x \<Longrightarrow> wrap64 x = x"
  by (simp add: wrap64_def in_int64_def)

lemma in_int32_wrap32 [simp]: "in_int32 (wrap32 x)"
proof -
  have "0 \<le> (x + 2147483648) mod 4294967296" "(x + 2147483648) mod 4294967296 < 4294967296"
    by simp_all
  then show ?thesis unfolding wrap32_def in_int32_def by linarith
qed

lemma in_int64_wrap64 [simp]: "in_int64 (wrap64 x)"
proof -
  have "0 \<le> (x + 9223372036854775808) mod 18446744073709551616"
    "(x + 9223372036854775808) mod 18446744073709551616 < 18446744073709551616"
    by simp_all
  then show ?thesis unfolding wrap64_def in_int64_def by linarith
qed

text \<open>Durations are counted in nanoseconds, as \<^verbatim>\<open>time.Duration\<close> does.\<close>

definition millisecond :: duration where "millisecond = 1000000"
definition second :: duration where "second = 1000000000"
definition minute :: duration where "minute = 60000000000"
definition hour :: duration where "hour = 3600000000000"

declare millisecond_def [eval_defs] second_def [eval_defs] minute_def [eval_defs]
  hour_def [eval_defs]

text \<open>
  A \<^verbatim>\<open>time.Time\<close> is the number of nanoseconds since the Unix epoch; the zero \<^verbatim>\<open>Time\<close> is
  January 1, year 1.
\<close>

definition zeroTime :: time where
  "zeroTime = - 62135596800000000000"

definition IsZero :: "time \<Rightarrow> bool" where
  "IsZero t \<longleftrightarrow> t = zeroTime"

declare zeroTime_def [eval_defs] IsZero_def [eval_defs]

section \<open>Printing and parsing\<close>

text \<open>
  A printer and the parser that reads its output back, on the values for which that holds. Decimal
  numbers, base64, page tokens, path segments, key numbers and status names are all of this form.
\<close>

locale text_codec =
  fixes enc :: "'a \<Rightarrow> string" and dec :: "string \<Rightarrow> 'a option" and ok :: "'a \<Rightarrow> bool"
  assumes dec_enc: "ok x \<Longrightarrow> dec (enc x) = Some x"
begin

lemma enc_eq_iff: "ok x \<Longrightarrow> ok y \<Longrightarrow> enc x = enc y \<longleftrightarrow> x = y"
  by (metis dec_enc option.inject)

lemma enc_inj_on: "inj_on enc {x. ok x}"
  by (rule inj_onI) (simp add: enc_eq_iff)

lemma dec_encs: "list_all ok xs \<Longrightarrow> map (dec \<circ> enc) xs = map Some xs"
  by (induction xs) (simp_all add: dec_enc)

end

section \<open>Go maps\<close>

text \<open>
  A Go map is an association list whose keys are distinct. The order of the list stands for
  the unspecified iteration order of \<^verbatim>\<open>range\<close>: a statement about every list is a statement
  about every order. A nil map reads as the empty one.
\<close>

type_synonym ('k, 'v) gomap = "('k \<times> 'v) list"

definition gget :: "('k, 'v) gomap \<Rightarrow> 'k \<Rightarrow> 'v option" where
  "gget m k = map_of m k"

definition gset :: "'k \<Rightarrow> 'v \<Rightarrow> ('k, 'v) gomap \<Rightarrow> ('k, 'v) gomap" where
  "gset k v m = AList.update k v m"

definition gdel :: "'k \<Rightarrow> ('k, 'v) gomap \<Rightarrow> ('k, 'v) gomap" where
  "gdel k m = AList.delete k m"

definition keys_of :: "('k, 'v) gomap \<Rightarrow> 'k list" where
  "keys_of m = map fst m"

definition gwf :: "('k, 'v) gomap \<Rightarrow> bool" where
  "gwf m \<longleftrightarrow> distinct (keys_of m)"

declare gget_def [eval_defs] gset_def [eval_defs] gdel_def [eval_defs] keys_of_def [eval_defs]
  gwf_def [eval_defs]

text \<open>
  The interface the engine's tables are used through: what a lookup returns after a store
  and after a delete, and that both keep the table well formed. Every client lemma below is
  proved once from these laws.
\<close>

locale keyed_table =
  fixes empty :: 'm
    and get :: "'m \<Rightarrow> 'k \<Rightarrow> 'v option"
    and set :: "'k \<Rightarrow> 'v \<Rightarrow> 'm \<Rightarrow> 'm"
    and del :: "'k \<Rightarrow> 'm \<Rightarrow> 'm"
    and wf :: "'m \<Rightarrow> bool"
  assumes get_empty: "get empty k = None"
    and get_set: "get (set k v m) k' = (if k' = k then Some v else get m k')"
    and get_del: "get (del k m) k' = (if k' = k then None else get m k')"
    and wf_empty: "wf empty"
    and wf_set: "wf m \<Longrightarrow> wf (set k v m)"
    and wf_del: "wf m \<Longrightarrow> wf (del k m)"
begin

lemma get_set_same: "get (set k v m) k = Some v"
  by (simp add: get_set)

lemma get_set_other: "k' \<noteq> k \<Longrightarrow> get (set k v m) k' = get m k'"
  by (simp add: get_set)

lemma get_del_same: "get (del k m) k = None"
  by (simp add: get_del)

lemma get_del_other: "k' \<noteq> k \<Longrightarrow> get (del k m) k' = get m k'"
  by (simp add: get_del)

lemma set_all: "P v \<Longrightarrow> (\<And>k' v'. get m k' = Some v' \<Longrightarrow> P v') \<Longrightarrow>
    get (set k v m) k' = Some v' \<Longrightarrow> P v'"
  by (auto simp: get_set split: if_splits)

lemma del_all: "(\<And>k' v'. get m k' = Some v' \<Longrightarrow> P k' v') \<Longrightarrow>
    get (del k m) k' = Some v' \<Longrightarrow> P k' v' \<and> k' \<noteq> k"
  by (auto simp: get_del split: if_splits)

end

interpretation gm: keyed_table "[]" gget gset gdel gwf
proof unfold_locales
  show "gget (gset k v m) k' = (if k' = k then Some v else gget m k')"
    for k :: 'a and v :: 'b and m k'
    by (simp add: gget_def gset_def update_conv')
  show "gget (gdel k m) k' = (if k' = k then None else gget m k')"
    for k :: 'a and m :: "('a \<times> 'b) list" and k'
    by (simp add: gget_def gdel_def delete_conv')
  show "gwf (gset k v m)" if "gwf m" for k :: 'a and v :: 'b and m
    using that by (simp add: gwf_def gset_def keys_of_def distinct_update)
  show "gwf (gdel k m)" if "gwf m" for k :: 'a and m :: "('a \<times> 'b) list"
    using that by (simp add: gwf_def gdel_def keys_of_def distinct_delete)
qed (simp_all add: gget_def gwf_def keys_of_def)

declare gm.get_empty [simp] gm.get_set_same [simp] gm.get_del_same [simp] gm.wf_empty [simp]

lemma gget_SomeD: "gget m k = Some v \<Longrightarrow> (k, v) \<in> set m"
  by (simp add: gget_def map_of_SomeD)

lemma gget_iff_mem: "gwf m \<Longrightarrow> gget m k = Some v \<longleftrightarrow> (k, v) \<in> set m"
  by (simp add: gget_def gwf_def keys_of_def)

lemma set_keys_of: "set (keys_of m) = {k. gget m k \<noteq> None}"
  by (auto simp: keys_of_def gget_def map_of_eq_None_iff)

lemma keys_of_gdel: "keys_of (gdel k m) = filter (\<lambda>k'. k' \<noteq> k) (keys_of m)"
  by (induction m) (auto simp: gdel_def keys_of_def)

lemma keys_of_gset_new: "gget m k = None \<Longrightarrow> keys_of (gset k v m) = keys_of m @ [k]"
  by (induction m) (auto simp: gset_def keys_of_def gget_def split: if_splits)

lemma keys_of_gset_old: "gget m k \<noteq> None \<Longrightarrow> keys_of (gset k v m) = keys_of m"
  by (induction m) (auto simp: gset_def keys_of_def gget_def split: if_splits)

text \<open>Tables whose values are translated one by one.\<close>

lemma gget_map_values: "gget (map (\<lambda>(k, v). (k, f v)) m) k = map_option f (gget m k)"
    "keys_of (map (\<lambda>(k, v). (k, f v)) m) = keys_of m"
  by (induction m) (auto simp: gget_def keys_of_def)

lemma gset_new: "gget m k = None \<Longrightarrow> gset k v m = m @ [(k, v)]"
  by (induction m) (auto simp: gset_def gget_def split: if_splits)

lemma gdel_map_values: "gdel k (map (\<lambda>(k, v). (k, f v)) m) = map (\<lambda>(k, v). (k, f v)) (gdel k m)"
  by (induction m) (auto simp: gdel_def)

lemma gdel_gset: "gdel k (gset k v m) = gdel k m"
  by (induction m) (auto simp: gdel_def gset_def)

lemma set_gdel: "set (gdel k m) = {x \<in> set m. fst x \<noteq> k}"
  by (auto simp: gdel_def AList.delete_eq)

lemma gset_map_values:
  "gwf m \<Longrightarrow> (k, a) \<in> set m \<Longrightarrow> (\<And>k'. (k', a) \<in> set m \<Longrightarrow> k' = k) \<Longrightarrow>
     gset k v (map (\<lambda>(k, b). (k, f b)) m) = map (\<lambda>(k, b). (k, (f(a := v)) b)) m"
proof (induction m)
  case (Cons x m)
  obtain k' b where x: "x = (k', b)" by force
  show ?case
  proof (cases "k' = k")
    case True
    have k: "k \<notin> fst ` set m" using Cons.prems(1) x True by (simp add: gwf_def keys_of_def)
    then have "(k, a) \<notin> set m" by force
    then have "b = a" using Cons.prems(2) x True by auto
    moreover have "\<forall>(k', b) \<in> set m. b \<noteq> a"
    proof clarify
      fix k' assume "(k', a) \<in> set m"
      moreover from this have "k' = k" using Cons.prems(3) by simp
      ultimately show False using k by force
    qed
    ultimately show ?thesis using x True by (auto simp: gset_def)
  next
    case False
    have "gset k v (map (\<lambda>(k, b). (k, f b)) m) = map (\<lambda>(k, b). (k, (f(a := v)) b)) m"
      using Cons x False by (intro Cons.IH) (auto simp: gwf_def keys_of_def)
    moreover have "b \<noteq> a" using Cons.prems(3) [of k'] x False by auto
    ultimately show ?thesis using x False by (simp add: gset_def)
  qed
qed simp

lemma gset_same: "gget m k = Some v \<Longrightarrow> gset k v m = m"
  by (induction m) (auto simp: gset_def gget_def split: if_splits)

end
