(* ===== verification/Go_Text.thy ===== *)
theory Go_Text
  imports Emu_Prelude
begin

text \<open>
  What the sources use of Go's text packages: \<^verbatim>\<open>strconv.Itoa\<close>, \<^verbatim>\<open>strconv.Atoi\<close> and the
  \<^verbatim>\<open>%d\<close> and \<^verbatim>\<open>%06d\<close> verbs of \<^verbatim>\<open>fmt\<close> and \<^verbatim>\<open>base64.RawURLEncoding\<close>, with the round trips between
  printing and parsing.
\<close>

section \<open>Decimal numbers\<close>

definition digit_char :: "nat \<Rightarrow> char" where
  "digit_char d = char_of (48 + d)"

definition digit_val :: "char \<Rightarrow> nat option" where
  "digit_val c = (let n = of_char c in if 48 \<le> n \<and> n \<le> 57 then Some (n - 48) else None)"

fun dec_nat :: "nat \<Rightarrow> string" where
  "dec_nat n = (if n < 10 then [digit_char n] else dec_nat (n div 10) @ [digit_char (n mod 10)])"

declare dec_nat.simps [simp del]

definition Itoa :: "int \<Rightarrow> string" where
  "Itoa i = (if i < 0 then CHR ''-'' # dec_nat (nat (- i)) else dec_nat (nat i))"

text \<open>The \<^verbatim>\<open>%0wd\<close> verb on a value that is not negative.\<close>

definition pad_dec :: "nat \<Rightarrow> nat \<Rightarrow> string" where
  "pad_dec w n = replicate (w - length (dec_nat n)) (CHR ''0'') @ dec_nat n"

fun digits_val :: "nat \<Rightarrow> string \<Rightarrow> nat option" where
  "digits_val acc [] = Some acc"
| "digits_val acc (c # cs) =
     (case digit_val c of None \<Rightarrow> None | Some d \<Rightarrow> digits_val (10 * acc + d) cs)"

text \<open>
  \<^verbatim>\<open>strconv.Atoi\<close>: an optional sign, at least one decimal digit, nothing else, and a value
  that fits \<^verbatim>\<open>int\<close>; anything else is an error.
\<close>

definition Atoi :: "string \<Rightarrow> int option" where
  "Atoi s =
     (let (neg, ds) = (case s of c # cs \<Rightarrow>
            if c = CHR ''-'' then (True, cs) else if c = CHR ''+'' then (False, cs) else (False, s)
          | [] \<Rightarrow> (False, []))
      in if ds = [] then None
         else case digits_val 0 ds of None \<Rightarrow> None
         | Some n \<Rightarrow> let i = (if neg then - int n else int n)
                    in if in_int64 i then Some i else None)"

lemma digit_val_digit_char [simp]: "d < 10 \<Longrightarrow> digit_val (digit_char d) = Some d"
  by (simp add: digit_val_def digit_char_def)

lemma digit_char_neq_sign [simp]:
  "d < 10 \<Longrightarrow> digit_char d \<noteq> CHR ''-''" "d < 10 \<Longrightarrow> digit_char d \<noteq> CHR ''+''"
proof -
  have "digit_val (CHR ''-'') = None" "digit_val (CHR ''+'') = None"
    by (simp_all add: digit_val_def)
  then show "d < 10 \<Longrightarrow> digit_char d \<noteq> CHR ''-''" "d < 10 \<Longrightarrow> digit_char d \<noteq> CHR ''+''"
    by (metis digit_val_digit_char option.distinct(1))+
qed

lemma dec_nat_nonempty [simp]: "dec_nat n \<noteq> []"
  by (subst dec_nat.simps) simp

lemma digits_val_append:
  "digits_val acc (xs @ ys) =
     (case digits_val acc xs of None \<Rightarrow> None | Some a \<Rightarrow> digits_val a ys)"
  by (induction acc xs rule: digits_val.induct) (auto split: option.splits)

lemma digits_val_dec_nat [simp]: "digits_val 0 (dec_nat n) = Some n"
proof (induction n rule: dec_nat.induct)
  case (1 n)
  show ?case
  proof (cases "n < 10")
    case True
    then show ?thesis by (subst dec_nat.simps) simp
  next
    case False
    with "1.IH" have "digits_val 0 (dec_nat (n div 10)) = Some (n div 10)" by simp
    with False show ?thesis
      by (subst dec_nat.simps) (simp add: digits_val_append)
  qed
qed

lemma dec_nat_digits: "c \<in> set (dec_nat n) \<Longrightarrow> \<exists>d < 10. c = digit_char d"
proof (induction n rule: dec_nat.induct)
  case (1 n)
  show ?case
  proof (cases "n < 10")
    case True
    with "1.prems" show ?thesis by (subst (asm) dec_nat.simps) auto
  next
    case False
    with "1.prems" have "c \<in> set (dec_nat (n div 10)) \<or> c = digit_char (n mod 10)"
      by (subst (asm) dec_nat.simps) auto
    with False "1.IH" show ?thesis by (metis mod_less_divisor zero_less_numeral)
  qed
qed

lemma dec_nat_hd: "\<exists>d ds. d < 10 \<and> dec_nat n = digit_char d # ds"
proof -
  obtain c cs where c: "dec_nat n = c # cs" by (cases "dec_nat n") auto
  then show ?thesis using dec_nat_digits [of c n] by auto
qed

lemma Atoi_dec_nat: "in_int64 (int n) \<Longrightarrow> Atoi (dec_nat n) = Some (int n)"
proof -
  assume n: "in_int64 (int n)"
  obtain d ds where d: "d < 10" "dec_nat n = digit_char d # ds" using dec_nat_hd by blast
  have "digits_val 0 (digit_char d # ds) = Some n" using d(2) digits_val_dec_nat [of n] by simp
  with d n show ?thesis by (simp add: Atoi_def del: digits_val.simps)
qed

lemma Atoi_Itoa: "in_int64 i \<Longrightarrow> Atoi (Itoa i) = Some i"
proof (cases "i < 0")
  case True
  assume "in_int64 i"
  with True show ?thesis by (simp add: Itoa_def Atoi_def)
next
  case False
  assume "in_int64 i"
  with False show ?thesis using Atoi_dec_nat [of "nat i"] by (simp add: Itoa_def)
qed

interpretation itoa: text_codec Itoa Atoi in_int64
  by unfold_locales (rule Atoi_Itoa)

lemma dec_nat_inj: "dec_nat m = dec_nat n \<Longrightarrow> m = n"
  by (metis digits_val_dec_nat option.inject)

lemma Itoa_nonempty [simp]: "Itoa i \<noteq> []"
  by (simp add: Itoa_def)

lemma Atoi_range: "Atoi s = Some i \<Longrightarrow> in_int64 i"
  by (auto simp: Atoi_def Let_def split: if_splits option.splits prod.splits)

section \<open>base64.RawURLEncoding\<close>

text \<open>
  The URL-safe alphabet without padding. Decoding skips line feeds and carriage returns,
  rejects every other byte outside the alphabet and a last group of one character, and
  ignores the unused low bits of a last group of two or three (the encoding is not
  \<^verbatim>\<open>Strict\<close>).
\<close>

definition b64_char :: "nat \<Rightarrow> char" where
  "b64_char d =
     (if d < 26 then char_of (65 + d)
      else if d < 52 then char_of (71 + d)
      else if d < 62 then char_of (d - 4)
      else if d = 62 then CHR ''-'' else CHR ''_'')"

definition b64_val :: "char \<Rightarrow> nat option" where
  "b64_val c =
     (let n = of_char c in
      if 65 \<le> n \<and> n \<le> 90 then Some (n - 65)
      else if 97 \<le> n \<and> n \<le> 122 then Some (n - 71)
      else if 48 \<le> n \<and> n \<le> 57 then Some (n + 4)
      else if c = CHR ''-'' then Some 62
      else if c = CHR ''_'' then Some 63
      else None)"

fun b64_enc :: "nat list \<Rightarrow> nat list" where
  "b64_enc (a # b # c # xs) =
     [a div 4, (a mod 4) * 16 + b div 16, (b mod 16) * 4 + c div 64, c mod 64] @ b64_enc xs"
| "b64_enc [a, b] = [a div 4, (a mod 4) * 16 + b div 16, (b mod 16) * 4]"
| "b64_enc [a] = [a div 4, (a mod 4) * 16]"
| "b64_enc [] = []"

fun b64_dec :: "nat list \<Rightarrow> nat list option" where
  "b64_dec (p # q # r # s # xs) =
     map_option (\<lambda>ys. [p * 4 + q div 16, (q mod 16) * 16 + r div 4, (r mod 4) * 64 + s] @ ys)
       (b64_dec xs)"
| "b64_dec [p, q, r] = Some [p * 4 + q div 16, (q mod 16) * 16 + r div 4]"
| "b64_dec [p, q] = Some [p * 4 + q div 16]"
| "b64_dec [p] = None"
| "b64_dec [] = Some []"

definition EncodeToString :: "string \<Rightarrow> string" where
  "EncodeToString s = map b64_char (b64_enc (map of_char s))"

fun opt_list :: "'a option list \<Rightarrow> 'a list option" where
  "opt_list [] = Some []"
| "opt_list (None # xs) = None"
| "opt_list (Some x # xs) = map_option (Cons x) (opt_list xs)"

definition DecodeString :: "string \<Rightarrow> string option" where
  "DecodeString s =
     (case opt_list (map b64_val (filter (\<lambda>c. of_char c \<noteq> (10::nat) \<and> of_char c \<noteq> (13::nat)) s)) of
        None \<Rightarrow> None
      | Some ds \<Rightarrow> map_option (map char_of) (b64_dec ds))"

lemma of_char_b64_char: "d < 64 \<Longrightarrow> of_char (b64_char d) =
    (if d < 26 then 65 + d else if d < 52 then 71 + d else if d < 62 then d - 4
     else if d = 62 then 45 else 95)"
  by (simp add: b64_char_def)

lemma b64_val_char [simp]: "d < 64 \<Longrightarrow> b64_val (b64_char d) = Some d"
  by (auto simp: b64_val_def Let_def of_char_b64_char) (auto simp: b64_char_def split: if_splits)

lemma b64_char_not_newline [simp]:
  "d < 64 \<Longrightarrow> of_char (b64_char d) \<noteq> (10::nat) \<and> of_char (b64_char d) \<noteq> (13::nat)"
  by (auto simp: of_char_b64_char)

lemma b64_enc_bound: "\<forall>b \<in> set bs. b < 256 \<Longrightarrow> \<forall>d \<in> set (b64_enc bs). d < 64"
  by (induction bs rule: b64_enc.induct) auto

lemma b64_dec_enc: "\<forall>b \<in> set bs. b < 256 \<Longrightarrow> b64_dec (b64_enc bs) = Some bs"
  by (induction bs rule: b64_enc.induct) auto

lemma opt_list_map_Some: "opt_list (map Some xs) = Some xs"
  by (induction xs) auto

lemma DecodeString_EncodeToString [simp]: "DecodeString (EncodeToString s) = Some s"
proof -
  let ?bs = "map of_char s :: nat list"
  let ?ds = "b64_enc ?bs"
  have bytes: "\<forall>b \<in> set ?bs. b < 256" by auto
  have small: "\<forall>d \<in> set ?ds. d < 64" using bytes by (rule b64_enc_bound)
  have keep: "filter (\<lambda>c. of_char c \<noteq> (10::nat) \<and> of_char c \<noteq> (13::nat)) (map b64_char ?ds)
      = map b64_char ?ds"
    using small by (auto simp: filter_id_conv)
  have "map b64_val (map b64_char ?ds) = map Some ?ds"
    using small by auto
  then have "opt_list (map b64_val (map b64_char ?ds)) = Some ?ds"
    by (simp only: opt_list_map_Some)
  then show ?thesis
    using bytes by (simp only: DecodeString_def EncodeToString_def keep)
      (simp add: b64_dec_enc o_def)
qed

interpretation b64: text_codec EncodeToString DecodeString "\<lambda>_. True"
  by unfold_locales simp

lemma b64_enc_Nil_iff: "b64_enc bs = [] \<longleftrightarrow> bs = []"
  by (cases bs rule: b64_enc.cases) auto

lemma EncodeToString_Nil_iff [simp]: "EncodeToString s = [] \<longleftrightarrow> s = []"
  by (simp add: EncodeToString_def b64_enc_Nil_iff)

end
