(* ===== verification/Naming.thy ===== *)
theory Naming
  imports Go_Text
begin

text \<open>
  \<^verbatim>\<open>core/naming.go\<close>: the resource names of locations, queues and tasks. The three name
  expressions are sequences of literal text and \<^verbatim>\<open>([^/]+)\<close> groups; a group is always
  followed by a slash or by the end of the text, so the leftmost-first match of the regular
  expression is the one that takes the longest run without a slash for each group, and no
  backtracking can change it.
\<close>

section \<open>The name expressions\<close>

datatype elem = Lit string | Seg

fun strip_prefix :: "string \<Rightarrow> string \<Rightarrow> string option" where
  "strip_prefix [] s = Some s"
| "strip_prefix (p # ps) [] = None"
| "strip_prefix (p # ps) (c # cs) = (if p = c then strip_prefix ps cs else None)"

definition not_slash :: "char \<Rightarrow> bool" where
  "not_slash c \<longleftrightarrow> c \<noteq> CHR ''/''"

text \<open>\<^verbatim>\<open>FindStringSubmatch\<close> on an anchored expression: the groups, or no match.\<close>

fun FindStringSubmatch :: "elem list \<Rightarrow> string \<Rightarrow> string list option" where
  "FindStringSubmatch [] s = (if s = [] then Some [] else None)"
| "FindStringSubmatch (Lit l # es) s =
     (case strip_prefix l s of None \<Rightarrow> None | Some s' \<Rightarrow> FindStringSubmatch es s')"
| "FindStringSubmatch (Seg # es) s =
     (let g = takeWhile not_slash s
      in if g = [] then None
         else map_option (Cons g) (FindStringSubmatch es (dropWhile not_slash s)))"

definition locationNameRe :: "elem list" where
  "locationNameRe = [Lit ''projects/'', Seg, Lit ''/locations/'', Seg]"

definition queueNameRe :: "elem list" where
  "queueNameRe = [Lit ''projects/'', Seg, Lit ''/locations/'', Seg, Lit ''/queues/'', Seg]"

definition taskNameRe :: "elem list" where
  "taskNameRe =
     [Lit ''projects/'', Seg, Lit ''/locations/'', Seg, Lit ''/queues/'', Seg, Lit ''/tasks/'', Seg]"

definition is_alnum_hyphen :: "char \<Rightarrow> bool" where
  "is_alnum_hyphen c \<longleftrightarrow>
     (let n = of_char c in
      (65::nat) \<le> n \<and> n \<le> 90 \<or> 97 \<le> n \<and> n \<le> 122 \<or> 48 \<le> n \<and> n \<le> 57 \<or> c = CHR ''-'')"

definition idRe :: "string \<Rightarrow> bool" where
  "idRe s \<longleftrightarrow> 1 \<le> length s \<and> length s \<le> 500 \<and>
     list_all (\<lambda>c. is_alnum_hyphen c \<or> c = CHR ''_'') s"

definition queueIDRe :: "string \<Rightarrow> bool" where
  "queueIDRe s \<longleftrightarrow> 1 \<le> length s \<and> length s \<le> 100 \<and> list_all is_alnum_hyphen s"

section \<open>Parsing and derived names\<close>

definition parseLocationName :: "string \<Rightarrow> (string \<times> string) option" where
  "parseLocationName name =
     (case FindStringSubmatch locationNameRe name of Some [p, l] \<Rightarrow> Some (p, l) | _ \<Rightarrow> None)"

definition parseQueueName :: "string \<Rightarrow> (string \<times> string \<times> string) option" where
  "parseQueueName name =
     (case FindStringSubmatch queueNameRe name of Some [p, l, q] \<Rightarrow> Some (p, l, q) | _ \<Rightarrow> None)"

definition parseTaskName :: "string \<Rightarrow> (string \<times> string \<times> string \<times> string) option" where
  "parseTaskName name =
     (case FindStringSubmatch taskNameRe name of
        Some [p, l, q, t] \<Rightarrow> Some (p, l, q, t) | _ \<Rightarrow> None)"

definition locationName :: "string \<Rightarrow> string \<Rightarrow> string" where
  "locationName p l = ''projects/'' @ p @ ''/locations/'' @ l"

definition queueName :: "string \<Rightarrow> string \<Rightarrow> string \<Rightarrow> string" where
  "queueName p l q = ''projects/'' @ p @ ''/locations/'' @ l @ ''/queues/'' @ q"

definition taskName :: "string \<Rightarrow> string \<Rightarrow> string \<Rightarrow> string \<Rightarrow> string" where
  "taskName p l q t =
     ''projects/'' @ p @ ''/locations/'' @ l @ ''/queues/'' @ q @ ''/tasks/'' @ t"

text \<open>The Go code ignores the failure flag here: a name that does not parse gives empty parts.\<close>

definition queueParent :: "string \<Rightarrow> string" where
  "queueParent n =
     (case parseQueueName n of
        Some (p, l, _) \<Rightarrow> locationName p l | None \<Rightarrow> locationName [] [])"

definition taskQueueOf :: "string \<Rightarrow> string" where
  "taskQueueOf n =
     (case parseTaskName n of
        Some (p, l, q, _) \<Rightarrow> queueName p l q | None \<Rightarrow> queueName [] [] [])"

definition queueID :: "string \<Rightarrow> string" where
  "queueID n = (case parseQueueName n of Some (_, _, i) \<Rightarrow> i | None \<Rightarrow> [])"

definition taskID :: "string \<Rightarrow> string" where
  "taskID n = (case parseTaskName n of Some (_, _, _, i) \<Rightarrow> i | None \<Rightarrow> [])"

text \<open>
  The generator is only called for an unnamed task, and it advances the queue's sequence
  number; the caller passes the identifier it would produce.
\<close>

definition resolveTaskName :: "string \<Rightarrow> string \<Rightarrow> string \<Rightarrow> string result" where
  "resolveTaskName parent provided generated =
     (if provided = [] then Inr (parent @ ''/tasks/'' @ generated)
      else case parseTaskName provided of
        None \<Rightarrow> Inl (Errorf InvalidArgument ''invalid task name %q'' [provided])
      | Some (_, _, _, i) \<Rightarrow>
          if \<not> idRe i then Inl (Errorf InvalidArgument ''invalid task id %q'' [i])
          else if taskQueueOf provided \<noteq> parent
          then Inl (Errorf InvalidArgument ''task name does not match parent queue'' [])
          else Inr provided)"

section \<open>Correctness of the parsers\<close>

text \<open>A path segment: what a \<^verbatim>\<open>([^/]+)\<close> group matches.\<close>

definition segment :: "string \<Rightarrow> bool" where
  "segment s \<longleftrightarrow> s \<noteq> [] \<and> CHR ''/'' \<notin> set s"

lemma strip_prefix_append [simp]: "strip_prefix p (p @ s) = Some s"
  by (induction p) auto

lemma strip_prefix_Some: "strip_prefix p s = Some s' \<longleftrightarrow> s = p @ s'"
  by (induction p s rule: strip_prefix.induct) auto

fun render :: "elem list \<Rightarrow> string list \<Rightarrow> string" where
  "render [] gs = []"
| "render (Lit l # es) gs = l @ render es gs"
| "render (Seg # es) [] = []"
| "render (Seg # es) (g # gs) = g @ render es gs"

text \<open>
  Expressions in which a group is followed by the end or by a literal that starts with a
  slash: exactly those for which the greedy choice is forced.
\<close>

fun separated :: "elem list \<Rightarrow> bool" where
  "separated [] = True"
| "separated [Seg] = True"
| "separated (Seg # Lit (c # l) # es) = (c = CHR ''/'' \<and> separated es)"
| "separated (Lit l # es) = separated es"
| "separated _ = False"

fun groups :: "elem list \<Rightarrow> nat" where
  "groups [] = 0"
| "groups (Seg # es) = Suc (groups es)"
| "groups (Lit l # es) = groups es"

lemma takeWhile_not_slash_all: "segment g \<Longrightarrow> takeWhile not_slash g = g"
  by (auto simp: segment_def not_slash_def takeWhile_eq_all_conv)

lemma takeWhile_segment:
  assumes "segment g" and "rest = [] \<or> hd rest = CHR ''/''"
  shows "takeWhile not_slash (g @ rest) = g" "dropWhile not_slash (g @ rest) = rest"
proof -
  have all: "\<forall>c \<in> set g. not_slash c" using assms(1) by (auto simp: segment_def not_slash_def)
  have "takeWhile not_slash rest = []" "dropWhile not_slash rest = rest"
    using assms(2) by (cases rest; simp add: not_slash_def)+
  with all show "takeWhile not_slash (g @ rest) = g" "dropWhile not_slash (g @ rest) = rest"
    by (simp_all add: takeWhile_append2 dropWhile_append2)
qed

lemma FindStringSubmatch_render:
  "separated es \<Longrightarrow> length gs = groups es \<Longrightarrow> list_all segment gs \<Longrightarrow>
     FindStringSubmatch es (render es gs) = Some gs"
proof (induction es arbitrary: gs rule: separated.induct)
  case 2
  then obtain g where gs: "gs = [g]" by (cases gs) auto
  with 2 have "segment g" by simp
  with gs takeWhile_segment [OF this, of "[]"] show ?case
    by (simp add: segment_def Let_def del: takeWhile_eq_all_conv dropWhile_eq_Nil_conv)
next
  case (3 c l es)
  then obtain g gs' where gs: "gs = g # gs'" by (cases gs) auto
  with 3 have g: "segment g" and c: "c = CHR ''/''" by auto
  let ?rest = "(c # l) @ render es gs'"
  have w: "takeWhile not_slash (g @ ?rest) = g" "dropWhile not_slash (g @ ?rest) = ?rest"
    using takeWhile_segment [OF g, of ?rest] c by simp_all
  from 3 gs have "FindStringSubmatch es (render es gs') = Some gs'" by auto
  with gs g w show ?case by (simp add: segment_def)
qed auto

lemma FindStringSubmatch_Some:
  "FindStringSubmatch es s = Some gs \<Longrightarrow>
     length gs = groups es \<and> list_all segment gs \<and> s = render es gs"
proof (induction es s arbitrary: gs rule: FindStringSubmatch.induct)
  case (3 es s)
  let ?g = "takeWhile not_slash s"
  from "3.prems" obtain gs' where g: "?g \<noteq> []" and gs: "gs = ?g # gs'"
    and rec: "FindStringSubmatch es (dropWhile not_slash s) = Some gs'"
    by (auto simp: Let_def split: if_splits)
  have "segment ?g" using g by (auto simp: segment_def not_slash_def dest: set_takeWhileD)
  moreover have "length gs' = groups es \<and> list_all segment gs' \<and> dropWhile not_slash s = render es gs'"
    using "3.IH" g rec by blast
  ultimately show ?case using gs by (simp add: takeWhile_dropWhile_id) (metis takeWhile_dropWhile_id)
qed (auto split: option.splits if_splits simp: strip_prefix_Some)

lemmas nameRe_defs = locationNameRe_def queueNameRe_def taskNameRe_def

lemma parseLocationName_iff:
  "parseLocationName n = Some (p, l) \<longleftrightarrow> segment p \<and> segment l \<and> n = locationName p l"
proof
  assume "parseLocationName n = Some (p, l)"
  then have "FindStringSubmatch locationNameRe n = Some [p, l]"
    by (auto simp: parseLocationName_def split: option.splits list.splits)
  from FindStringSubmatch_Some [OF this] show "segment p \<and> segment l \<and> n = locationName p l"
    by (simp add: nameRe_defs locationName_def)
next
  assume "segment p \<and> segment l \<and> n = locationName p l"
  then show "parseLocationName n = Some (p, l)"
    using FindStringSubmatch_render [of locationNameRe "[p, l]"]
    by (simp add: parseLocationName_def nameRe_defs locationName_def del: FindStringSubmatch.simps)
qed

lemma parseQueueName_iff:
  "parseQueueName n = Some (p, l, q) \<longleftrightarrow>
     segment p \<and> segment l \<and> segment q \<and> n = queueName p l q"
proof
  assume "parseQueueName n = Some (p, l, q)"
  then have "FindStringSubmatch queueNameRe n = Some [p, l, q]"
    by (auto simp: parseQueueName_def split: option.splits list.splits)
  from FindStringSubmatch_Some [OF this]
  show "segment p \<and> segment l \<and> segment q \<and> n = queueName p l q"
    by (simp add: nameRe_defs queueName_def)
next
  assume "segment p \<and> segment l \<and> segment q \<and> n = queueName p l q"
  then show "parseQueueName n = Some (p, l, q)"
    using FindStringSubmatch_render [of queueNameRe "[p, l, q]"]
    by (simp add: parseQueueName_def nameRe_defs queueName_def del: FindStringSubmatch.simps)
qed

lemma parseTaskName_iff:
  "parseTaskName n = Some (p, l, q, t) \<longleftrightarrow>
     segment p \<and> segment l \<and> segment q \<and> segment t \<and> n = taskName p l q t"
proof
  assume "parseTaskName n = Some (p, l, q, t)"
  then have "FindStringSubmatch taskNameRe n = Some [p, l, q, t]"
    by (auto simp: parseTaskName_def split: option.splits list.splits)
  from FindStringSubmatch_Some [OF this]
  show "segment p \<and> segment l \<and> segment q \<and> segment t \<and> n = taskName p l q t"
    by (simp add: nameRe_defs taskName_def)
next
  assume "segment p \<and> segment l \<and> segment q \<and> segment t \<and> n = taskName p l q t"
  then show "parseTaskName n = Some (p, l, q, t)"
    using FindStringSubmatch_render [of taskNameRe "[p, l, q, t]"]
    by (simp add: parseTaskName_def nameRe_defs taskName_def del: FindStringSubmatch.simps)
qed

text \<open>
  The three kinds of name share one contract: parsing succeeds exactly on the formatted
  names of valid parts. What the engine needs of it follows once for all of them.
\<close>

locale name_format =
  fixes parse :: "string \<Rightarrow> 'a option"
    and fmt :: "'a \<Rightarrow> string"
    and valid :: "'a \<Rightarrow> bool"
  assumes parse_iff: "parse n = Some a \<longleftrightarrow> valid a \<and> n = fmt a"
begin

lemma parse_fmt: "valid a \<Longrightarrow> parse (fmt a) = Some a"
  by (simp add: parse_iff)

lemma fmt_parse: "parse n = Some a \<Longrightarrow> fmt a = n"
  by (simp add: parse_iff)

lemma parse_inj: "parse n = Some a \<Longrightarrow> parse m = Some a \<Longrightarrow> n = m"
  by (simp add: parse_iff)

lemma fmt_inj: "valid a \<Longrightarrow> valid b \<Longrightarrow> fmt a = fmt b \<Longrightarrow> a = b"
  by (metis parse_fmt option.inject)

end

interpretation ln: name_format parseLocationName "\<lambda>(p, l). locationName p l"
    "\<lambda>(p, l). segment p \<and> segment l"
  by unfold_locales (auto simp: parseLocationName_iff)

interpretation qn: name_format parseQueueName "\<lambda>(p, l, q). queueName p l q"
    "\<lambda>(p, l, q). segment p \<and> segment l \<and> segment q"
  by unfold_locales (auto simp: parseQueueName_iff)

interpretation tn: name_format parseTaskName "\<lambda>(p, l, q, t). taskName p l q t"
    "\<lambda>(p, l, q, t). segment p \<and> segment l \<and> segment q \<and> segment t"
  by unfold_locales (auto simp: parseTaskName_iff)

lemma parseLocationName_locationName [simp]:
  "segment p \<Longrightarrow> segment l \<Longrightarrow> parseLocationName (locationName p l) = Some (p, l)"
  using ln.parse_fmt [of "(p, l)"] by simp

lemma parseQueueName_queueName [simp]:
  "segment p \<Longrightarrow> segment l \<Longrightarrow> segment q \<Longrightarrow> parseQueueName (queueName p l q) = Some (p, l, q)"
  using qn.parse_fmt [of "(p, l, q)"] by simp

lemma parseTaskName_taskName [simp]:
  "segment p \<Longrightarrow> segment l \<Longrightarrow> segment q \<Longrightarrow> segment t \<Longrightarrow>
     parseTaskName (taskName p l q t) = Some (p, l, q, t)"
  using tn.parse_fmt [of "(p, l, q, t)"] by simp

lemma idRe_segment: "idRe s \<Longrightarrow> segment s"
proof -
  have "\<not> is_alnum_hyphen (CHR ''/'')" by (simp add: is_alnum_hyphen_def)
  then show "idRe s \<Longrightarrow> segment s" by (auto simp: idRe_def segment_def list_all_iff)
qed

lemma queueIDRe_idRe: "queueIDRe s \<Longrightarrow> idRe s"
  by (auto simp: idRe_def queueIDRe_def list_all_iff)

lemma segment_dec_nat: "segment (dec_nat n)"
proof -
  have "digit_val (CHR ''/'') = None" by (simp add: digit_val_def)
  then have "\<forall>d < 10. digit_char d \<noteq> CHR ''/''"
    by (metis digit_val_digit_char option.distinct(1))
  then show ?thesis using dec_nat_digits [of "CHR ''/''" n] by (metis segment_def dec_nat_nonempty)
qed

lemma queueName_tasks: "queueName p l q @ ''/tasks/'' @ t = taskName p l q t"
  by (simp add: queueName_def taskName_def)

lemma taskQueueOf_taskName [simp]:
  "segment p \<Longrightarrow> segment l \<Longrightarrow> segment q \<Longrightarrow> segment t \<Longrightarrow>
     taskQueueOf (taskName p l q t) = queueName p l q"
  by (simp add: taskQueueOf_def)

lemma taskID_taskName [simp]:
  "segment p \<Longrightarrow> segment l \<Longrightarrow> segment q \<Longrightarrow> segment t \<Longrightarrow> taskID (taskName p l q t) = t"
  by (simp add: taskID_def)

lemma queueParent_queueName [simp]:
  "segment p \<Longrightarrow> segment l \<Longrightarrow> segment q \<Longrightarrow> queueParent (queueName p l q) = locationName p l"
  by (simp add: queueParent_def)

lemma queueID_queueName [simp]:
  "segment p \<Longrightarrow> segment l \<Longrightarrow> segment q \<Longrightarrow> queueID (queueName p l q) = q"
  by (simp add: queueID_def)

lemma resolveTaskName_generated:
  assumes "parseQueueName parent \<noteq> None" and "segment g"
  shows "resolveTaskName parent [] g = Inr (parent @ ''/tasks/'' @ g) \<and>
    taskQueueOf (parent @ ''/tasks/'' @ g) = parent \<and> taskID (parent @ ''/tasks/'' @ g) = g"
proof -
  obtain p l q where seg: "segment p" "segment l" "segment q" and parent: "parent = queueName p l q"
    using assms(1) by (auto simp: parseQueueName_iff)
  have eq: "parent @ ''/tasks/'' @ g = taskName p l q g"
    unfolding parent by (rule queueName_tasks)
  show ?thesis unfolding resolveTaskName_def eq using seg assms(2) parent by simp
qed

lemma resolveTaskName_provided:
  assumes "provided \<noteq> []" and "resolveTaskName parent provided g = Inr n"
  shows "n = provided \<and> taskQueueOf n = parent \<and> idRe (taskID n) \<and> parseTaskName n \<noteq> None"
  using assms
  by (auto simp: resolveTaskName_def taskID_def split: option.splits if_splits)

section \<open>Properties\<close>

text \<open>
  A resource name parses exactly when it is the formatted name of non-empty parts
  without a slash, and then the parser returns those parts: the three name expressions of
  the source accept nothing else and lose nothing, for tasks (the longest of the three)
  and through it for the queue a task belongs to.
\<close>

lemma task_name_roundtrip:
  "parseTaskName n = Some (p, l, q, t) \<longleftrightarrow>
     segment p \<and> segment l \<and> segment q \<and> segment t \<and> n = taskName p l q t \<and>
     taskQueueOf n = queueName p l q \<and> parseQueueName (taskQueueOf n) = Some (p, l, q) \<and>
     queueParent (taskQueueOf n) = locationName p l \<and> taskID n = t"
  by (auto simp: parseTaskName_iff)

text \<open>
  \<^verbatim>\<open>resolveTaskName\<close> only ever returns a task name of the parent queue: a caller's name
  is returned unchanged after its identifier and its queue were checked, a generated one is
  the parent's name followed by the generated identifier.
\<close>

lemma resolveTaskName_belongs:
  assumes "parseQueueName parent \<noteq> None" and "segment generated"
    and "resolveTaskName parent provided generated = Inr n"
  shows "taskQueueOf n = parent \<and> parseTaskName n \<noteq> None \<and>
    (if provided = [] then taskID n = generated else n = provided \<and> idRe (taskID n))"
proof (cases "provided = []")
  case True
  with assms have n: "n = parent @ ''/tasks/'' @ generated" by (simp add: resolveTaskName_def)
  have "taskID n = generated" "taskQueueOf n = parent"
    using resolveTaskName_generated [OF assms(1,2)] n by simp_all
  moreover have "parseTaskName n \<noteq> None"
    using \<open>taskID n = generated\<close> assms(2) by (cases "parseTaskName n") (auto simp: taskID_def segment_def)
  ultimately show ?thesis using True by simp
next
  case False
  with resolveTaskName_provided [OF False assms(3)] show ?thesis by auto
qed

end
