(* ===== verification/Core_Types.thy ===== *)
theory Core_Types
  imports Emu_Prelude
begin

text \<open>
  \<^verbatim>\<open>core/types.go\<close>: the version-neutral data of the engine, one record per struct and one
  datatype per enumeration. A pointer field is an \<^verbatim>\<open>option\<close>, \<^const>\<open>None\<close> being nil. Field names are the Go names with
  a prefix for the struct.
\<close>

section \<open>Enumerations\<close>

datatype State = StateRunning | StatePaused | StateDisabled

datatype TargetType = TargetNone | TargetHTTP | TargetAppEngine | TargetPull

datatype AuthKind = AuthNone | AuthOIDC | AuthOAuth

section \<open>Floating-point rates\<close>

text \<open>
  \<^verbatim>\<open>RateLimits.MaxDispatchesPerSecond\<close> is a \<^verbatim>\<open>float64\<close> that the engine only compares with
  constants and hands to the limiter: a finite value is its exact rational, and the three
  values that are not finite compare as IEEE 754 says.
\<close>

datatype float64 = Fin rat | PosInf | NegInf | NaN

fun f64_eq :: "float64 \<Rightarrow> rat \<Rightarrow> bool" where
  "f64_eq (Fin x) y = (x = y)"
| "f64_eq _ y = False"

fun f64_less :: "float64 \<Rightarrow> rat \<Rightarrow> bool" where
  "f64_less (Fin x) y = (x < y)"
| "f64_less NegInf y = True"
| "f64_less _ y = False"

fun f64_ge :: "float64 \<Rightarrow> rat \<Rightarrow> bool" where
  "f64_ge (Fin x) y = (y \<le> x)"
| "f64_ge PosInf y = True"
| "f64_ge _ y = False"

section \<open>Structs\<close>

record Auth =
  auth_Kind :: AuthKind
  auth_ServiceAccountEmail :: string
  auth_Audience :: string
  auth_Scope :: string

record AppEngineRouting =
  aer_Service :: string
  aer_Version :: string
  aer_Instance :: string
  aer_Host :: string

record Target =
  tg_Type :: TargetType
  tg_Method :: string
  tg_Headers :: "(string, string) gomap"
  tg_Body :: string
  tg_URL :: string
  tg_Auth :: "Auth option"
  tg_RelativeURI :: string
  tg_AppEngineRouting :: "AppEngineRouting option"
  tg_Tag :: string

record RateLimits =
  rl_MaxDispatchesPerSecond :: float64
  rl_MaxBurstSize :: int32
  rl_MaxConcurrentDispatches :: int32

record RetryConfig =
  rc_MaxAttempts :: int32
  rc_MaxRetryDuration :: duration
  rc_MinBackoff :: duration
  rc_MaxBackoff :: duration
  rc_MaxDoublings :: int32

record HTTPOverride =
  ov_Scheme :: string
  ov_Host :: string
  ov_Port :: string
  ov_Path :: string
  ov_Query :: string
  ov_AlwaysEnforce :: bool
  ov_Method :: string
  ov_Headers :: "(string, string) gomap"
  ov_Auth :: "Auth option"

record Queue =
  q_Name :: string
  q_State :: State
  q_RateLimits :: RateLimits
  q_RetryConfig :: RetryConfig
  q_TaskTTL :: duration
  q_TombstoneTTL :: duration
  q_Pull :: bool
  q_AppEngineRoutingOverride :: "AppEngineRouting option"
  q_HTTPOverride :: "HTTPOverride option"
  q_PurgeTime :: time
  q_TasksCount :: int64

record Attempt =
  att_ScheduleTime :: time
  att_DispatchTime :: time
  att_ResponseTime :: time
  att_Code :: int32
  att_Message :: string

record Task =
  t_Name :: string
  t_ScheduleTime :: time
  t_CreateTime :: time
  t_DispatchDeadline :: duration
  t_DispatchCount :: int32
  t_ResponseCount :: int32
  t_FirstAttempt :: "Attempt option"
  t_LastAttempt :: "Attempt option"
  t_Target :: Target

section \<open>Zero values\<close>

text \<open>Go's zero values, which a composite literal gives to the fields it does not name.\<close>

definition zeroRateLimits :: RateLimits where
  "zeroRateLimits = \<lparr>rl_MaxDispatchesPerSecond = Fin 0, rl_MaxBurstSize = 0,
     rl_MaxConcurrentDispatches = 0\<rparr>"

definition zeroRetryConfig :: RetryConfig where
  "zeroRetryConfig = \<lparr>rc_MaxAttempts = 0, rc_MaxRetryDuration = 0, rc_MinBackoff = 0,
     rc_MaxBackoff = 0, rc_MaxDoublings = 0\<rparr>"

definition zeroTarget :: Target where
  "zeroTarget = \<lparr>tg_Type = TargetNone, tg_Method = [], tg_Headers = [], tg_Body = [], tg_URL = [],
     tg_Auth = None, tg_RelativeURI = [], tg_AppEngineRouting = None, tg_Tag = []\<rparr>"

definition zeroHTTPOverride :: HTTPOverride where
  "zeroHTTPOverride = \<lparr>ov_Scheme = [], ov_Host = [], ov_Port = [], ov_Path = [], ov_Query = [],
     ov_AlwaysEnforce = False, ov_Method = [], ov_Headers = [], ov_Auth = None\<rparr>"

definition zeroQueue :: Queue where
  "zeroQueue = \<lparr>q_Name = [], q_State = StateRunning, q_RateLimits = zeroRateLimits,
     q_RetryConfig = zeroRetryConfig, q_TaskTTL = 0, q_TombstoneTTL = 0, q_Pull = False,
     q_AppEngineRoutingOverride = None, q_HTTPOverride = None, q_PurgeTime = zeroTime,
     q_TasksCount = 0\<rparr>"

definition zeroTask :: Task where
  "zeroTask = \<lparr>t_Name = [], t_ScheduleTime = zeroTime, t_CreateTime = zeroTime,
     t_DispatchDeadline = 0, t_DispatchCount = 0, t_ResponseCount = 0, t_FirstAttempt = None,
     t_LastAttempt = None, t_Target = zeroTarget\<rparr>"

declare zeroRateLimits_def [eval_defs] zeroRetryConfig_def [eval_defs] zeroTarget_def [eval_defs]
  zeroHTTPOverride_def [eval_defs] zeroQueue_def [eval_defs] zeroTask_def [eval_defs]

end
