(* ===== verification/Dispatch.thy ===== *)
theory Dispatch
  imports Naming Core_Types
begin

text \<open>
  \<^verbatim>\<open>core/dispatch.go\<close>: how a task becomes an HTTP request and how the outcome becomes an rpc
  code. The parser and printer of \<^verbatim>\<open>net/url\<close> and string quoting, the OIDC token of the signer and the HTTP
  client itself are arguments of the definitions that use them (\<^verbatim>\<open>golib\<close>, \<^verbatim>\<open>token\<close>,
  \<^verbatim>\<open>client\<close>); header canonicalisation, header maps and the decimal formats are modelled.
\<close>

section \<open>Header maps of net/http\<close>

text \<open>\<^verbatim>\<open>textproto\<close>'s token bytes, which header names and methods are made of.\<close>

definition tokenByte :: "char \<Rightarrow> bool" where
  "tokenByte c \<longleftrightarrow>
     (let n = of_char c :: nat in
      65 \<le> n \<and> n \<le> 90 \<or> 97 \<le> n \<and> n \<le> 122 \<or> 48 \<le> n \<and> n \<le> 57) \<or>
     c \<in> set ''!#$%&*+-.^_`|~'' \<or> of_char c = (39::nat)"

definition upperByte :: "char \<Rightarrow> char" where
  "upperByte c =
     (let n = of_char c :: nat in if 97 \<le> n \<and> n \<le> 122 then char_of (n - 32) else c)"

definition lowerByte :: "char \<Rightarrow> char" where
  "lowerByte c =
     (let n = of_char c :: nat in if 65 \<le> n \<and> n \<le> 90 then char_of (n + 32) else c)"

fun canonBytes :: "bool \<Rightarrow> string \<Rightarrow> string" where
  "canonBytes up [] = []"
| "canonBytes up (c # cs) =
     (let c' = (if up then upperByte c else lowerByte c)
      in c' # canonBytes (c' = CHR ''-'') cs)"

definition CanonicalHeaderKey :: "string \<Rightarrow> string" where
  "CanonicalHeaderKey k = (if list_all tokenByte k then canonBytes True k else k)"

type_synonym header = "(string, string list) gomap"

definition headerSet :: "string \<Rightarrow> string \<Rightarrow> header \<Rightarrow> header" where
  "headerSet k v h = gset (CanonicalHeaderKey k) [v] h"

definition headerGet :: "string \<Rightarrow> header \<Rightarrow> string" where
  "headerGet k h = (case gget h (CanonicalHeaderKey k) of Some (v # _) \<Rightarrow> v | _ \<Rightarrow> [])"

text \<open>\<^verbatim>\<open>setRawHeader\<close> stores under the name exactly as written.\<close>

definition setRawHeader :: "string \<Rightarrow> string \<Rightarrow> header \<Rightarrow> header" where
  "setRawHeader k v h = gset k [v] h"

section \<open>Requests\<close>

record URL =
  u_Scheme :: string
  u_Opaque :: string
  u_User :: "(string \<times> string option) option"
  u_Host :: string
  u_Path :: string
  u_RawPath :: string
  u_OmitHost :: bool
  u_ForceQuery :: bool
  u_RawQuery :: string
  u_Fragment :: string
  u_RawFragment :: string

text \<open>
  \<^verbatim>\<open>url.Parse\<close> (an error message or the parts), \<^verbatim>\<open>URL.String\<close> and \<^verbatim>\<open>strconv.Quote\<close>, which is
  what the \<^verbatim>\<open>%q\<close> verb prints.
\<close>

record golib =
  gl_Parse :: "string \<Rightarrow> string + URL"
  gl_String :: "URL \<Rightarrow> string"
  gl_Quote :: "string \<Rightarrow> string"

record request =
  req_Method :: string
  req_URL :: string
  req_Body :: string
  req_Header :: header

record attemptInfo =
  ai_number :: int32
  ai_executionCount :: int32
  ai_prevHTTPCode :: int
  ai_prevReason :: string

definition httpUserAgent :: string where
  "httpUserAgent = ''Google-Cloud-Tasks''"

definition appEngineUserAgent :: string where
  "appEngineUserAgent = ''AppEngine-Google; (+http://code.google.com/appengine)''"

definition validMethod :: "string \<Rightarrow> bool" where
  "validMethod m \<longleftrightarrow> m \<noteq> [] \<and> list_all tokenByte m"

definition newRequest ::
  "golib \<Rightarrow> string \<Rightarrow> string \<Rightarrow> string \<Rightarrow> (string, string) gomap \<Rightarrow> string + request" where
  "newRequest gl method rawURL body headers =
     (if \<not> validMethod method then Inl (''net/http: invalid method '' @ gl_Quote gl method)
      else case gl_Parse gl rawURL of
        Inl e \<Rightarrow> Inl e
      | Inr u \<Rightarrow> Inr \<lparr>req_Method = method, req_URL = rawURL, req_Body = body,
          req_Header = fold (\<lambda>(k, v) h. headerSet k v h) headers []\<rparr>)"

definition methodOrPost :: "string \<Rightarrow> string" where
  "methodOrPost m = (if m = [] then ''POST'' else m)"

definition cloneHeaders :: "(string, string) gomap \<Rightarrow> (string, string) gomap" where
  "cloneHeaders h = fold (\<lambda>(k, v) m. gset k v m) h []"

section \<open>Queue-level overrides\<close>

text \<open>\<^verbatim>\<open>URL.Hostname\<close> and \<^verbatim>\<open>URL.Port\<close> of \<^verbatim>\<open>net/url\<close>: split at the last colon when what follows is
  all digits, then drop the brackets of an IPv6 literal.\<close>

definition lastColon :: "string \<Rightarrow> nat option" where
  "lastColon s =
     (if CHR '':'' \<in> set s
      then Some (length s - 1 - length (takeWhile (\<lambda>c. c \<noteq> CHR '':'') (rev s))) else None)"

definition isDigit :: "char \<Rightarrow> bool" where
  "isDigit c \<longleftrightarrow> digit_val c \<noteq> None"

definition stripBrackets :: "string \<Rightarrow> string" where
  "stripBrackets h =
     (if h \<noteq> [] \<and> hd h = CHR ''['' \<and> last h = CHR '']'' then butlast (tl h) else h)"

definition splitHostPort :: "string \<Rightarrow> string \<times> string" where
  "splitHostPort hostPort =
     (case lastColon hostPort of
        Some i \<Rightarrow>
          if list_all isDigit (drop (Suc i) hostPort)
          then (stripBrackets (take i hostPort), drop (Suc i) hostPort)
          else (stripBrackets hostPort, [])
      | None \<Rightarrow> (stripBrackets hostPort, []))"

definition overrideHost :: "URL \<Rightarrow> HTTPOverride \<Rightarrow> string" where
  "overrideHost u ov =
     (let set' = (\<lambda>cur override. if override = [] then cur
            else if ov_AlwaysEnforce ov \<or> cur = [] then override else cur);
          host = set' (fst (splitHostPort (u_Host u))) (ov_Host ov);
          port = set' (snd (splitHostPort (u_Host u))) (ov_Port ov)
      in if port \<noteq> [] then host @ '':'' @ port else host)"

definition overrideURL :: "URL \<Rightarrow> HTTPOverride \<Rightarrow> URL" where
  "overrideURL u ov =
     (let u1 = (if ov_Scheme ov \<noteq> [] \<and> (ov_AlwaysEnforce ov \<or> u_Scheme u = [])
                then u\<lparr>u_Scheme := ov_Scheme ov\<rparr> else u);
          u2 = u1\<lparr>u_Host := overrideHost u1 ov\<rparr>;
          u3 = (if ov_Path ov \<noteq> [] \<and> (ov_AlwaysEnforce ov \<or> u_Path u2 = [] \<or> u_Path u2 = ''/'')
                then u2\<lparr>u_Path := ov_Path ov\<rparr> else u2)
      in if ov_Query ov \<noteq> [] \<and> (ov_AlwaysEnforce ov \<or> u_RawQuery u3 = [])
         then u3\<lparr>u_RawQuery := ov_Query ov\<rparr> else u3)"

definition applyURIOverride :: "golib \<Rightarrow> string \<Rightarrow> HTTPOverride \<Rightarrow> string" where
  "applyURIOverride gl raw ov =
     (case gl_Parse gl raw of
        Inl _ \<Rightarrow> raw
      | Inr u \<Rightarrow> gl_String gl (overrideURL u ov))"

definition overrideHeaders ::
  "HTTPOverride \<Rightarrow> (string, string) gomap \<Rightarrow> (string, string) gomap" where
  "overrideHeaders ov headers =
     fold (\<lambda>(k, v) h.
         if ov_AlwaysEnforce ov \<or> (case gget h k of Some x \<Rightarrow> x | None \<Rightarrow> []) = []
         then gset k v h else h)
       (ov_Headers ov) headers"

definition applyHTTPOverride ::
  "golib \<Rightarrow> string \<Rightarrow> string \<Rightarrow> (string, string) gomap \<Rightarrow> Auth option \<Rightarrow> HTTPOverride option
     \<Rightarrow> string \<times> string \<times> (string, string) gomap \<times> Auth option" where
  "applyHTTPOverride gl method rawURL headers auth ovp =
     (case ovp of
        None \<Rightarrow> (method, rawURL, headers, auth)
      | Some ov \<Rightarrow>
         (if ov_Method ov \<noteq> [] \<and> ov_AlwaysEnforce ov then ov_Method ov else method,
          applyURIOverride gl rawURL ov,
          overrideHeaders ov headers,
          if ov_Auth ov \<noteq> None \<and> (auth = None \<or> ov_AlwaysEnforce ov) then ov_Auth ov else auth))"

section \<open>Building the request\<close>

text \<open>\<^verbatim>\<open>fmt.Sprintf("%d.%06d", eta.Unix(), eta.Nanosecond()/1000)\<close>\<close>

definition etaString :: "time \<Rightarrow> string" where
  "etaString eta =
     Itoa (eta div 1000000000) @ ''.'' @ pad_dec 6 (nat (eta mod 1000000000) div 1000)"

definition setSystemHeaders ::
  "string \<Rightarrow> Queue \<Rightarrow> Task \<Rightarrow> attemptInfo \<Rightarrow> header \<Rightarrow> header" where
  "setSystemHeaders prefix q t info h =
     (let h1 = setRawHeader (prefix @ ''-QueueName'') (queueID (q_Name q)) h;
          h2 = setRawHeader (prefix @ ''-TaskName'') (taskID (t_Name t)) h1;
          h3 = setRawHeader (prefix @ ''-TaskRetryCount'') (Itoa (wrap32 (ai_number info - 1))) h2;
          h4 = setRawHeader (prefix @ ''-TaskExecutionCount'') (Itoa (ai_executionCount info)) h3;
          h5 = setRawHeader (prefix @ ''-TaskETA'') (etaString (t_ScheduleTime t)) h4;
          h6 = (if ai_prevHTTPCode info \<noteq> 0
                then setRawHeader (prefix @ ''-TaskPreviousResponse'') (Itoa (ai_prevHTTPCode info)) h5
                else h5)
      in if ai_prevReason info \<noteq> []
         then setRawHeader (prefix @ ''-TaskRetryReason'') (ai_prevReason info) h6 else h6)"

definition oauthToken :: "string \<Rightarrow> string \<Rightarrow> string" where
  "oauthToken email scope = ''emulator-oauth-token/'' @ email @ ''/'' @ scope"

definition setAuthHeader ::
  "(string \<Rightarrow> string \<Rightarrow> string) \<Rightarrow> Auth \<Rightarrow> string \<Rightarrow> header \<Rightarrow> header" where
  "setAuthHeader token auth targetURL h =
     (case auth_Kind auth of
        AuthOIDC \<Rightarrow>
          (let aud = (if auth_Audience auth = [] then targetURL else auth_Audience auth)
           in headerSet ''Authorization'' (''Bearer '' @ token (auth_ServiceAccountEmail auth) aud) h)
      | AuthOAuth \<Rightarrow>
          headerSet ''Authorization''
            (''Bearer '' @ oauthToken (auth_ServiceAccountEmail auth) (auth_Scope auth)) h
      | AuthNone \<Rightarrow> h)"

definition appEngineHost :: "string \<Rightarrow> Queue \<Rightarrow> Task \<Rightarrow> string" where
  "appEngineHost defaultHost q t =
     (case tg_AppEngineRouting (t_Target t) of
        Some r \<Rightarrow> if aer_Host r \<noteq> [] then aer_Host r else
          (case q_AppEngineRoutingOverride q of
             Some x \<Rightarrow> if aer_Host x \<noteq> [] then aer_Host x else defaultHost | None \<Rightarrow> defaultHost)
      | None \<Rightarrow>
          (case q_AppEngineRoutingOverride q of
             Some x \<Rightarrow> if aer_Host x \<noteq> [] then aer_Host x else defaultHost | None \<Rightarrow> defaultHost))"

definition buildHTTPRequest ::
  "golib \<Rightarrow> (string \<Rightarrow> string \<Rightarrow> string) \<Rightarrow> Queue \<Rightarrow> Task \<Rightarrow> attemptInfo \<Rightarrow> string + request" where
  "buildHTTPRequest gl token q t info =
     (let tg = t_Target t;
          (method, rawURL, headers, auth) =
            applyHTTPOverride gl (tg_Method tg) (tg_URL tg) (cloneHeaders (tg_Headers tg))
              (tg_Auth tg) (q_HTTPOverride q)
      in case newRequest gl (methodOrPost method) rawURL (tg_Body tg) headers of
           Inl e \<Rightarrow> Inl e
         | Inr req \<Rightarrow>
             let h1 = headerSet ''User-Agent'' httpUserAgent (req_Header req);
                 h2 = setSystemHeaders ''X-CloudTasks'' q t info h1;
                 h3 = (case auth of Some a \<Rightarrow> setAuthHeader token a rawURL h2 | None \<Rightarrow> h2)
             in Inr (req\<lparr>req_Header := h3\<rparr>))"

definition buildAppEngineRequest ::
  "golib \<Rightarrow> string \<Rightarrow> Queue \<Rightarrow> Task \<Rightarrow> attemptInfo \<Rightarrow> string + request" where
  "buildAppEngineRequest gl defaultHost q t info =
     (let host = appEngineHost defaultHost q t; tg = t_Target t in
      if host = [] then Inl ''no App Engine target host configured; set the default App Engine host''
      else case newRequest gl (methodOrPost (tg_Method tg)) (host @ tg_RelativeURI tg) (tg_Body tg)
                  (cloneHeaders (tg_Headers tg)) of
        Inl e \<Rightarrow> Inl e
      | Inr req \<Rightarrow>
          let h0 = req_Header req;
              ua = headerGet ''User-Agent'' h0;
              h1 = (if ua \<noteq> [] \<and> ua \<noteq> appEngineUserAgent
                    then headerSet ''User-Agent'' (ua @ '' '' @ appEngineUserAgent) h0
                    else headerSet ''User-Agent'' appEngineUserAgent h0);
              h2 = (if tg_Body tg \<noteq> [] \<and> headerGet ''Content-Type'' h1 = []
                    then headerSet ''Content-Type'' ''application/octet-stream'' h1 else h1);
              h3 = setSystemHeaders ''X-AppEngine'' q t info h2;
              h4 = setRawHeader ''X-AppEngine-FailFast'' ''false'' h3
          in Inr (req\<lparr>req_Header := h4\<rparr>))"

definition buildRequest ::
  "golib \<Rightarrow> (string \<Rightarrow> string \<Rightarrow> string) \<Rightarrow> string \<Rightarrow> Queue \<Rightarrow> Task \<Rightarrow> attemptInfo \<Rightarrow> string + request"
  where
  "buildRequest gl token defaultHost q t info =
     (case tg_Type (t_Target t) of
        TargetHTTP \<Rightarrow> buildHTTPRequest gl token q t info
      | TargetAppEngine \<Rightarrow> buildAppEngineRequest gl defaultHost q t info
      | _ \<Rightarrow> Inl ''task target cannot be dispatched over HTTP'')"

section \<open>Outcomes\<close>

text \<open>\<^verbatim>\<open>google.rpc.Code\<close> numbers the codes as \<^verbatim>\<open>grpc/codes\<close> does.\<close>

fun codeNum :: "code \<Rightarrow> int32" where
  "codeNum OK = 0" | "codeNum Canceled = 1" | "codeNum Unknown = 2"
| "codeNum InvalidArgument = 3" | "codeNum DeadlineExceeded = 4" | "codeNum NotFound = 5"
| "codeNum AlreadyExists = 6" | "codeNum PermissionDenied = 7" | "codeNum ResourceExhausted = 8"
| "codeNum FailedPrecondition = 9" | "codeNum Aborted = 10" | "codeNum OutOfRange = 11"
| "codeNum Unimplemented = 12" | "codeNum Internal = 13" | "codeNum Unavailable = 14"
| "codeNum DataLoss = 15" | "codeNum Unauthenticated = 16"

definition httpToRPCCode :: "int \<Rightarrow> code" where
  "httpToRPCCode s =
     (if s = 400 then InvalidArgument
      else if s = 401 then Unauthenticated
      else if s = 403 then PermissionDenied
      else if s = 404 then NotFound
      else if s = 409 then AlreadyExists
      else if s = 429 then ResourceExhausted
      else if s = 408 \<or> s = 504 then DeadlineExceeded
      else if s = 503 then Unavailable
      else if s = 501 then Unimplemented
      else if s \<ge> 500 then Internal
      else Unknown)"

definition retryReason :: "int \<Rightarrow> string \<Rightarrow> string" where
  "retryReason httpCode message =
     (if httpCode \<noteq> 0 then ''RETURNED_'' @ Itoa httpCode
      else if message \<noteq> [] then ''CONNECTION_ERROR: '' @ message
      else ''CONNECTION_ERROR'')"

text \<open>
  The HTTP client answers a request under a deadline with a transport error or a status
  code. It does not follow redirects, so the status is the one the target sent.
\<close>

type_synonym client = "request \<Rightarrow> duration \<Rightarrow> string + int"

definition dispatchDeadline :: "Task \<Rightarrow> duration" where
  "dispatchDeadline t = (if t_DispatchDeadline t > 0 then t_DispatchDeadline t else 10 * minute)"

definition dispatch ::
  "golib \<Rightarrow> (string \<Rightarrow> string \<Rightarrow> string) \<Rightarrow> client \<Rightarrow> string \<Rightarrow> Queue \<Rightarrow> Task \<Rightarrow> attemptInfo
     \<Rightarrow> int32 \<times> int \<times> string" where
  "dispatch gl token client defaultHost q t info =
     (case buildRequest gl token defaultHost q t info of
        Inl e \<Rightarrow> (codeNum InvalidArgument, 0, e)
      | Inr req \<Rightarrow>
          (case client req (dispatchDeadline t) of
             Inl e \<Rightarrow> (codeNum Unavailable, 0, e)
           | Inr statusCode \<Rightarrow>
               if statusCode \<ge> 200 \<and> statusCode < 300 then (codeNum OK, statusCode, [])
               else (codeNum (httpToRPCCode statusCode), statusCode, ''HTTP status '' @ Itoa statusCode)))"

end
