(* ===== verification/Queue_State.thy ===== *)
theory Queue_State
  imports Dispatch "HOL-Library.Log_Nat"
begin

text \<open>
  \<^verbatim>\<open>core/queue.go\<close>: the run-time state of one queue and every operation on it. Task states
  are shared in the Go code: the map of live tasks, the timers and the attempts in flight
  all hold the same pointer. The model keeps that aliasing: a task state is a cell of
  \<^verbatim>\<open>qs_cells\<close>, and the map, the timers and the attempts hold its index. Cells are
  never freed or reused, so an index that was handed out stays the identity of one task.

  \<^verbatim>\<open>time.AfterFunc\<close> adds an entry to \<^verbatim>\<open>qs_timers\<close>, the pending run-time timers whose functions
  refer to this queue; \<^verbatim>\<open>Stop\<close> removes it. The clock is an argument of every operation,
  read once per critical section. The constants a queue reads through its
  engine pointer are the record \<^verbatim>\<open>EngineConf\<close>.
\<close>

section \<open>State\<close>

type_synonym tref = nat
type_synonym tid = nat

record taskState =
  ts_t :: Task
  ts_timer :: "tid option"
  ts_ttlTimer :: "tid option"
  ts_removed :: bool
  ts_firstAttemptTime :: time
  ts_lastHTTPCode :: int
  ts_lastRetryReason :: string
  ts_executionCount :: int32

datatype timerFunc = FireFn tref | ExpireFn tref | TombstoneFn string

record Limiter =
  lim_rate :: float64
  lim_burst :: int

text \<open>A buffered channel used as a semaphore: its capacity and the tokens now in it.\<close>

record Chan =
  ch_cap :: nat
  ch_used :: nat

record EngineConf =
  eng_taskTTL :: duration
  eng_tombstoneTTL :: duration
  eng_hardResetOnPurge :: bool
  eng_defaultAppEngineHost :: string

record queueState =
  qs_q :: Queue
  qs_tasks :: "(string, tref) gomap"
  qs_tombstones :: "(string, time) gomap"
  qs_limiter :: Limiter
  qs_concurrency :: nat
  qs_idSeq :: nat
  qs_cells :: "taskState list"
  qs_timers :: "(tid, time \<times> timerFunc) gomap"
  qs_nextTid :: tid
  qs_chans :: "Chan list"

definition pausePollInterval :: duration where
  "pausePollInterval = second"

section \<open>Timers and cells\<close>

text \<open>\<^verbatim>\<open>time.AfterFunc\<close>: a duration that is not positive is due at once.\<close>

definition afterFunc :: "time \<Rightarrow> duration \<Rightarrow> timerFunc \<Rightarrow> queueState \<Rightarrow> queueState \<times> tid" where
  "afterFunc now d fn qs =
     (qs\<lparr>qs_timers := gset (qs_nextTid qs) (now + max 0 d, fn) (qs_timers qs),
         qs_nextTid := Suc (qs_nextTid qs)\<rparr>, qs_nextTid qs)"

definition stopTimer :: "tid option \<Rightarrow> queueState \<Rightarrow> queueState" where
  "stopTimer i qs =
     (case i of None \<Rightarrow> qs | Some k \<Rightarrow> qs\<lparr>qs_timers := gdel k (qs_timers qs)\<rparr>)"

definition cell :: "queueState \<Rightarrow> tref \<Rightarrow> taskState" where
  "cell qs r = qs_cells qs ! r"

definition updCell :: "tref \<Rightarrow> (taskState \<Rightarrow> taskState) \<Rightarrow> queueState \<Rightarrow> queueState" where
  "updCell r f qs = qs\<lparr>qs_cells := (qs_cells qs)[r := f (qs_cells qs ! r)]\<rparr>"

text \<open>\<^verbatim>\<open>Time.Sub\<close> saturates at the limits of a duration.\<close>

definition timeSub :: "time \<Rightarrow> time \<Rightarrow> duration" where
  "timeSub t u = max (- 9223372036854775808) (min 9223372036854775807 (t - u))"

section \<open>Construction and defaults\<close>

definition rebuildLimits :: "queueState \<Rightarrow> queueState" where
  "rebuildLimits qs =
     (let rl = q_RateLimits (qs_q qs);
          burst = (if rl_MaxBurstSize rl < 1 then 1 else rl_MaxBurstSize rl);
          maxConc = (if rl_MaxConcurrentDispatches rl < 1 then 1 else rl_MaxConcurrentDispatches rl)
      in qs\<lparr>qs_limiter := \<lparr>lim_rate = rl_MaxDispatchesPerSecond rl, lim_burst = burst\<rparr>,
            qs_concurrency := length (qs_chans qs),
            qs_chans := qs_chans qs @ [\<lparr>ch_cap = nat maxConc, ch_used = 0\<rparr>]\<rparr>)"

definition newQueueState :: "Queue \<Rightarrow> queueState" where
  "newQueueState q =
     rebuildLimits
       \<lparr>qs_q = q, qs_tasks = [], qs_tombstones = [],
        qs_limiter = \<lparr>lim_rate = Fin 0, lim_burst = 0\<rparr>, qs_concurrency = 0, qs_idSeq = 0,
        qs_cells = [], qs_timers = [], qs_nextTid = 0, qs_chans = []\<rparr>"

definition computeBurstSize :: "float64 \<Rightarrow> int32" where
  "computeBurstSize rps =
     (if f64_less rps 0 then 0
      else if f64_ge rps 500 then 100
      else if f64_ge rps 50 then 20
      else if f64_ge rps 1 then 10
      else 5)"

definition defaultRateLimits :: "RateLimits \<Rightarrow> RateLimits" where
  "defaultRateLimits rl =
     (let rl1 = (if f64_eq (rl_MaxDispatchesPerSecond rl) 0
                 then rl\<lparr>rl_MaxDispatchesPerSecond := Fin 500\<rparr> else rl);
          rl2 = (if rl_MaxConcurrentDispatches rl1 = 0
                 then rl1\<lparr>rl_MaxConcurrentDispatches := 1000\<rparr> else rl1)
      in rl2\<lparr>rl_MaxBurstSize := computeBurstSize (rl_MaxDispatchesPerSecond rl2)\<rparr>)"

definition defaultRetryConfig :: "RetryConfig \<Rightarrow> RetryConfig" where
  "defaultRetryConfig rc =
     (let rc1 = (if rc_MaxAttempts rc = 0 then rc\<lparr>rc_MaxAttempts := 100\<rparr> else rc);
          rc2 = (if rc_MinBackoff rc1 = 0 then rc1\<lparr>rc_MinBackoff := 100 * millisecond\<rparr> else rc1);
          rc3 = (if rc_MaxBackoff rc2 = 0 then rc2\<lparr>rc_MaxBackoff := 3600 * second\<rparr> else rc2)
      in if rc_MaxDoublings rc3 = 0 then rc3\<lparr>rc_MaxDoublings := 16\<rparr> else rc3)"

definition applyQueueDefaults :: "Queue \<Rightarrow> Queue" where
  "applyQueueDefaults q =
     q\<lparr>q_RateLimits := defaultRateLimits (q_RateLimits q),
       q_RetryConfig := defaultRetryConfig (q_RetryConfig q)\<rparr>"

definition effectiveTaskTTL :: "EngineConf \<Rightarrow> queueState \<Rightarrow> duration" where
  "effectiveTaskTTL eng qs =
     (if q_TaskTTL (qs_q qs) > 0 then q_TaskTTL (qs_q qs) else eng_taskTTL eng)"

definition effectiveTombstoneTTL :: "EngineConf \<Rightarrow> queueState \<Rightarrow> duration" where
  "effectiveTombstoneTTL eng qs =
     (if q_TombstoneTTL (qs_q qs) > 0 then q_TombstoneTTL (qs_q qs) else eng_tombstoneTTL eng)"

definition cloneTask :: "Task \<Rightarrow> Task" where
  "cloneTask t = t\<lparr>t_Target := (t_Target t)\<lparr>tg_Headers := cloneHeaders (tg_Headers (t_Target t))\<rparr>\<rparr>"

definition snapshotLocked :: "queueState \<Rightarrow> Queue" where
  "snapshotLocked qs = (qs_q qs)\<lparr>q_TasksCount := int (length (qs_tasks qs))\<rparr>"

section \<open>Scheduling\<close>

definition schedule :: "time \<Rightarrow> tref \<Rightarrow> queueState \<Rightarrow> queueState" where
  "schedule now r qs =
     (let ts = cell qs r in
      if ts_removed ts \<or> q_Pull (qs_q qs) \<or> tg_Type (t_Target (ts_t ts)) = TargetPull then qs
      else let d0 = timeSub (t_ScheduleTime (ts_t ts)) now;
               d = (if d0 < 0 then 0 else d0);
               (qs1, i) = afterFunc now d (FireFn r) qs
           in updCell r (\<lambda>ts. ts\<lparr>ts_timer := Some i\<rparr>) qs1)"

text \<open>
  The locked part of \<^verbatim>\<open>fire\<close>: it returns at once, holds the task back while the queue is not
  running, or goes on with the limiter and the semaphore captured under the lock.
\<close>

datatype fireResult = FireReturn | FireHeld | FireGo Limiter nat

definition fire :: "time \<Rightarrow> tref \<Rightarrow> queueState \<Rightarrow> queueState \<times> fireResult" where
  "fire now r qs =
     (if ts_removed (cell qs r) then (qs, FireReturn)
      else if q_State (qs_q qs) = StatePaused \<or> q_State (qs_q qs) = StateDisabled
      then let (qs1, i) = afterFunc now pausePollInterval (FireFn r) qs
           in (updCell r (\<lambda>ts. ts\<lparr>ts_timer := Some i\<rparr>) qs1, FireHeld)
      else (qs, FireGo (qs_limiter qs) (qs_concurrency qs)))"

record attemptSnapshot =
  snap_task :: Task
  snap_queue :: Queue
  snap_info :: attemptInfo
  snap_scheduled :: time

definition snapshotAttempt :: "tref \<Rightarrow> queueState \<Rightarrow> attemptSnapshot option" where
  "snapshotAttempt r qs =
     (let ts = cell qs r; t = ts_t ts in
      if ts_removed ts then None
      else Some \<lparr>snap_task = cloneTask t, snap_queue = qs_q qs,
             snap_info = \<lparr>ai_number = wrap32 (t_DispatchCount t + 1),
                ai_executionCount = ts_executionCount ts,
                ai_prevHTTPCode = ts_lastHTTPCode ts, ai_prevReason = ts_lastRetryReason ts\<rparr>,
             snap_scheduled = t_ScheduleTime t\<rparr>)"

section \<open>Removal and tombstones\<close>

definition tombstoneLocked :: "EngineConf \<Rightarrow> time \<Rightarrow> string \<Rightarrow> queueState \<Rightarrow> queueState" where
  "tombstoneLocked eng now name qs =
     (let ttl = effectiveTombstoneTTL eng qs in
      if ttl < 0 then qs
      else fst (afterFunc now ttl (TombstoneFn name)
             (qs\<lparr>qs_tombstones := gset name (now + ttl) (qs_tombstones qs)\<rparr>)))"

text \<open>The function of the tombstone's timer.\<close>

definition tombstoneExpire :: "time \<Rightarrow> string \<Rightarrow> queueState \<Rightarrow> queueState" where
  "tombstoneExpire now name qs =
     (case gget (qs_tombstones qs) name of
        Some expiry \<Rightarrow>
          if \<not> now < expiry then qs\<lparr>qs_tombstones := gdel name (qs_tombstones qs)\<rparr> else qs
      | None \<Rightarrow> qs)"

definition tombstoned :: "time \<Rightarrow> string \<Rightarrow> queueState \<Rightarrow> bool" where
  "tombstoned now name qs \<longleftrightarrow>
     (case gget (qs_tombstones qs) name of Some expiry \<Rightarrow> now < expiry | None \<Rightarrow> False)"

text \<open>What \<^verbatim>\<open>removeLocked\<close>, \<^verbatim>\<open>purge\<close> and \<^verbatim>\<open>stop\<close> do to a task state: mark it, stop both timers.\<close>

definition retire :: "tref \<Rightarrow> queueState \<Rightarrow> queueState" where
  "retire r qs =
     (let ts = cell qs r
      in stopTimer (ts_ttlTimer ts)
           (stopTimer (ts_timer ts) (updCell r (\<lambda>ts. ts\<lparr>ts_removed := True\<rparr>) qs)))"

definition removeLocked :: "EngineConf \<Rightarrow> time \<Rightarrow> tref \<Rightarrow> queueState \<Rightarrow> queueState" where
  "removeLocked eng now r qs =
     (let name = t_Name (ts_t (cell qs r)); qs1 = retire r qs
      in tombstoneLocked eng now name (qs1\<lparr>qs_tasks := gdel name (qs_tasks qs1)\<rparr>))"

definition expire :: "EngineConf \<Rightarrow> time \<Rightarrow> tref \<Rightarrow> queueState \<Rightarrow> queueState" where
  "expire eng now r qs =
     (if ts_removed (cell qs r) then qs else removeLocked eng now r qs)"

text \<open>One round of the loop of \<^verbatim>\<open>purge\<close>.\<close>

definition purgeOne :: "EngineConf \<Rightarrow> time \<Rightarrow> tref \<Rightarrow> queueState \<Rightarrow> queueState" where
  "purgeOne eng now r qs = tombstoneLocked eng now (t_Name (ts_t (cell qs r))) (retire r qs)"

definition purge :: "EngineConf \<Rightarrow> time \<Rightarrow> queueState \<Rightarrow> queueState" where
  "purge eng now qs =
     (let qs1 = fold (purgeOne eng now) (map snd (qs_tasks qs)) qs;
          qs2 = qs1\<lparr>qs_tasks := []\<rparr>;
          qs3 = (if eng_hardResetOnPurge eng then qs2\<lparr>qs_tombstones := []\<rparr> else qs2)
      in qs3\<lparr>qs_q := (qs_q qs3)\<lparr>q_PurgeTime := now\<rparr>\<rparr>)"

definition stop :: "queueState \<Rightarrow> queueState" where
  "stop qs = (fold retire (map snd (qs_tasks qs)) qs)\<lparr>qs_tasks := []\<rparr>"

section \<open>Creation\<close>

definition newTaskState :: "Task \<Rightarrow> taskState" where
  "newTaskState t = \<lparr>ts_t = t, ts_timer = None, ts_ttlTimer = None, ts_removed = False,
     ts_firstAttemptTime = zeroTime, ts_lastHTTPCode = 0, ts_lastRetryReason = [],
     ts_executionCount = 0\<rparr>"

definition addTask :: "EngineConf \<Rightarrow> time \<Rightarrow> tref \<Rightarrow> queueState \<Rightarrow> queueState" where
  "addTask eng now r qs =
     (let qs1 = qs\<lparr>qs_tasks := gset (t_Name (ts_t (cell qs r))) r (qs_tasks qs)\<rparr>;
          (qs2, i) = afterFunc now (effectiveTaskTTL eng qs1) (ExpireFn r) qs1
      in schedule now r (updCell r (\<lambda>ts. ts\<lparr>ts_ttlTimer := Some i\<rparr>) qs2))"

text \<open>\<^verbatim>\<open>&taskState{t: t}\<close> followed by \<^verbatim>\<open>addTask\<close>.\<close>

definition addNewTask :: "EngineConf \<Rightarrow> time \<Rightarrow> Task \<Rightarrow> queueState \<Rightarrow> queueState" where
  "addNewTask eng now t qs =
     addTask eng now (length (qs_cells qs)) (qs\<lparr>qs_cells := qs_cells qs @ [newTaskState t]\<rparr>)"

definition nextTaskID :: "time \<Rightarrow> queueState \<Rightarrow> queueState \<times> string" where
  "nextTaskID now qs =
     (let s = (qs_idSeq qs + 1) mod 2 ^ 64
      in (qs\<lparr>qs_idSeq := s\<rparr>, dec_nat ((nat (now mod 2 ^ 64) + s) mod 2 ^ 64)))"

section \<open>Retry policy\<close>

definition shouldRetry :: "time \<Rightarrow> RetryConfig \<Rightarrow> Task \<Rightarrow> taskState \<Rightarrow> bool" where
  "shouldRetry now rc t ts =
     (let attemptsLimited = (rc_MaxAttempts rc \<noteq> - 1);
          durationLimited = (rc_MaxRetryDuration rc > 0)
      in if \<not> attemptsLimited \<and> \<not> durationLimited then True
         else if attemptsLimited \<and> t_DispatchCount t < rc_MaxAttempts rc then True
         else if durationLimited \<and> timeSub now (ts_firstAttemptTime ts) < rc_MaxRetryDuration rc
         then True
         else False)"

text \<open>
  \<^verbatim>\<open>float64(minB)\<close> rounds to the nearest 53-bit value, ties to even. The product with the power of
  two is then exact, and the conversion back truncates. A value
  outside \<^verbatim>\<open>int64\<close> converts to something the Go specification leaves to the implementation:
  the argument \<^verbatim>\<open>oob\<close>, given the value that did not fit (\<^const>\<open>None\<close> for the NaN that
  zero times an infinite power makes).
\<close>

definition toFloat :: "int \<Rightarrow> int" where
  "toFloat x =
     (let a = abs x; s = nat (bitlen a - 53); m = a div 2 ^ s; rest = a mod 2 ^ s
      in if s = 0 then x
         else sgn x * ((if 2 * rest > 2 ^ s \<or> (2 * rest = 2 ^ s \<and> odd m) then m + 1 else m) * 2 ^ s))"

definition scaled :: "(int option \<Rightarrow> int64) \<Rightarrow> duration \<Rightarrow> int32 \<Rightarrow> int64" where
  "scaled oob minB k =
     (let m = toFloat minB in
      if k < 0 then sgn m * (abs m div 2 ^ nat (- k))
      else if m = 0 \<and> k \<ge> 1024 then oob None
      else let x = m * 2 ^ nat k in if in_int64 x then x else oob (Some x))"

definition backoff :: "(int option \<Rightarrow> int64) \<Rightarrow> RetryConfig \<Rightarrow> int32 \<Rightarrow> duration" where
  "backoff oob rc retries =
     (let minB = rc_MinBackoff rc; maxB = rc_MaxBackoff rc; maxDoublings = rc_MaxDoublings rc;
          doublings = (if wrap32 (retries - 1) > maxDoublings then maxDoublings
                       else wrap32 (retries - 1));
          d0 = scaled oob minB doublings;
          d1 = (if wrap32 (retries - 1) > maxDoublings
                then wrap64 (d0 + wrap64 (wrap32 (wrap32 (retries - 1) - maxDoublings)
                                           * scaled oob minB maxDoublings))
                else d0);
          d2 = (if d1 > maxB then maxB else d1)
      in if d2 < 0 then maxB else d2)"

section \<open>Applying an attempt\<close>

definition recordAttempt :: "Attempt \<Rightarrow> time \<Rightarrow> int \<Rightarrow> taskState \<Rightarrow> taskState" where
  "recordAttempt att dispatchTime httpCode ts =
     (let t0 = ts_t ts;
          t1 = t0\<lparr>t_DispatchCount := wrap32 (t_DispatchCount t0 + 1)\<rparr>;
          t2 = (if httpCode \<noteq> 0 then t1\<lparr>t_ResponseCount := wrap32 (t_ResponseCount t1 + 1)\<rparr> else t1);
          ts2 = (if httpCode \<noteq> 0 \<and> httpCode < 500
                 then ts\<lparr>ts_executionCount := wrap32 (ts_executionCount ts + 1)\<rparr> else ts);
          t3 = t2\<lparr>t_LastAttempt := Some att\<rparr>;
          (t4, ts4) = (if t_FirstAttempt t3 = None
                then (t3\<lparr>t_FirstAttempt := Some \<lparr>att_ScheduleTime = att_ScheduleTime att,
                          att_DispatchTime = att_DispatchTime att, att_ResponseTime = zeroTime,
                          att_Code = 0, att_Message = []\<rparr>\<rparr>,
                      ts2\<lparr>ts_firstAttemptTime := dispatchTime\<rparr>)
                else (t3, ts2))
      in ts4\<lparr>ts_t := t4, ts_lastHTTPCode := httpCode\<rparr>)"

definition applyAttempt ::
  "(int option \<Rightarrow> int64) \<Rightarrow> EngineConf \<Rightarrow> time \<Rightarrow> tref \<Rightarrow> Attempt \<Rightarrow> time \<Rightarrow> int32 \<Rightarrow> int \<Rightarrow> string
     \<Rightarrow> queueState \<Rightarrow> queueState" where
  "applyAttempt oob eng now r att dispatchTime rpcCode httpCode message qs =
     (if ts_removed (cell qs r) then qs
      else let qs1 = updCell r (recordAttempt att dispatchTime httpCode) qs in
      if rpcCode = 0 then removeLocked eng now r qs1
      else let qs2 = updCell r (\<lambda>ts. ts\<lparr>ts_lastRetryReason := retryReason httpCode message\<rparr>) qs1;
               rc = q_RetryConfig (qs_q qs2) in
      if \<not> shouldRetry now rc (ts_t (cell qs2 r)) (cell qs2 r) then removeLocked eng now r qs2
      else let qs3 = updCell r (\<lambda>ts. ts\<lparr>ts_t := (ts_t ts)\<lparr>t_ScheduleTime :=
                       now + backoff oob rc (t_DispatchCount (ts_t ts))\<rparr>\<rparr>) qs2
           in schedule now r qs3)"

text \<open>\<^verbatim>\<open>attempt\<close> with nothing interleaved: the three phases one after the other.\<close>

definition attempt ::
  "(int option \<Rightarrow> int64) \<Rightarrow> golib \<Rightarrow> (string \<Rightarrow> string \<Rightarrow> string) \<Rightarrow> client \<Rightarrow> EngineConf
     \<Rightarrow> time \<Rightarrow> time \<Rightarrow> time \<Rightarrow> tref \<Rightarrow> queueState \<Rightarrow> queueState" where
  "attempt oob gl token client eng dispatchTime responseTime now r qs =
     (case snapshotAttempt r qs of
        None \<Rightarrow> qs
      | Some snap \<Rightarrow>
          let (rpcCode, httpCode, message) =
                dispatch gl token client (eng_defaultAppEngineHost eng) (snap_queue snap)
                  (snap_task snap) (snap_info snap);
              att = \<lparr>att_ScheduleTime = snap_scheduled snap, att_DispatchTime = dispatchTime,
                     att_ResponseTime = responseTime, att_Code = rpcCode, att_Message = message\<rparr>
          in applyAttempt oob eng now r att dispatchTime rpcCode httpCode message qs)"

end
