(* ===== verification/Queue_Inv.thy ===== *)
theory Queue_Inv
  imports Queue_State
begin

text \<open>
  The well-formedness invariant of one queue's state and the proof that every operation of
  \<^verbatim>\<open>core/queue.go\<close> keeps it. The map of tasks and the set of task states that are not marked
  removed describe each other exactly; timers refer to existing task states, and a pull
  task or a task of a pull queue never has a dispatch timer; a recorded timer belongs to the
  task that recorded it, so stopping one never stops another task's; the semaphore the queue
  points to exists and has room for at least one dispatch.
\<close>

section \<open>The invariant\<close>

definition fn_ok :: "queueState \<Rightarrow> timerFunc \<Rightarrow> bool" where
  "fn_ok qs f \<longleftrightarrow>
     (case f of
        FireFn r \<Rightarrow> r < length (qs_cells qs) \<and> \<not> q_Pull (qs_q qs) \<and>
          tg_Type (t_Target (ts_t (cell qs r))) \<noteq> TargetPull
      | ExpireFn r \<Rightarrow> r < length (qs_cells qs)
      | TombstoneFn n \<Rightarrow> True)"

definition live :: "queueState \<Rightarrow> tref \<Rightarrow> bool" where
  "live qs r \<longleftrightarrow> r < length (qs_cells qs) \<and> \<not> ts_removed (cell qs r)"

abbreviation task_of :: "queueState \<Rightarrow> tref \<Rightarrow> Task" where
  "task_of qs r \<equiv> ts_t (cell qs r)"

abbreviation name_of :: "queueState \<Rightarrow> tref \<Rightarrow> string" where
  "name_of qs r \<equiv> t_Name (task_of qs r)"

definition timers_ok :: "queueState \<Rightarrow> bool" where
  "timers_ok qs \<longleftrightarrow> gwf (qs_timers qs) \<and>
     (\<forall>i d f. gget (qs_timers qs) i = Some (d, f) \<longrightarrow> i < qs_nextTid qs \<and> fn_ok qs f)"

definition owned :: "queueState \<Rightarrow> tid option \<Rightarrow> timerFunc \<Rightarrow> bool" where
  "owned qs h f \<longleftrightarrow>
     (\<forall>i. h = Some i \<longrightarrow> i < qs_nextTid qs \<and> (\<forall>d g. gget (qs_timers qs) i = Some (d, g) \<longrightarrow> g = f))"

definition handles_ok :: "queueState \<Rightarrow> bool" where
  "handles_ok qs \<longleftrightarrow>
     (\<forall>r < length (qs_cells qs).
        owned qs (ts_timer (cell qs r)) (FireFn r) \<and> owned qs (ts_ttlTimer (cell qs r)) (ExpireFn r))"

definition chans_ok :: "queueState \<Rightarrow> bool" where
  "chans_ok qs \<longleftrightarrow> qs_concurrency qs < length (qs_chans qs) \<and>
     (\<forall>c \<in> set (qs_chans qs). 1 \<le> ch_cap c \<and> ch_used c \<le> ch_cap c)"

text \<open>What holds even while a purge is half way through its loop.\<close>

definition qbase :: "queueState \<Rightarrow> bool" where
  "qbase qs \<longleftrightarrow> gwf (qs_tasks qs) \<and> gwf (qs_tombstones qs) \<and> timers_ok qs \<and> handles_ok qs \<and>
     chans_ok qs \<and>
     (\<forall>n r. gget (qs_tasks qs) n = Some r \<longrightarrow> r < length (qs_cells qs) \<and> name_of qs r = n) \<and>
     (\<forall>r. live qs r \<longrightarrow> gget (qs_tasks qs) (name_of qs r) = Some r)"

definition qinv :: "queueState \<Rightarrow> bool" where
  "qinv qs \<longleftrightarrow> qbase qs \<and> (\<forall>n r. gget (qs_tasks qs) n = Some r \<longrightarrow> live qs r)"

lemma qinv_lookup: "qinv qs \<Longrightarrow> gget (qs_tasks qs) n = Some r \<Longrightarrow> live qs r \<and> name_of qs r = n"
  by (auto simp: qinv_def qbase_def)

lemma qinv_live: "qinv qs \<Longrightarrow> live qs r \<Longrightarrow> gget (qs_tasks qs) (name_of qs r) = Some r"
  by (auto simp: qinv_def qbase_def)

section \<open>What the primitives leave alone\<close>

lemma afterFunc_frame [simp]:
  "qs_q (fst (afterFunc now d f qs)) = qs_q qs"
  "qs_tasks (fst (afterFunc now d f qs)) = qs_tasks qs"
  "qs_tombstones (fst (afterFunc now d f qs)) = qs_tombstones qs"
  "qs_limiter (fst (afterFunc now d f qs)) = qs_limiter qs"
  "qs_concurrency (fst (afterFunc now d f qs)) = qs_concurrency qs"
  "qs_idSeq (fst (afterFunc now d f qs)) = qs_idSeq qs"
  "qs_cells (fst (afterFunc now d f qs)) = qs_cells qs"
  "qs_chans (fst (afterFunc now d f qs)) = qs_chans qs"
  "qs_nextTid (fst (afterFunc now d f qs)) = Suc (qs_nextTid qs)"
  "snd (afterFunc now d f qs) = qs_nextTid qs"
  "qs_timers (fst (afterFunc now d f qs)) = gset (qs_nextTid qs) (now + max 0 d, f) (qs_timers qs)"
  by (simp_all add: afterFunc_def)

lemma stopTimer_frame [simp]:
  "qs_q (stopTimer h qs) = qs_q qs"
  "qs_tasks (stopTimer h qs) = qs_tasks qs"
  "qs_tombstones (stopTimer h qs) = qs_tombstones qs"
  "qs_limiter (stopTimer h qs) = qs_limiter qs"
  "qs_concurrency (stopTimer h qs) = qs_concurrency qs"
  "qs_idSeq (stopTimer h qs) = qs_idSeq qs"
  "qs_cells (stopTimer h qs) = qs_cells qs"
  "qs_chans (stopTimer h qs) = qs_chans qs"
  "qs_nextTid (stopTimer h qs) = qs_nextTid qs"
  by (simp_all add: stopTimer_def split: option.split)

lemma stopTimer_timers:
  "gget (qs_timers (stopTimer h qs)) i = (if h = Some i then None else gget (qs_timers qs) i)"
  by (auto simp: stopTimer_def gm.get_del split: option.split)

lemma updCell_frame [simp]:
  "qs_q (updCell r g qs) = qs_q qs"
  "qs_tasks (updCell r g qs) = qs_tasks qs"
  "qs_tombstones (updCell r g qs) = qs_tombstones qs"
  "qs_limiter (updCell r g qs) = qs_limiter qs"
  "qs_concurrency (updCell r g qs) = qs_concurrency qs"
  "qs_idSeq (updCell r g qs) = qs_idSeq qs"
  "qs_timers (updCell r g qs) = qs_timers qs"
  "qs_chans (updCell r g qs) = qs_chans qs"
  "qs_nextTid (updCell r g qs) = qs_nextTid qs"
  "length (qs_cells (updCell r g qs)) = length (qs_cells qs)"
  by (simp_all add: updCell_def)

lemma cell_updCell:
  "cell (updCell r g qs) r' = (if r' = r \<and> r < length (qs_cells qs) then g (cell qs r) else cell qs r')"
  by (cases "r < length (qs_cells qs)") (auto simp: cell_def updCell_def list_update_beyond)

lemma cell_updCell_same [simp]: "r < length (qs_cells qs) \<Longrightarrow> cell (updCell r g qs) r = g (cell qs r)"
  by (simp add: cell_updCell)

lemma cell_cong: "qs_cells qs = qs_cells qs' \<Longrightarrow> cell qs r = cell qs' r"
  by (simp add: cell_def)

lemma cell_afterFunc [simp]: "cell (fst (afterFunc now d f qs)) r = cell qs r"
  by (simp add: cell_def)

lemma cell_stopTimer [simp]: "cell (stopTimer h qs) r = cell qs r"
  by (simp add: cell_def)

lemma fn_ok_afterFunc [simp]: "fn_ok (fst (afterFunc now d g qs)) f = fn_ok qs f"
  by (simp add: fn_ok_def split: timerFunc.split)

lemma fn_ok_stopTimer [simp]: "fn_ok (stopTimer h qs) f = fn_ok qs f"
  by (simp add: fn_ok_def split: timerFunc.split)

lemma live_updCell: "live (updCell r g qs) r' \<longleftrightarrow>
    r' < length (qs_cells qs) \<and> \<not> ts_removed (if r' = r then g (cell qs r) else cell qs r')"
  by (auto simp: live_def cell_updCell)

text \<open>A cell update that keeps the identity of a task: its name, its kind of target, its timers.\<close>

definition same_identity :: "taskState \<Rightarrow> taskState \<Rightarrow> bool" where
  "same_identity ts ts' \<longleftrightarrow>
     t_Name (ts_t ts') = t_Name (ts_t ts) \<and>
     tg_Type (t_Target (ts_t ts')) = tg_Type (t_Target (ts_t ts)) \<and>
     ts_timer ts' = ts_timer ts \<and> ts_ttlTimer ts' = ts_ttlTimer ts \<and>
     (ts_removed ts \<longrightarrow> ts_removed ts')"

lemma fn_ok_updCell:
  "(\<And>ts. tg_Type (t_Target (ts_t (g ts))) = tg_Type (t_Target (ts_t ts))) \<Longrightarrow>
     fn_ok (updCell r g qs) f = fn_ok qs f"
  by (auto simp: fn_ok_def cell_updCell split: timerFunc.splits)

lemma qbase_updCell:
  assumes "qbase qs" and "\<And>ts. same_identity ts (g ts)"
  shows "qbase (updCell r g qs)"
proof -
  have id: "t_Name (ts_t (g ts)) = t_Name (ts_t ts)"
    "tg_Type (t_Target (ts_t (g ts))) = tg_Type (t_Target (ts_t ts))"
    "ts_timer (g ts) = ts_timer ts" "ts_ttlTimer (g ts) = ts_ttlTimer ts"
    "ts_removed ts \<Longrightarrow> ts_removed (g ts)" for ts
    using assms(2) [of ts] by (simp_all add: same_identity_def)
  have "timers_ok (updCell r g qs)"
    using assms(1) by (simp add: qbase_def timers_ok_def fn_ok_updCell id)
  moreover have "handles_ok (updCell r g qs)"
    using assms(1) by (auto simp: qbase_def handles_ok_def owned_def cell_updCell id)
  moreover have "live (updCell r g qs) r' \<Longrightarrow> live qs r'" for r'
    using id(5) by (auto simp: live_def cell_updCell split: if_splits)
  moreover have "name_of (updCell r g qs) r' = name_of qs r'" for r'
    by (simp add: cell_updCell id)
  ultimately show ?thesis
    using assms(1) by (simp add: qbase_def chans_ok_def)
qed

lemma qinv_updCell:
  assumes "qinv qs" and "\<And>ts. same_identity ts (g ts)" and "\<And>ts. ts_removed (g ts) = ts_removed ts"
  shows "qinv (updCell r g qs)"
proof -
  have "live (updCell r g qs) r' = live qs r'" for r'
    using assms(3) by (auto simp: live_def cell_updCell)
  with assms(1) show ?thesis
    using qbase_updCell [OF _ assms(2)] by (simp add: qinv_def)
qed

lemma qbase_stopTimer:
  assumes "qbase qs" shows "qbase (stopTimer h qs)"
proof -
  have "gwf (qs_timers (stopTimer h qs))"
    using assms by (auto simp: qbase_def timers_ok_def stopTimer_def gm.wf_del split: option.split)
  then show ?thesis
    using assms
    by (auto simp: qbase_def timers_ok_def handles_ok_def owned_def chans_ok_def
        live_def stopTimer_timers split: if_splits)
qed

text \<open>Arming a timer and recording its handle, the two steps every \<^verbatim>\<open>AfterFunc\<close> call takes.\<close>

lemma timers_ok_afterFunc:
  assumes "timers_ok qs" and "fn_ok qs f"
  shows "timers_ok (fst (afterFunc now d f qs))"
  using assms
  by (auto simp: timers_ok_def gm.get_set gm.wf_set split: if_splits intro: less_SucI)

lemma owned_afterFunc:
  "owned qs h f \<Longrightarrow> owned (fst (afterFunc now d g qs)) h f"
  by (auto simp: owned_def gm.get_set)

lemma qbase_afterFunc:
  assumes "qbase qs" and "fn_ok qs f"
  shows "qbase (fst (afterFunc now d f qs))"
  using assms timers_ok_afterFunc [of qs f now d]
  by (auto simp: qbase_def handles_ok_def chans_ok_def live_def intro: owned_afterFunc)

lemma qinv_afterFunc:
  assumes "qinv qs" and "fn_ok qs f"
  shows "qinv (fst (afterFunc now d f qs))"
  using assms qbase_afterFunc [of qs f now d] by (simp add: qinv_def live_def)

lemma handles_ok_record:
  assumes h: "handles_ok qs" and "\<And>ts. ts_timer (g ts) = ts_timer ts \<or>
      owned qs (ts_timer (g ts)) (FireFn r)"
    and "\<And>ts. ts_ttlTimer (g ts) = ts_ttlTimer ts \<or> owned qs (ts_ttlTimer (g ts)) (ExpireFn r)"
  shows "handles_ok (updCell r g qs)"
proof -
  have owned: "owned (updCell r g qs) x f = owned qs x f" for x f by (simp add: owned_def)
  show ?thesis
    unfolding handles_ok_def
  proof (intro allI impI)
    fix r' assume r': "r' < length (qs_cells (updCell r g qs))"
    then have hr: "owned qs (ts_timer (cell qs r')) (FireFn r')"
      "owned qs (ts_ttlTimer (cell qs r')) (ExpireFn r')"
      using h by (simp_all add: handles_ok_def)
    show "owned (updCell r g qs) (ts_timer (cell (updCell r g qs) r')) (FireFn r') \<and>
      owned (updCell r g qs) (ts_ttlTimer (cell (updCell r g qs) r')) (ExpireFn r')"
    proof (cases "r' = r")
      case True
      with r' hr assms(2) [of "cell qs r"] assms(3) [of "cell qs r"] show ?thesis
        by (auto simp: owned cell_updCell)
    next
      case False
      with r' hr show ?thesis by (simp add: owned cell_updCell)
    qed
  qed
qed

lemma owned_new: "owned (fst (afterFunc now d f qs)) (Some (qs_nextTid qs)) f"
  by (simp add: owned_def)

lemma qinv_arm:
  assumes inv: "qinv qs" and f: "fn_ok qs f"
    and set': "\<And>ts. ts_removed (set' ts) = ts_removed ts \<and> ts_t (set' ts) = ts_t ts"
    and kind: "(f = FireFn r \<and> (\<forall>ts. ts_timer (set' ts) = Some (qs_nextTid qs) \<and>
           ts_ttlTimer (set' ts) = ts_ttlTimer ts)) \<or>
         (f = ExpireFn r \<and> (\<forall>ts. ts_ttlTimer (set' ts) = Some (qs_nextTid qs) \<and>
           ts_timer (set' ts) = ts_timer ts))"
  shows "qinv (updCell r set' (fst (afterFunc now d f qs)))"
proof -
  let ?q = "fst (afterFunc now d f qs)"
  have q: "qinv ?q" using inv f by (rule qinv_afterFunc)
  have "handles_ok (updCell r set' ?q)"
    using q kind owned_new [of now d f qs]
    by (intro handles_ok_record) (auto simp: qinv_def qbase_def)
  moreover have "timers_ok (updCell r set' ?q)"
    using q by (simp add: qinv_def qbase_def timers_ok_def fn_ok_updCell set')
  moreover have "live (updCell r set' ?q) r' = live ?q r'" for r'
    by (auto simp: live_def cell_updCell set')
  moreover have "name_of (updCell r set' ?q) r' = name_of ?q r'" for r'
    by (simp add: cell_updCell set')
  ultimately show ?thesis
    using q by (simp add: qinv_def qbase_def chans_ok_def)
qed

section \<open>Every operation keeps the invariant\<close>

lemma cell_record [simp]:
  "cell (qs\<lparr>qs_tombstones := x1\<rparr>) r = cell qs r"
  "cell (qs\<lparr>qs_tasks := x2\<rparr>) r = cell qs r"
  "cell (qs\<lparr>qs_q := x3\<rparr>) r = cell qs r"
  "cell (qs\<lparr>qs_idSeq := x4\<rparr>) r = cell qs r"
  "cell (qs\<lparr>qs_limiter := x5, qs_concurrency := x6, qs_chans := x7\<rparr>) r = cell qs r"
  by (simp_all add: cell_def)

lemma fn_ok_record [simp]:
  "fn_ok (qs\<lparr>qs_tombstones := x1\<rparr>) f = fn_ok qs f"
  "fn_ok (qs\<lparr>qs_tasks := x2\<rparr>) f = fn_ok qs f"
  "fn_ok (qs\<lparr>qs_idSeq := x4\<rparr>) f = fn_ok qs f"
  "fn_ok (qs\<lparr>qs_limiter := x5, qs_concurrency := x6, qs_chans := x7\<rparr>) f = fn_ok qs f"
  "q_Pull x3 = q_Pull (qs_q qs) \<Longrightarrow> fn_ok (qs\<lparr>qs_q := x3\<rparr>) f = fn_ok qs f"
  by (simp_all add: fn_ok_def split: timerFunc.split)

lemmas qbase_defs = qbase_def timers_ok_def handles_ok_def owned_def chans_ok_def live_def

lemma qbase_tombstones: "qbase qs \<Longrightarrow> gwf x \<Longrightarrow> qbase (qs\<lparr>qs_tombstones := x\<rparr>)"
  by (simp add: qbase_defs)

lemma qinv_tombstones: "qinv qs \<Longrightarrow> gwf x \<Longrightarrow> qinv (qs\<lparr>qs_tombstones := x\<rparr>)"
  by (simp add: qinv_def qbase_tombstones live_def)

lemma qinv_idSeq: "qinv qs \<Longrightarrow> qinv (qs\<lparr>qs_idSeq := x\<rparr>)"
  by (simp add: qinv_def qbase_defs)

lemma qinv_setQ [inv_intros]: "qinv qs \<Longrightarrow> q_Pull q' = q_Pull (qs_q qs) \<Longrightarrow> qinv (qs\<lparr>qs_q := q'\<rparr>)"
  by (simp add: qinv_def qbase_defs)

lemma qinv_rebuildLimits [inv_intros]: "qinv qs \<Longrightarrow> qinv (rebuildLimits qs)"
  by (auto simp: rebuildLimits_def Let_def qinv_def qbase_defs)

lemma qinv_newQueueState [inv_intros]: "qinv (newQueueState q)"
proof -
  have "qinv (rebuildLimits qs)" if "qs_tasks qs = []" "qs_tombstones qs = []" "qs_cells qs = []"
    "qs_timers qs = []" "qs_chans qs = []" for qs
    using that by (auto simp: rebuildLimits_def Let_def qinv_def qbase_defs)
  then show ?thesis by (simp add: newQueueState_def)
qed

lemma schedule_unfold:
  "schedule now r qs =
     (if ts_removed (cell qs r) \<or> q_Pull (qs_q qs) \<or> tg_Type (t_Target (task_of qs r)) = TargetPull
      then qs
      else updCell r (\<lambda>ts. ts\<lparr>ts_timer := Some (qs_nextTid qs)\<rparr>)
        (fst (afterFunc now (max 0 (timeSub (t_ScheduleTime (task_of qs r)) now)) (FireFn r) qs)))"
  by (simp add: schedule_def Let_def split_beta max_def)

lemma qinv_schedule [inv_intros]:
  "qinv qs \<Longrightarrow> r < length (qs_cells qs) \<Longrightarrow> qinv (schedule now r qs)"
  by (auto simp: schedule_unfold fn_ok_def intro!: qinv_arm)

lemma fire_unfold:
  "fire now r qs =
     (if ts_removed (cell qs r) then (qs, FireReturn)
      else if q_State (qs_q qs) = StatePaused \<or> q_State (qs_q qs) = StateDisabled
      then (updCell r (\<lambda>ts. ts\<lparr>ts_timer := Some (qs_nextTid qs)\<rparr>)
              (fst (afterFunc now pausePollInterval (FireFn r) qs)), FireHeld)
      else (qs, FireGo (qs_limiter qs) (qs_concurrency qs)))"
  by (simp add: fire_def Let_def split_beta)

lemma qinv_fire [inv_intros]:
  "qinv qs \<Longrightarrow> fn_ok qs (FireFn r) \<Longrightarrow> qinv (fst (fire now r qs))"
  by (auto simp: fire_unfold intro!: qinv_arm)

lemma tombstoneLocked_frame [simp]:
  "qs_q (tombstoneLocked eng now n qs) = qs_q qs"
  "qs_tasks (tombstoneLocked eng now n qs) = qs_tasks qs"
  "qs_cells (tombstoneLocked eng now n qs) = qs_cells qs"
  "qs_chans (tombstoneLocked eng now n qs) = qs_chans qs"
  "qs_concurrency (tombstoneLocked eng now n qs) = qs_concurrency qs"
  "qs_limiter (tombstoneLocked eng now n qs) = qs_limiter qs"
  "qs_idSeq (tombstoneLocked eng now n qs) = qs_idSeq qs"
  "cell (tombstoneLocked eng now n qs) r = cell qs r"
  by (simp_all add: tombstoneLocked_def Let_def cell_def)

lemma qs_tombstones_tombstoneLocked:
  "qs_tombstones (tombstoneLocked eng now n qs) =
     (if effectiveTombstoneTTL eng qs < 0 then qs_tombstones qs
      else gset n (now + effectiveTombstoneTTL eng qs) (qs_tombstones qs))"
  by (simp add: tombstoneLocked_def Let_def)

lemma qbase_gwf_tombstones: "qbase qs \<Longrightarrow> gwf (qs_tombstones qs)"
  by (simp add: qbase_def)

lemma qbase_tombstoneLocked: "qbase qs \<Longrightarrow> qbase (tombstoneLocked eng now n qs)"
  by (simp add: tombstoneLocked_def Let_def qbase_afterFunc qbase_tombstones fn_ok_def gm.wf_set
      qbase_gwf_tombstones)

lemma live_tombstoneLocked [simp]: "live (tombstoneLocked eng now n qs) r = live qs r"
  by (simp add: live_def)

lemma qinv_tombstoneLocked: "qinv qs \<Longrightarrow> qinv (tombstoneLocked eng now n qs)"
  by (simp add: qinv_def qbase_tombstoneLocked)

lemma qinv_qbase: "qinv qs \<Longrightarrow> qbase qs"
  by (simp add: qinv_def)

lemma qinv_tombstoneExpire [inv_intros]: "qinv qs \<Longrightarrow> qinv (tombstoneExpire now n qs)"
  by (simp add: tombstoneExpire_def qinv_tombstones gm.wf_del qbase_gwf_tombstones qinv_qbase
      split: option.split)

text \<open>Retiring a task: the cell is marked, its timers are gone, everything else stays.\<close>

lemma retire_frame [simp]:
  "qs_q (retire r qs) = qs_q qs"
  "qs_tasks (retire r qs) = qs_tasks qs"
  "qs_tombstones (retire r qs) = qs_tombstones qs"
  "qs_limiter (retire r qs) = qs_limiter qs"
  "qs_concurrency (retire r qs) = qs_concurrency qs"
  "qs_idSeq (retire r qs) = qs_idSeq qs"
  "qs_chans (retire r qs) = qs_chans qs"
  "qs_nextTid (retire r qs) = qs_nextTid qs"
  "length (qs_cells (retire r qs)) = length (qs_cells qs)"
  by (simp_all add: retire_def Let_def)

lemma cell_retire:
  "cell (retire r qs) r' =
     (if r' = r \<and> r < length (qs_cells qs) then (cell qs r)\<lparr>ts_removed := True\<rparr> else cell qs r')"
  by (simp add: retire_def Let_def cell_updCell)

lemma task_of_retire [simp]: "task_of (retire r qs) r' = task_of qs r'"
  by (simp add: cell_retire)

lemma live_retire [simp]: "live (retire r qs) r' \<longleftrightarrow> live qs r' \<and> r' \<noteq> r"
  by (auto simp: live_def cell_retire)

lemma qbase_retire: "qbase qs \<Longrightarrow> qbase (retire r qs)"
  by (simp add: retire_def Let_def qbase_stopTimer qbase_updCell same_identity_def)

text \<open>Deleting the entry of a retired task restores the exact correspondence.\<close>

lemma qinv_forget:
  assumes inv: "qinv qs" and r: "live qs r"
  shows "qinv ((retire r qs)\<lparr>qs_tasks := gdel (name_of qs r) (qs_tasks qs)\<rparr>)" (is "qinv ?q")
proof -
  let ?s = "retire r qs" and ?n = "name_of qs r"
  have base: "qbase ?s" using inv by (intro qbase_retire qinv_qbase)
  have tasks: "gget (gdel ?n (qs_tasks qs)) m = Some r' \<longleftrightarrow>
      gget (qs_tasks qs) m = Some r' \<and> m \<noteq> ?n" for m r'
    by (auto simp: gm.get_del)
  have entry: "gget (qs_tasks qs) m = Some r' \<Longrightarrow> live qs r' \<and> name_of qs r' = m" for m r'
    using inv by (rule qinv_lookup)
  have live: "live ?q r' \<longleftrightarrow> live qs r' \<and> r' \<noteq> r" for r'
    using live_retire [of r qs r'] by (simp add: live_def)
  have other: "live qs r' \<Longrightarrow> r' \<noteq> r \<Longrightarrow> name_of qs r' \<noteq> ?n" for r'
    using qinv_live [OF inv r] qinv_live [OF inv, of r'] by force
  have "gwf (gdel ?n (qs_tasks qs))" using inv by (simp add: qinv_def qbase_def gm.wf_del)
  moreover have "timers_ok ?q" "handles_ok ?q" "chans_ok ?q" "gwf (qs_tombstones qs)"
    using base by (simp_all add: qbase_defs)
  moreover have "live qs r' \<Longrightarrow> r' < length (qs_cells qs)" for r' by (simp add: live_def)
  moreover have "live qs r' \<Longrightarrow> gget (qs_tasks qs) (name_of qs r') = Some r'" for r'
    using inv by (rule qinv_live)
  ultimately show ?thesis
    unfolding qinv_def qbase_def live using tasks entry other by auto
qed

lemma qinv_removeLocked [inv_intros]:
  assumes "qinv qs" and "live qs r"
  shows "qinv (removeLocked eng now r qs)"
  using qinv_forget [OF assms] by (simp add: removeLocked_def Let_def qinv_tombstoneLocked)

lemma qinv_expire [inv_intros]:
  "qinv qs \<Longrightarrow> r < length (qs_cells qs) \<Longrightarrow> qinv (expire eng now r qs)"
  by (auto simp: expire_def live_def intro: qinv_removeLocked)

text \<open>
  \<^verbatim>\<open>purge\<close> and \<^verbatim>\<open>stop\<close> run a step over every task of the map. What such a step must do, and what
  the whole loop then does.
\<close>

definition retiring :: "tref set \<Rightarrow> queueState \<Rightarrow> queueState \<Rightarrow> bool" where
  "retiring R s s' \<longleftrightarrow> qbase s' \<and> qs_tasks s' = qs_tasks s \<and> qs_q s' = qs_q s \<and>
     qs_concurrency s' = qs_concurrency s \<and> qs_chans s' = qs_chans s \<and>
     length (qs_cells s') = length (qs_cells s) \<and>
     (\<forall>r. task_of s' r = task_of s r) \<and> (\<forall>r. live s' r \<longleftrightarrow> live s r \<and> r \<notin> R)"

lemma fold_retiring:
  assumes step: "\<And>r s. qbase s \<Longrightarrow> retiring {r} s (g r s)"
  shows "qbase s \<Longrightarrow> retiring (set rs) s (fold g rs s)"
proof (induction rs arbitrary: s)
  case Nil
  then show ?case by (simp add: retiring_def)
next
  case (Cons r rs)
  note one = step [OF Cons.prems, of r]
  then have "retiring (set rs) (g r s) (fold g rs (g r s))"
    by (intro Cons.IH) (simp add: retiring_def)
  with one show ?case by (auto simp: retiring_def)
qed

lemma retiring_retire: "qbase s \<Longrightarrow> retiring {r} s (retire r s)"
  by (simp add: retiring_def qbase_retire)

lemma retiring_purgeOne: "qbase s \<Longrightarrow> retiring {r} s (purgeOne eng now r s)"
  by (simp add: retiring_def purgeOne_def qbase_retire qbase_tombstoneLocked)

lemma all_live_listed: "qinv qs \<Longrightarrow> live qs r \<Longrightarrow> r \<in> snd ` set (qs_tasks qs)"
  using qinv_live [THEN gget_SomeD] by (metis image_eqI snd_conv)

lemma qinv_emptied:
  assumes "qinv qs" and "retiring (snd ` set (qs_tasks qs)) qs s"
  shows "qinv (s\<lparr>qs_tasks := []\<rparr>)" and "\<not> live (s\<lparr>qs_tasks := []\<rparr>) r"
proof -
  have none: "\<not> live s r'" for r'
    using assms all_live_listed [OF assms(1)] by (auto simp: retiring_def)
  then show "\<not> live (s\<lparr>qs_tasks := []\<rparr>) r" by (simp add: live_def)
  show "qinv (s\<lparr>qs_tasks := []\<rparr>)"
  proof -
    have "qbase s" using assms(2) by (simp add: retiring_def)
    then show ?thesis using none by (simp add: qinv_def qbase_defs)
  qed
qed

lemma retiring_stop: "qbase qs \<Longrightarrow> retiring (snd ` set (qs_tasks qs)) qs (fold retire (map snd (qs_tasks qs)) qs)"
  using fold_retiring [of retire qs "map snd (qs_tasks qs)", OF retiring_retire] by simp

lemma retiring_purge:
  "qbase qs \<Longrightarrow>
     retiring (snd ` set (qs_tasks qs)) qs (fold (purgeOne eng now) (map snd (qs_tasks qs)) qs)"
  using fold_retiring [of "purgeOne eng now" qs "map snd (qs_tasks qs)", OF retiring_purgeOne] by simp

lemma qinv_stop [inv_intros]: "qinv qs \<Longrightarrow> qinv (stop qs)"
  unfolding stop_def by (rule qinv_emptied(1)) (auto intro: retiring_stop qinv_qbase)

lemma qinv_purge [inv_intros]: "qinv qs \<Longrightarrow> qinv (purge eng now qs)"
  using qinv_emptied(1) [OF _ retiring_purge, of qs eng now]
  by (simp add: purge_def Let_def qinv_qbase qinv_tombstones qinv_setQ)

lemma qinv_addNewTask [inv_intros]:
  assumes inv: "qinv qs" and fresh: "gget (qs_tasks qs) (t_Name t) = None"
  shows "qinv (addNewTask eng now t qs)"
proof -
  let ?r = "length (qs_cells qs)"
  let ?q = "qs\<lparr>qs_cells := qs_cells qs @ [newTaskState t], qs_tasks := gset (t_Name t) ?r (qs_tasks qs)\<rparr>"
  let ?d = "effectiveTaskTTL eng ?q" and ?set = "\<lambda>ts. ts\<lparr>ts_ttlTimer := Some (qs_nextTid qs)\<rparr>"
  have old: "r < ?r \<Longrightarrow> cell ?q r = cell qs r" for r by (simp add: cell_def nth_append)
  have new: "cell ?q ?r = newTaskState t" by (simp add: cell_def)
  have fn: "fn_ok qs f \<Longrightarrow> fn_ok ?q f" for f
    using old by (auto simp: fn_ok_def split: timerFunc.splits)
  have lv: "live ?q r \<longleftrightarrow> live qs r \<or> r = ?r" for r
    using old new by (auto simp: live_def less_Suc_eq newTaskState_def)
  have lookup: "gget (gset (t_Name t) ?r (qs_tasks qs)) n = Some r \<longleftrightarrow>
      (n = t_Name t \<and> r = ?r) \<or> gget (qs_tasks qs) n = Some r" for n r
    using fresh by (auto simp: gm.get_set)
  have base: "qbase qs" using inv by (rule qinv_qbase)
  have own: "owned ?q h f = owned qs h f" for h f by (simp add: owned_def)
  have "timers_ok ?q" using base fn by (auto simp: qbase_def timers_ok_def)
  moreover have "handles_ok ?q"
    unfolding handles_ok_def own
    using base old new
    by (simp add: qbase_def handles_ok_def less_Suc_eq) (simp add: newTaskState_def owned_def)
  moreover have "chans_ok ?q" "gwf (qs_tombstones ?q)" "gwf (qs_tasks ?q)"
    using base by (simp_all add: qbase_def chans_ok_def gm.wf_set)
  moreover have "gget (qs_tasks ?q) n = Some r \<Longrightarrow>
      live ?q r \<and> r < length (qs_cells ?q) \<and> name_of ?q r = n" for n r
    using lookup [of n r] qinv_lookup [OF inv, of n r] lv [of r] old [of r] new
    by (auto simp: live_def newTaskState_def)
  moreover have "live ?q r \<Longrightarrow> gget (qs_tasks ?q) (name_of ?q r) = Some r" for r
    using lookup qinv_live [OF inv, of r] lv [of r] old [of r] new
    by (auto simp: live_def newTaskState_def)
  ultimately have "qinv ?q"
    by (simp only: qinv_def qbase_def) blast
  then have "qinv (updCell ?r ?set (fst (afterFunc now ?d (ExpireFn ?r) ?q)))"
    by (intro qinv_arm) (auto simp: fn_ok_def)
  then have "qinv (schedule now ?r (updCell ?r ?set (fst (afterFunc now ?d (ExpireFn ?r) ?q))))"
    by (rule qinv_schedule) simp
  moreover have "cell (qs\<lparr>qs_cells := qs_cells qs @ [newTaskState t]\<rparr>) ?r = newTaskState t"
    by (simp add: cell_def)
  ultimately show ?thesis
    by (simp add: addNewTask_def addTask_def Let_def split_beta newTaskState_def)
qed

lemma nextTaskID_frame [simp]:
  "qs_tasks (fst (nextTaskID now qs)) = qs_tasks qs" "qs_q (fst (nextTaskID now qs)) = qs_q qs"
  "qs_tombstones (fst (nextTaskID now qs)) = qs_tombstones qs"
  "cell (fst (nextTaskID now qs)) r = cell qs r"
  "qs_cells (fst (nextTaskID now qs)) = qs_cells qs" "qs_chans (fst (nextTaskID now qs)) = qs_chans qs"
  "qs_timers (fst (nextTaskID now qs)) = qs_timers qs" "qs_limiter (fst (nextTaskID now qs)) = qs_limiter qs"
  "qs_concurrency (fst (nextTaskID now qs)) = qs_concurrency qs"
  by (simp_all add: nextTaskID_def Let_def)

lemma qinv_nextTaskID [inv_intros]: "qinv qs \<Longrightarrow> qinv (fst (nextTaskID now qs))"
  by (simp add: nextTaskID_def Let_def qinv_idSeq)

lemma recordAttempt_identity:
  "same_identity ts (recordAttempt att dt hc ts)"
  "ts_removed (recordAttempt att dt hc ts) = ts_removed ts"
  by (simp_all add: recordAttempt_def Let_def same_identity_def)

text \<open>The states an attempt's result goes through before the task is removed or rescheduled.\<close>

definition recorded :: "tref \<Rightarrow> Attempt \<Rightarrow> time \<Rightarrow> int \<Rightarrow> queueState \<Rightarrow> queueState" where
  "recorded r att dt hc qs = updCell r (recordAttempt att dt hc) qs"

definition reasoned :: "tref \<Rightarrow> int \<Rightarrow> string \<Rightarrow> queueState \<Rightarrow> queueState" where
  "reasoned r hc msg qs = updCell r (\<lambda>ts. ts\<lparr>ts_lastRetryReason := retryReason hc msg\<rparr>) qs"

definition postponed :: "(int option \<Rightarrow> int64) \<Rightarrow> time \<Rightarrow> tref \<Rightarrow> queueState \<Rightarrow> queueState" where
  "postponed oob now r qs = updCell r (\<lambda>ts. ts\<lparr>ts_t := (ts_t ts)\<lparr>t_ScheduleTime :=
      now + backoff oob (q_RetryConfig (qs_q qs)) (t_DispatchCount (ts_t ts))\<rparr>\<rparr>) qs"

lemma applyAttempt_unfold:
  "applyAttempt oob eng now r att dt rc hc msg qs =
     (if ts_removed (cell qs r) then qs
      else if rc = 0 then removeLocked eng now r (recorded r att dt hc qs)
      else let q2 = reasoned r hc msg (recorded r att dt hc qs) in
        if shouldRetry now (q_RetryConfig (qs_q qs)) (task_of q2 r) (cell q2 r)
        then schedule now r (postponed oob now r q2)
        else removeLocked eng now r q2)"
  by (simp add: applyAttempt_def recorded_def reasoned_def postponed_def Let_def)

lemma qinv_recorded: "qinv qs \<Longrightarrow> qinv (recorded r att dt hc qs)"
  by (simp add: recorded_def qinv_updCell recordAttempt_identity)

lemma qinv_reasoned: "qinv qs \<Longrightarrow> qinv (reasoned r hc msg qs)"
  by (simp add: reasoned_def qinv_updCell same_identity_def)

lemma qinv_postponed: "qinv qs \<Longrightarrow> qinv (postponed oob now r qs)"
  by (simp add: postponed_def qinv_updCell same_identity_def)

lemma attempt_states_live [simp]:
  "live (recorded r att dt hc qs) r' = live qs r'"
  "live (reasoned r hc msg qs) r' = live qs r'"
  "live (postponed oob now r qs) r' = live qs r'"
  by (auto simp: live_def recorded_def reasoned_def postponed_def cell_updCell recordAttempt_identity)

lemma attempt_states_frame [simp]:
  "length (qs_cells (recorded r att dt hc qs)) = length (qs_cells qs)"
  "length (qs_cells (reasoned r hc msg qs)) = length (qs_cells qs)"
  "length (qs_cells (postponed oob now r qs)) = length (qs_cells qs)"
  "qs_q (recorded r att dt hc qs) = qs_q qs"
  "qs_q (reasoned r hc msg qs) = qs_q qs"
  "qs_q (postponed oob now r qs) = qs_q qs"
  by (simp_all add: recorded_def reasoned_def postponed_def)

lemma qinv_applyAttempt [inv_intros]:
  assumes inv: "qinv qs" and r: "r < length (qs_cells qs)"
  shows "qinv (applyAttempt oob eng now r att dt rc hc msg qs)"
proof (cases "ts_removed (cell qs r)")
  case True
  with inv show ?thesis by (simp add: applyAttempt_unfold)
next
  case False
  with r have "live qs r" by (simp add: live_def)
  with False assms show ?thesis
    by (simp add: applyAttempt_unfold Let_def qinv_removeLocked qinv_schedule qinv_recorded
        qinv_reasoned qinv_postponed)
qed

end
