(* ===== verification/Retry.thy ===== *)
theory Retry
  imports Queue_Inv
begin

text \<open>
  The retry policy of \<^verbatim>\<open>core/queue.go\<close>: the backoff formula and its bounds, when a failed task is
  retried, what one attempt does to a task on every branch, and that a task that keeps
  failing is dropped after exactly \<^verbatim>\<open>max_attempts\<close> attempts.
\<close>

section \<open>Backoff\<close>

lemma toFloat_small: "abs x < 2 ^ 53 \<Longrightarrow> toFloat x = x"
proof -
  assume "abs x < 2 ^ 53"
  then have "bitlen (abs x) \<le> 53" by (simp add: bitlen_le_iff_power)
  then show ?thesis by (simp add: toFloat_def Let_def)
qed

lemma in_int64I: "0 \<le> x \<Longrightarrow> x < 2 ^ 63 \<Longrightarrow> in_int64 x"
  by (simp add: in_int64_def)

lemma scaled_exact:
  assumes "0 < minB" and "minB < 2 ^ 53" and "0 \<le> k" and "minB * 2 ^ nat k < 2 ^ 63"
  shows "scaled oob minB k = minB * 2 ^ nat k"
proof -
  have m: "toFloat minB = minB" using assms by (intro toFloat_small) simp
  have "0 \<le> minB * 2 ^ nat k" using assms(1) by simp
  then have "in_int64 (minB * 2 ^ nat k)" using assms(4) by (rule in_int64I)
  then show ?thesis using assms m by (simp add: scaled_def Let_def)
qed

text \<open>The delay before it is clamped.\<close>

definition backoffRaw :: "(int option \<Rightarrow> int64) \<Rightarrow> RetryConfig \<Rightarrow> int32 \<Rightarrow> int64" where
  "backoffRaw oob rc n =
     (let d = wrap32 (n - 1); D = rc_MaxDoublings rc
      in if d > D then wrap64 (scaled oob (rc_MinBackoff rc) D
                         + wrap64 (wrap32 (d - D) * scaled oob (rc_MinBackoff rc) D))
         else scaled oob (rc_MinBackoff rc) d)"

lemma backoff_clamps:
  "backoff oob rc n =
     (if backoffRaw oob rc n > rc_MaxBackoff rc \<or> backoffRaw oob rc n < 0 then rc_MaxBackoff rc
      else backoffRaw oob rc n)"
  by (simp add: backoff_def backoffRaw_def Let_def)

lemma backoff_min: "0 \<le> backoffRaw oob rc n \<Longrightarrow> backoff oob rc n = min (rc_MaxBackoff rc) (backoffRaw oob rc n)"
  by (simp add: backoff_clamps min_def)

definition backoffFormula :: "RetryConfig \<Rightarrow> int \<Rightarrow> duration" where
  "backoffFormula rc n =
     min (rc_MaxBackoff rc)
       (if n - 1 \<le> rc_MaxDoublings rc then rc_MinBackoff rc * 2 ^ nat (n - 1)
        else rc_MinBackoff rc * 2 ^ nat (rc_MaxDoublings rc) * (n - rc_MaxDoublings rc))"

lemma backoff_doubling:
  assumes "0 < rc_MinBackoff rc" "rc_MinBackoff rc < 2 ^ 53" "0 \<le> rc_MaxBackoff rc"
    and "1 \<le> n" "in_int32 n" "n - 1 \<le> rc_MaxDoublings rc"
    and "rc_MinBackoff rc * 2 ^ nat (n - 1) < 2 ^ 63"
  shows "backoff oob rc n = min (rc_MaxBackoff rc) (rc_MinBackoff rc * 2 ^ nat (n - 1))"
proof -
  have w: "wrap32 (n - 1) = n - 1" using assms by (intro wrap32_id) (simp add: in_int32_def)
  have "scaled oob (rc_MinBackoff rc) (n - 1) = rc_MinBackoff rc * 2 ^ nat (n - 1)"
    using assms by (intro scaled_exact) auto
  then have raw: "backoffRaw oob rc n = rc_MinBackoff rc * 2 ^ nat (n - 1)"
    using assms w by (simp add: backoffRaw_def Let_def)
  moreover have "0 \<le> rc_MinBackoff rc * 2 ^ nat (n - 1)" using assms(1) by simp
  ultimately show ?thesis by (metis backoff_min)
qed

lemma backoff_linear:
  assumes "0 < rc_MinBackoff rc" "rc_MinBackoff rc < 2 ^ 53" "0 \<le> rc_MaxBackoff rc"
    and "1 \<le> n" "in_int32 n" "0 \<le> rc_MaxDoublings rc" "rc_MaxDoublings rc < n - 1"
    and "rc_MinBackoff rc * 2 ^ nat (rc_MaxDoublings rc) * (n - rc_MaxDoublings rc) < 2 ^ 63"
  shows "backoff oob rc n =
    min (rc_MaxBackoff rc) (rc_MinBackoff rc * 2 ^ nat (rc_MaxDoublings rc) * (n - rc_MaxDoublings rc))"
proof -
  let ?D = "rc_MaxDoublings rc" and ?m = "rc_MinBackoff rc"
  let ?s = "?m * 2 ^ nat ?D" and ?k = "n - 1 - rc_MaxDoublings rc"
  have w: "wrap32 (n - 1) = n - 1" "wrap32 (n - 1 - ?D) = ?k"
    using assms by (auto intro!: wrap32_id simp: in_int32_def)
  have spos: "0 < ?s" using assms(1) by simp
  have kpos: "0 < ?k" using assms by linarith
  have total: "?s + ?k * ?s = ?s * (n - ?D)" by (simp add: algebra_simps)
  have ks: "0 \<le> ?k * ?s" using spos kpos by (meson less_imp_le mult_nonneg_nonneg)
  have bound: "?s + ?k * ?s < 2 ^ 63" using assms(8) total by simp
  have "?s < 2 ^ 63" using bound ks by linarith
  then have sc: "scaled oob ?m ?D = ?s" using assms by (intro scaled_exact) auto
  have "wrap64 (?k * ?s) = ?k * ?s" "wrap64 (?s + ?k * ?s) = ?s + ?k * ?s"
    using ks spos bound by (auto intro!: wrap64_id simp: in_int64_def)
  then have raw: "backoffRaw oob rc n = ?s + ?k * ?s"
    using assms w sc by (simp add: backoffRaw_def Let_def)
  have "0 \<le> ?s + ?k * ?s" using ks spos by linarith
  then show ?thesis by (metis backoff_min raw total)
qed

section \<open>What an attempt does\<close>

lemma recordAttempt_counts:
  "t_DispatchCount (ts_t (recordAttempt att dt hc ts)) = wrap32 (t_DispatchCount (ts_t ts) + 1)"
  "t_ResponseCount (ts_t (recordAttempt att dt hc ts)) =
     (if hc \<noteq> 0 then wrap32 (t_ResponseCount (ts_t ts) + 1) else t_ResponseCount (ts_t ts))"
  "ts_executionCount (recordAttempt att dt hc ts) =
     (if hc \<noteq> 0 \<and> hc < 500 then wrap32 (ts_executionCount ts + 1) else ts_executionCount ts)"
  "t_LastAttempt (ts_t (recordAttempt att dt hc ts)) = Some att"
  "ts_lastHTTPCode (recordAttempt att dt hc ts) = hc"
  "ts_firstAttemptTime (recordAttempt att dt hc ts) =
     (if t_FirstAttempt (ts_t ts) = None then dt else ts_firstAttemptTime ts)"
  "t_FirstAttempt (ts_t (recordAttempt att dt hc ts)) \<noteq> None"
  by (auto simp: recordAttempt_def Let_def)

lemma recordAttempt_name [simp]: "t_Name (ts_t (recordAttempt att dt hc ts)) = t_Name (ts_t ts)"
  using recordAttempt_identity(1) [of ts att dt hc] by (simp add: same_identity_def)

lemma schedule_frame [simp]:
  "qs_q (schedule now r qs) = qs_q qs"
  "qs_tasks (schedule now r qs) = qs_tasks qs"
  "qs_tombstones (schedule now r qs) = qs_tombstones qs"
  "qs_chans (schedule now r qs) = qs_chans qs"
  "qs_concurrency (schedule now r qs) = qs_concurrency qs"
  "length (qs_cells (schedule now r qs)) = length (qs_cells qs)"
  "task_of (schedule now r qs) r' = task_of qs r'"
  "ts_removed (cell (schedule now r qs) r') = ts_removed (cell qs r')"
  "ts_executionCount (cell (schedule now r qs) r') = ts_executionCount (cell qs r')"
  "ts_firstAttemptTime (cell (schedule now r qs) r') = ts_firstAttemptTime (cell qs r')"
  "ts_lastHTTPCode (cell (schedule now r qs) r') = ts_lastHTTPCode (cell qs r')"
  "ts_lastRetryReason (cell (schedule now r qs) r') = ts_lastRetryReason (cell qs r')"
  by (auto simp: schedule_unfold cell_updCell)


lemma removeLocked_frame [simp]:
  "qs_q (removeLocked eng now r qs) = qs_q qs"
  "qs_tasks (removeLocked eng now r qs) = gdel (name_of qs r) (qs_tasks qs)"
  "qs_chans (removeLocked eng now r qs) = qs_chans qs"
  "qs_concurrency (removeLocked eng now r qs) = qs_concurrency qs"
  "length (qs_cells (removeLocked eng now r qs)) = length (qs_cells qs)"
  "task_of (removeLocked eng now r qs) r' = task_of qs r'"
  by (simp_all add: removeLocked_def Let_def)

lemma live_removeLocked [simp]: "live (removeLocked eng now r qs) r' \<longleftrightarrow> live qs r' \<and> r' \<noteq> r"
  using live_retire [of r qs r'] by (simp add: removeLocked_def Let_def live_def)

lemma effectiveTombstoneTTL_cong:
  "qs_q qs' = qs_q qs \<Longrightarrow> effectiveTombstoneTTL eng qs' = effectiveTombstoneTTL eng qs"
  by (simp add: effectiveTombstoneTTL_def)

lemma removeLocked_tombstones:
  "gget (qs_tombstones (removeLocked eng now r qs)) n =
     (if n = name_of qs r \<and> effectiveTombstoneTTL eng qs \<ge> 0
      then Some (now + effectiveTombstoneTTL eng qs) else gget (qs_tombstones qs) n)"
  by (auto simp: removeLocked_def Let_def qs_tombstones_tombstoneLocked gm.get_set
      effectiveTombstoneTTL_def)

lemma cell_reasoned [simp]: "r < length (qs_cells qs) \<Longrightarrow>
    cell (reasoned r hc msg qs) r = (cell qs r)\<lparr>ts_lastRetryReason := retryReason hc msg\<rparr>"
  by (simp add: reasoned_def)

lemma cell_recorded [simp]: "r < length (qs_cells qs) \<Longrightarrow>
    cell (recorded r att dt hc qs) r = recordAttempt att dt hc (cell qs r)"
  by (simp add: recorded_def)

lemma cell_postponed [simp]: "r < length (qs_cells qs) \<Longrightarrow>
    cell (postponed oob now r qs) r = (cell qs r)\<lparr>ts_t := (task_of qs r)\<lparr>t_ScheduleTime :=
      now + backoff oob (q_RetryConfig (qs_q qs)) (t_DispatchCount (task_of qs r))\<rparr>\<rparr>"
  by (simp add: postponed_def)

lemma shouldRetry_cong:
  "t_DispatchCount t = t_DispatchCount t' \<Longrightarrow> ts_firstAttemptTime ts = ts_firstAttemptTime ts' \<Longrightarrow>
     shouldRetry now rc t ts = shouldRetry now rc t' ts'"
  by (simp add: shouldRetry_def Let_def)

lemma shouldRetry_reasoned [simp]: "shouldRetry now rc t (ts\<lparr>ts_lastRetryReason := x\<rparr>) = shouldRetry now rc t ts"
  by (rule shouldRetry_cong) simp_all

text \<open>The state after a failed attempt that is retried.\<close>

lemma applyAttempt_retry:
  assumes "live qs r" "rpcCode \<noteq> 0"
    and "shouldRetry now (q_RetryConfig (qs_q qs))
      (ts_t (recordAttempt att dt hc (cell qs r))) (recordAttempt att dt hc (cell qs r))"
  shows "applyAttempt oob eng now r att dt rpcCode hc msg qs =
    schedule now r (postponed oob now r (reasoned r hc msg (recorded r att dt hc qs)))"
  using assms by (simp add: applyAttempt_unfold Let_def live_def)

lemma applyAttempt_drop:
  assumes "live qs r" "rpcCode \<noteq> 0"
    and "\<not> shouldRetry now (q_RetryConfig (qs_q qs))
      (ts_t (recordAttempt att dt hc (cell qs r))) (recordAttempt att dt hc (cell qs r))"
  shows "applyAttempt oob eng now r att dt rpcCode hc msg qs =
    removeLocked eng now r (reasoned r hc msg (recorded r att dt hc qs))"
  using assms by (simp add: applyAttempt_unfold Let_def live_def)


lemma name_of_states [simp]:
  "name_of (reasoned r hc msg qs) r' = name_of qs r'"
  "name_of (recorded r att dt hc qs) r' = name_of qs r'"
  "tg_Type (t_Target (task_of (reasoned r hc msg qs) r')) = tg_Type (t_Target (task_of qs r'))"
  "tg_Type (t_Target (task_of (recorded r att dt hc qs) r')) = tg_Type (t_Target (task_of qs r'))"
  using recordAttempt_identity(1) [of "cell qs r" att dt hc]
  by (auto simp: reasoned_def recorded_def cell_updCell same_identity_def)

section \<open>A task that keeps failing\<close>

text \<open>The outcome of one attempt, as \<^verbatim>\<open>applyAttempt\<close> receives it, and a sequence of them.\<close>

record outcome =
  oc_now :: time
  oc_att :: Attempt
  oc_dispatchTime :: time
  oc_rpcCode :: int32
  oc_httpCode :: int
  oc_message :: string

fun applyAttempts ::
  "(int option \<Rightarrow> int64) \<Rightarrow> EngineConf \<Rightarrow> tref \<Rightarrow> outcome list \<Rightarrow> queueState \<Rightarrow> queueState" where
  "applyAttempts oob eng r [] qs = qs"
| "applyAttempts oob eng r (oc # ocs) qs =
     applyAttempts oob eng r ocs
       (applyAttempt oob eng (oc_now oc) r (oc_att oc) (oc_dispatchTime oc) (oc_rpcCode oc)
          (oc_httpCode oc) (oc_message oc) qs)"

lemma applyAttempt_removed: "ts_removed (cell qs r) \<Longrightarrow> applyAttempt oob eng now r att dt rc hc msg qs = qs"
  by (simp add: applyAttempt_def)

lemma applyAttempts_removed: "ts_removed (cell qs r) \<Longrightarrow> applyAttempts oob eng r ocs qs = qs"
  by (induction ocs) (simp_all add: applyAttempt_removed)

lemma live_schedule [simp]: "live (schedule now r qs) r' = live qs r'"
  by (simp add: live_def)

text \<open>With an attempt limit and no duration limit, one more failure counts up or drops the task.\<close>

lemma applyAttempt_failure_step:
  fixes oc :: outcome and oob :: "int option \<Rightarrow> int64" and eng :: EngineConf
  assumes lv: "live qs r" and fails: "oc_rpcCode oc \<noteq> 0"
    and lim: "rc_MaxAttempts (q_RetryConfig (qs_q qs)) = int m" "rc_MaxRetryDuration (q_RetryConfig (qs_q qs)) \<le> 0"
    and k: "t_DispatchCount (task_of qs r) = int k" "k < m" "int m < 2 ^ 31"
  defines "qs' \<equiv> applyAttempt oob eng (oc_now oc) r (oc_att oc) (oc_dispatchTime oc) (oc_rpcCode oc)
      (oc_httpCode oc) (oc_message oc) qs"
  shows "qs_q qs' = qs_q qs" and "length (qs_cells qs') = length (qs_cells qs)"
    and "t_DispatchCount (task_of qs' r) = int (Suc k)" and "live qs' r \<longleftrightarrow> Suc k < m"
proof -
  let ?ts = "recordAttempt (oc_att oc) (oc_dispatchTime oc) (oc_httpCode oc) (cell qs r)"
  have r: "r < length (qs_cells qs)" using lv by (simp add: live_def)
  have cnt: "t_DispatchCount (ts_t ?ts) = int (Suc k)"
    using k by (simp add: recordAttempt_counts wrap32_id in_int32_def)
  have retry: "shouldRetry (oc_now oc) (q_RetryConfig (qs_q qs)) (ts_t ?ts) ?ts \<longleftrightarrow> Suc k < m"
    using lim cnt by (auto simp: shouldRetry_def)
  have "qs_q qs' = qs_q qs \<and> length (qs_cells qs') = length (qs_cells qs) \<and>
      t_DispatchCount (task_of qs' r) = int (Suc k) \<and> (live qs' r \<longleftrightarrow> Suc k < m)"
  proof (cases "Suc k < m")
    case True
    with retry have "shouldRetry (oc_now oc) (q_RetryConfig (qs_q qs)) (ts_t ?ts) ?ts" by simp
    from applyAttempt_retry [OF lv fails this] show ?thesis
      using True cnt r lv by (simp add: qs'_def)
  next
    case False
    with retry have "\<not> shouldRetry (oc_now oc) (q_RetryConfig (qs_q qs)) (ts_t ?ts) ?ts" by simp
    from applyAttempt_drop [OF lv fails this] show ?thesis
      using False cnt r by (simp add: qs'_def)
  qed
  then show "qs_q qs' = qs_q qs" "length (qs_cells qs') = length (qs_cells qs)"
    "t_DispatchCount (task_of qs' r) = int (Suc k)" "live qs' r \<longleftrightarrow> Suc k < m" by simp_all
qed

lemma failing_run:
  assumes "live qs r" and "\<forall>oc \<in> set ocs. oc_rpcCode oc \<noteq> 0"
    and "rc_MaxAttempts (q_RetryConfig (qs_q qs)) = int m" "rc_MaxRetryDuration (q_RetryConfig (qs_q qs)) \<le> 0"
    and "t_DispatchCount (task_of qs r) = int k" "k < m" "int m < 2 ^ 31"
  shows "live (applyAttempts oob eng r ocs qs) r \<longleftrightarrow> k + length ocs < m"
    and "t_DispatchCount (task_of (applyAttempts oob eng r ocs qs) r) = int (min m (k + length ocs))"
proof -
  have "(live (applyAttempts oob eng r ocs qs) r \<longleftrightarrow> k + length ocs < m) \<and>
    t_DispatchCount (task_of (applyAttempts oob eng r ocs qs) r) = int (min m (k + length ocs))"
    using assms
  proof (induction ocs arbitrary: qs k)
    case Nil
    then show ?case by simp
  next
    case (Cons oc ocs)
    let ?q = "applyAttempt oob eng (oc_now oc) r (oc_att oc) (oc_dispatchTime oc) (oc_rpcCode oc)
      (oc_httpCode oc) (oc_message oc) qs"
    have "oc_rpcCode oc \<noteq> 0" using Cons.prems(2) by simp
    note step = applyAttempt_failure_step [OF Cons.prems(1) this Cons.prems(3,4,5,6,7), of oob eng]
    show ?case
    proof (cases "Suc k < m")
      case True
      then show ?thesis using Cons.IH [of ?q "Suc k"] Cons.prems step by simp
    next
      case False
      then have m: "m = Suc k" using Cons.prems(6) by simp
      have "r < length (qs_cells qs)" using Cons.prems(1) by (simp add: live_def)
      then have "ts_removed (cell ?q r)" using False step by (simp add: live_def)
      then have "applyAttempts oob eng r (oc # ocs) qs = ?q" by (simp add: applyAttempts_removed)
      then show ?thesis using False step m by (simp add: min_def)
    qed
  qed
  then show "live (applyAttempts oob eng r ocs qs) r \<longleftrightarrow> k + length ocs < m"
    "t_DispatchCount (task_of (applyAttempts oob eng r ocs qs) r) = int (min m (k + length ocs))"
    by simp_all
qed

section \<open>Properties\<close>

text \<open>Concrete states for the witnesses: one push queue with one task that was never attempted.\<close>

definition demoConf :: EngineConf where
  "demoConf = \<lparr>eng_taskTTL = 31 * 24 * hour, eng_tombstoneTTL = 24 * hour,
     eng_hardResetOnPurge = False, eng_defaultAppEngineHost = []\<rparr>"

definition demoRetry :: RetryConfig where
  "demoRetry = \<lparr>rc_MaxAttempts = 3, rc_MaxRetryDuration = 0, rc_MinBackoff = 100 * millisecond,
     rc_MaxBackoff = 3600 * second, rc_MaxDoublings = 16\<rparr>"

definition demoTask :: "string \<Rightarrow> Task" where
  "demoTask n = zeroTask\<lparr>t_Name := n, t_ScheduleTime := 0, t_CreateTime := 0,
     t_Target := zeroTarget\<lparr>tg_Type := TargetHTTP, tg_URL := ''http://h/''\<rparr>\<rparr>"

definition demoQueue :: "string \<Rightarrow> queueState" where
  "demoQueue n = addNewTask demoConf 0 (demoTask n)
     (newQueueState (applyQueueDefaults (zeroQueue\<lparr>q_Name := ''projects/p/locations/l/queues/q'',
        q_RetryConfig := demoRetry\<rparr>)))"

lemma qs_cells_newQueueState [simp]: "qs_cells (newQueueState q) = []"
  and qs_tasks_newQueueState [simp]: "qs_tasks (newQueueState q) = []"
  and qs_q_newQueueState [simp]: "qs_q (newQueueState q) = q"
  by (simp_all add: newQueueState_def rebuildLimits_def Let_def)

lemma addNewTask_frame [simp]:
  "qs_q (addNewTask eng now t qs) = qs_q qs"
  "qs_tasks (addNewTask eng now t qs) = gset (t_Name t) (length (qs_cells qs)) (qs_tasks qs)"
  "qs_tombstones (addNewTask eng now t qs) = qs_tombstones qs"
  "length (qs_cells (addNewTask eng now t qs)) = Suc (length (qs_cells qs))"
  "qs_chans (addNewTask eng now t qs) = qs_chans qs"
  "qs_concurrency (addNewTask eng now t qs) = qs_concurrency qs"
  by (simp_all add: addNewTask_def addTask_def Let_def split_beta newTaskState_def cell_def)

lemma addNewTask_cells:
  "task_of (addNewTask eng now t qs) r = (if r = length (qs_cells qs) then t else task_of qs r)"
    if "r \<le> length (qs_cells qs)"
  using that
  by (simp add: addNewTask_def addTask_def Let_def split_beta cell_updCell)
    (simp add: cell_def nth_append newTaskState_def)

lemma addNewTask_live:
  "live (addNewTask eng now t qs) r \<longleftrightarrow> live qs r \<or> r = length (qs_cells qs)"
  by (auto simp: live_def addNewTask_def addTask_def Let_def split_beta cell_updCell less_Suc_eq)
    (auto simp: cell_def nth_append newTaskState_def)

lemma demoQueue_live: "live (demoQueue n) 0"
  by (simp add: demoQueue_def addNewTask_live)

lemma demoQueue_inv: "qinv (demoQueue n)"
  unfolding demoQueue_def
  by (rule qinv_addNewTask [OF qinv_newQueueState]) simp

lemma demoQueue_q: "q_RetryConfig (qs_q (demoQueue n)) = demoRetry"
  by (simp add: demoQueue_def applyQueueDefaults_def defaultRetryConfig_def demoRetry_def
      millisecond_def second_def)

lemma demoQueue_task: "task_of (demoQueue n) 0 = demoTask n"
  by (simp add: demoQueue_def addNewTask_cells)

text \<open>
  The delay before a retry is never negative and never above the queue's maximum
  backoff, whatever the processor makes of a floating-point value that does not fit an
  \<^verbatim>\<open>int64\<close> and however the products wrap.
\<close>

lemma backoff_within_bounds:
  assumes "0 \<le> rc_MaxBackoff rc"
  shows "0 \<le> backoff oob rc retries \<and> backoff oob rc retries \<le> rc_MaxBackoff rc"
  using assms by (simp add: backoff_clamps)

text \<open>
  C11. As long as the products stay within \<^verbatim>\<open>int64\<close>, the delay before retry \<^verbatim>\<open>n\<close> is the documented
  one: it doubles from the minimum backoff for the first \<^verbatim>\<open>max_doublings\<close> retries, then grows
  linearly by the last doubled interval, and is cut at the maximum backoff.
\<close>

theorem backoff_is_documented_formula:
  assumes "0 < rc_MinBackoff rc" and "rc_MinBackoff rc < 2 ^ 53" and "0 \<le> rc_MaxBackoff rc"
    and "0 \<le> rc_MaxDoublings rc" and "1 \<le> n" and "in_int32 n"
    and "rc_MinBackoff rc * 2 ^ nat (min (n - 1) (rc_MaxDoublings rc)) * n < 2 ^ 63"
  shows "backoff oob rc n = backoffFormula rc n"
proof (cases "n - 1 \<le> rc_MaxDoublings rc")
  case True
  let ?s = "rc_MinBackoff rc * 2 ^ nat (n - 1)"
  have "?s * 1 \<le> ?s * n" using assms(1,5) by (intro mult_left_mono) auto
  with True assms(7) have "?s < 2 ^ 63" by (simp add: min_def)
  with True assms show ?thesis by (simp add: backoffFormula_def backoff_doubling)
next
  case False
  let ?s = "rc_MinBackoff rc * 2 ^ nat (rc_MaxDoublings rc)"
  have "?s * (n - rc_MaxDoublings rc) \<le> ?s * n" using assms(1,4) by (intro mult_left_mono) auto
  with False assms(7) have "?s * (n - rc_MaxDoublings rc) < 2 ^ 63" by (simp add: min_def)
  with False assms show ?thesis by (simp add: backoffFormula_def backoff_linear)
qed

theorem backoff_is_documented_formula_witness:
  "backoff (\<lambda>_. 0) demoRetry 17 = 3600 * second \<and> backoff (\<lambda>_. 0) demoRetry 4 = 800 * millisecond"
  using backoff_is_documented_formula [of demoRetry 17 "\<lambda>_. 0"]
    backoff_is_documented_formula [of demoRetry 4 "\<lambda>_. 0"]
  by (simp add: demoRetry_def second_def millisecond_def in_int32_def backoffFormula_def)


text \<open>
  A failed attempt is the last one exactly when the queue sets at least one limit and
  every limit it sets is used up: the number of dispatches has reached \<^verbatim>\<open>max_attempts\<close> (unless
  that is -1) and the time since the first dispatch has reached \<^verbatim>\<open>max_retry_duration\<close> (unless
  that is not positive).
\<close>

lemma retries_stop_when_every_limit_is_used_up:
  "\<not> shouldRetry now rc t ts \<longleftrightarrow>
     \<not> (rc_MaxAttempts rc = - 1 \<and> rc_MaxRetryDuration rc \<le> 0) \<and>
     (rc_MaxAttempts rc = - 1 \<or> t_DispatchCount t \<ge> rc_MaxAttempts rc) \<and>
     (rc_MaxRetryDuration rc \<le> 0 \<or> timeSub now (ts_firstAttemptTime ts) \<ge> rc_MaxRetryDuration rc)"
  by (auto simp: shouldRetry_def Let_def)




text \<open>
  C10. A task that keeps failing is dropped after exactly \<^verbatim>\<open>max_attempts\<close> attempts when the queue
  has no duration limit: after any sequence of failed attempts it is still there if fewer
  were made, and gone, with its dispatch count at the limit, if as many or more were tried.
\<close>

theorem failing_task_dropped_at_max_attempts:
  assumes "live qs r" and "t_DispatchCount (task_of qs r) = 0"
    and "\<forall>oc \<in> set ocs. oc_rpcCode oc \<noteq> 0"
    and "rc_MaxAttempts (q_RetryConfig (qs_q qs)) = int m" and "0 < m" and "int m < 2 ^ 31"
    and "rc_MaxRetryDuration (q_RetryConfig (qs_q qs)) \<le> 0"
  shows "(live (applyAttempts oob eng r ocs qs) r \<longleftrightarrow> length ocs < m) \<and>
    t_DispatchCount (task_of (applyAttempts oob eng r ocs qs) r) = int (min m (length ocs))"
  using failing_run [OF assms(1,3,4,7), of 0] assms(2,5,6) by simp

theorem failing_task_dropped_at_max_attempts_witness:
  "\<not> live (applyAttempts (\<lambda>_. 0) demoConf 0
      (replicate 3 \<lparr>oc_now = 0, oc_att = \<lparr>att_ScheduleTime = 0, att_DispatchTime = 0, att_ResponseTime = 0,
         att_Code = 14, att_Message = []\<rparr>, oc_dispatchTime = 0, oc_rpcCode = 14, oc_httpCode = 0,
         oc_message = []\<rparr>) (demoQueue ''n'')) 0"
  using failing_task_dropped_at_max_attempts [OF demoQueue_live, of "''n''" "replicate 3 \<lparr>oc_now = 0,
      oc_att = \<lparr>att_ScheduleTime = 0, att_DispatchTime = 0, att_ResponseTime = 0, att_Code = 14,
      att_Message = []\<rparr>, oc_dispatchTime = 0, oc_rpcCode = 14, oc_httpCode = 0, oc_message = []\<rparr>" 3]
  by (simp add: demoQueue_task demoQueue_q demoTask_def zeroTask_def demoRetry_def del: replicate_Suc
      replicate.simps)

end
