(* ===== verification/Queue_Ops.thy ===== *)
theory Queue_Ops
  imports Retry
begin

text \<open>
  The critical sections of \<^verbatim>\<open>core/engine.go\<close> that run under one queue's lock: what
  \<^verbatim>\<open>CreateTask\<close>, \<^verbatim>\<open>GetTask\<close>, \<^verbatim>\<open>DeleteTask\<close>, \<^verbatim>\<open>RunTask\<close>, \<^verbatim>\<open>UpdateQueue\<close> and \<^verbatim>\<open>SetQueueState\<close> do to a queue state once
  they hold it. \<^verbatim>\<open>Engine\<close> calls them after its lookups, and the interleaving model of
  \<^verbatim>\<open>Queue_Machine\<close> runs them between the steps of timers and attempts.
\<close>

section \<open>Definitions\<close>

definition createTaskLocked :: "EngineConf \<Rightarrow> time \<Rightarrow> Task \<Rightarrow> queueState \<Rightarrow> queueState \<times> Task result" where
  "createTaskLocked eng now t qs =
     (if gget (qs_tasks qs) (t_Name t) \<noteq> None
      then (qs, Inl (Errorf AlreadyExists ''task %q already exists'' [t_Name t]))
      else if tombstoned now (t_Name t) qs
      then (qs, Inl (Errorf AlreadyExists
              ''task %q was recently deleted and its name is still reserved'' [t_Name t]))
      else (addNewTask eng now t qs, Inr (cloneTask t)))"

definition getTaskLocked :: "string \<Rightarrow> queueState \<Rightarrow> Task result" where
  "getTaskLocked name qs =
     (case gget (qs_tasks qs) name of
        None \<Rightarrow> Inl (Errorf NotFound ''task %q not found'' [name])
      | Some r \<Rightarrow> Inr (cloneTask (ts_t (cell qs r))))"

definition deleteTaskLocked :: "EngineConf \<Rightarrow> time \<Rightarrow> string \<Rightarrow> queueState \<Rightarrow> queueState \<times> unit result" where
  "deleteTaskLocked eng now name qs =
     (case gget (qs_tasks qs) name of
        None \<Rightarrow> (qs, Inl (Errorf NotFound ''task %q not found'' [name]))
      | Some r \<Rightarrow> (removeLocked eng now r qs, Inr ()))"

text \<open>The first critical section of \<^verbatim>\<open>RunTask\<close>; it yields the task state to attempt.\<close>

definition runTaskLocked :: "time \<Rightarrow> string \<Rightarrow> queueState \<Rightarrow> queueState \<times> tref result" where
  "runTaskLocked now name qs =
     (if q_Pull (qs_q qs)
      then (qs, Inl (Errorf FailedPrecondition ''RunTask cannot be called on a pull queue'' []))
      else case gget (qs_tasks qs) name of
        None \<Rightarrow> (qs, Inl (Errorf NotFound ''task %q not found'' [name]))
      | Some r \<Rightarrow>
          if tg_Type (t_Target (ts_t (cell qs r))) = TargetPull
          then (qs, Inl (Errorf FailedPrecondition ''RunTask cannot be called on a pull task'' []))
          else (updCell r (\<lambda>ts. ts\<lparr>ts_t := (ts_t ts)\<lparr>t_ScheduleTime := now\<rparr>\<rparr>)
                  (stopTimer (ts_timer (cell qs r)) qs), Inr r))"

datatype QueueField =
  FieldRateLimits | FieldRetryConfig | FieldAppEngineRoutingOverride | FieldHTTPOverride

fun setField :: "Queue \<Rightarrow> QueueField \<Rightarrow> Queue \<Rightarrow> Queue" where
  "setField q FieldRateLimits c = c\<lparr>q_RateLimits := q_RateLimits q\<rparr>"
| "setField q FieldRetryConfig c = c\<lparr>q_RetryConfig := q_RetryConfig q\<rparr>"
| "setField q FieldAppEngineRoutingOverride c =
     c\<lparr>q_AppEngineRoutingOverride := q_AppEngineRoutingOverride q\<rparr>"
| "setField q FieldHTTPOverride c = c\<lparr>q_HTTPOverride := q_HTTPOverride q\<rparr>"

definition updateQueueLocked :: "Queue \<Rightarrow> QueueField list \<Rightarrow> queueState \<Rightarrow> queueState \<times> Queue" where
  "updateQueueLocked q flds qs =
     (let flds' = (if flds = []
            then [FieldRateLimits, FieldRetryConfig, FieldAppEngineRoutingOverride, FieldHTTPOverride]
            else flds);
          qs1 = qs\<lparr>qs_q := applyQueueDefaults (fold (setField q) flds' (qs_q qs))\<rparr>;
          qs2 = rebuildLimits qs1
      in (qs2, snapshotLocked qs2))"

definition setStateLocked :: "State \<Rightarrow> queueState \<Rightarrow> queueState \<times> Queue" where
  "setStateLocked st qs =
     (let qs1 = qs\<lparr>qs_q := (qs_q qs)\<lparr>q_State := st\<rparr>\<rparr> in (qs1, snapshotLocked qs1))"

section \<open>The invariant\<close>

lemma qinv_createTaskLocked [inv_intros]: "qinv qs \<Longrightarrow> qinv (fst (createTaskLocked eng now t qs))"
  by (auto simp: createTaskLocked_def intro: qinv_addNewTask)

lemma qinv_deleteTaskLocked [inv_intros]: "qinv qs \<Longrightarrow> qinv (fst (deleteTaskLocked eng now name qs))"
  by (auto simp: deleteTaskLocked_def split: option.split dest: qinv_lookup intro: qinv_removeLocked)

lemma qinv_stopTimer: "qinv qs \<Longrightarrow> qinv (stopTimer h qs)"
  by (simp add: qinv_def qbase_stopTimer live_def)

lemma qinv_runTaskLocked [inv_intros]: "qinv qs \<Longrightarrow> qinv (fst (runTaskLocked now name qs))"
  by (auto simp: runTaskLocked_def same_identity_def split: option.split
      intro!: qinv_updCell qinv_stopTimer)

lemma q_Pull_setField [simp]: "q_Pull (setField q f c) = q_Pull c" "q_Name (setField q f c) = q_Name c"
    "q_State (setField q f c) = q_State c"
  by (cases f; simp)+

lemma setField_fold [simp]:
  "q_Pull (fold (setField q) fs c) = q_Pull c" "q_Name (fold (setField q) fs c) = q_Name c"
  "q_State (fold (setField q) fs c) = q_State c"
  by (induction fs arbitrary: c) simp_all

lemma applyQueueDefaults_frame [simp]:
  "q_Pull (applyQueueDefaults q) = q_Pull q" "q_Name (applyQueueDefaults q) = q_Name q"
  "q_State (applyQueueDefaults q) = q_State q" "q_TaskTTL (applyQueueDefaults q) = q_TaskTTL q"
  "q_TombstoneTTL (applyQueueDefaults q) = q_TombstoneTTL q"
  "q_HTTPOverride (applyQueueDefaults q) = q_HTTPOverride q"
  "q_AppEngineRoutingOverride (applyQueueDefaults q) = q_AppEngineRoutingOverride q"
  by (simp_all add: applyQueueDefaults_def)

lemma qinv_updateQueueLocked [inv_intros]: "qinv qs \<Longrightarrow> qinv (fst (updateQueueLocked q fs qs))"
  by (simp add: updateQueueLocked_def Let_def qinv_rebuildLimits qinv_setQ)

lemma qinv_setStateLocked [inv_intros]: "qinv qs \<Longrightarrow> qinv (fst (setStateLocked st qs))"
  by (simp add: setStateLocked_def Let_def qinv_setQ)

section \<open>Clones\<close>

lemma fold_gset: "distinct (map fst h) \<Longrightarrow> (\<forall>k \<in> fst ` set h. k \<notin> fst ` set m) \<Longrightarrow>
    fold (\<lambda>(k, v) m. gset k v m) h m = m @ h"
proof (induction h arbitrary: m)
  case Nil
  then show ?case by simp
next
  case (Cons x h)
  obtain k v where x: "x = (k, v)" by force
  have "gset k v m = m @ [(k, v)]"
    using Cons.prems(2) x by (simp add: gset_def AList.update_conv' )
      (induction m; auto)
  moreover have "fold (\<lambda>(k, v) m. gset k v m) h (m @ [(k, v)]) = (m @ [(k, v)]) @ h"
    using Cons.prems x by (intro Cons.IH) auto
  ultimately show ?case using x by simp
qed

lemma cloneHeaders_id: "gwf h \<Longrightarrow> cloneHeaders h = h"
  using fold_gset [of h "[]"] by (simp add: cloneHeaders_def gwf_def keys_of_def)

lemma cloneTask_id: "gwf (tg_Headers (t_Target t)) \<Longrightarrow> cloneTask t = t"
  by (simp add: cloneTask_def cloneHeaders_id)

section \<open>Names: live, reserved, free\<close>

text \<open>Names of the tasks of a queue, and those of them a purge reserves.\<close>

lemma tombstoned_iff: "tombstoned now n qs \<longleftrightarrow> (\<exists>e. gget (qs_tombstones qs) n = Some e \<and> now < e)"
  by (auto simp: tombstoned_def split: option.splits)

lemma purgeOne_tombstones:
  "gget (qs_tombstones (purgeOne eng now r qs)) n =
     (if n = name_of qs r \<and> effectiveTombstoneTTL eng qs \<ge> 0
      then Some (now + effectiveTombstoneTTL eng qs) else gget (qs_tombstones qs) n)"
  by (auto simp: purgeOne_def qs_tombstones_tombstoneLocked gm.get_set effectiveTombstoneTTL_def)

lemma fold_purgeOne_tombstones:
  "gget (qs_tombstones (fold (purgeOne eng now) rs qs)) n =
     (if n \<in> name_of qs ` set rs \<and> effectiveTombstoneTTL eng qs \<ge> 0
      then Some (now + effectiveTombstoneTTL eng qs) else gget (qs_tombstones qs) n)"
proof (induction rs arbitrary: qs)
  case Nil
  then show ?case by simp
next
  case (Cons r rs)
  have "task_of (purgeOne eng now r qs) r' = task_of qs r'" for r' by (simp add: purgeOne_def)
  moreover have "effectiveTombstoneTTL eng (purgeOne eng now r qs) = effectiveTombstoneTTL eng qs"
    by (simp add: effectiveTombstoneTTL_def purgeOne_def)
  ultimately show ?case by (auto simp: Cons.IH purgeOne_tombstones)
qed

lemma names_of_tasks: "qinv qs \<Longrightarrow> name_of qs ` snd ` set (qs_tasks qs) = set (keys_of (qs_tasks qs))"
proof -
  assume inv: "qinv qs"
  have "gwf (qs_tasks qs)" using inv by (simp add: qinv_def qbase_def)
  then have "(n, r) \<in> set (qs_tasks qs) \<Longrightarrow> name_of qs r = n" for n r
    using qinv_lookup [OF inv, of n r] by (simp add: gget_iff_mem)
  then show ?thesis by (force simp: keys_of_def image_iff)
qed

lemma purge_facts:
  assumes "qinv qs"
  shows "qs_tasks (purge eng now qs) = []" "\<not> live (purge eng now qs) r"
    "q_PurgeTime (qs_q (purge eng now qs)) = now"
    "gget (qs_tombstones (purge eng now qs)) n =
       (if eng_hardResetOnPurge eng then None
        else if n \<in> set (keys_of (qs_tasks qs)) \<and> effectiveTombstoneTTL eng qs \<ge> 0
        then Some (now + effectiveTombstoneTTL eng qs) else gget (qs_tombstones qs) n)"
proof -
  let ?s = "fold (purgeOne eng now) (map snd (qs_tasks qs)) qs"
  have "\<not> live (?s\<lparr>qs_tasks := []\<rparr>) r"
    using qinv_emptied(2) [OF assms retiring_purge] assms by (simp add: qinv_qbase)
  then show "\<not> live (purge eng now qs) r" by (simp add: purge_def Let_def live_def)
  show "qs_tasks (purge eng now qs) = []" "q_PurgeTime (qs_q (purge eng now qs)) = now"
    by (simp_all add: purge_def Let_def)
  show "gget (qs_tombstones (purge eng now qs)) n =
       (if eng_hardResetOnPurge eng then None
        else if n \<in> set (keys_of (qs_tasks qs)) \<and> effectiveTombstoneTTL eng qs \<ge> 0
        then Some (now + effectiveTombstoneTTL eng qs) else gget (qs_tombstones qs) n)"
    using fold_purgeOne_tombstones [of eng now "map snd (qs_tasks qs)" qs n] names_of_tasks [OF assms]
    by (simp add: purge_def Let_def)
qed

lemma createTaskLocked_ok_iff:
  "is_ok (snd (createTaskLocked eng now t qs)) \<longleftrightarrow>
     gget (qs_tasks qs) (t_Name t) = None \<and> \<not> tombstoned now (t_Name t) qs"
  by (simp add: createTaskLocked_def)

lemma getTaskLocked_add:
  assumes "qinv qs" and "gget (qs_tasks qs) (t_Name t) = None"
  shows "getTaskLocked n (addNewTask eng now t qs) =
    (if n = t_Name t then Inr (cloneTask t) else getTaskLocked n qs)"
proof (cases "n = t_Name t")
  case True
  then show ?thesis by (simp add: getTaskLocked_def addNewTask_cells)
next
  case False
  show ?thesis
  proof (cases "gget (qs_tasks qs) n")
    case None
    with False show ?thesis by (simp add: getTaskLocked_def gm.get_set_other)
  next
    case (Some r)
    then have "r < length (qs_cells qs)" using qinv_lookup [OF assms(1)] by (auto simp: live_def)
    with False Some show ?thesis by (simp add: getTaskLocked_def gm.get_set_other addNewTask_cells)
  qed
qed

section \<open>Properties\<close>

text \<open>
  A task can be created in a queue exactly when its name is neither live nor reserved;
  it can then be read back as it was given, and no other task of the queue changes. When it
  cannot be created the queue is left as it was and the error is \<^verbatim>\<open>AlreadyExists\<close>.
\<close>

lemma create_then_get:
  assumes "qinv qs"
  shows "let (qs', res) = createTaskLocked eng now t qs in
    (is_ok res \<longleftrightarrow> gget (qs_tasks qs) (t_Name t) = None \<and> \<not> tombstoned now (t_Name t) qs) \<and>
    (is_ok res \<longrightarrow> qinv qs' \<and> getTaskLocked (t_Name t) qs' = Inr (cloneTask t) \<and>
       (\<forall>n. n \<noteq> t_Name t \<longrightarrow> getTaskLocked n qs' = getTaskLocked n qs)) \<and>
    (\<not> is_ok res \<longrightarrow> qs' = qs \<and> err_code res = AlreadyExists)"
  using assms getTaskLocked_add [OF assms] qinv_createTaskLocked [OF assms, of eng now t]
  by (auto simp: createTaskLocked_def Let_def)

text \<open>
  Deleting a task reserves its name for exactly the tombstone time of the queue: the task
  is gone, and a task of that name can be created again at a time \<^verbatim>\<open>t\<close> if and only if the
  tombstone time has passed.
\<close>

lemma deleted_name_reserved_for_ttl:
  assumes "qinv qs" and "gget (qs_tasks qs) n = Some r" and "0 \<le> effectiveTombstoneTTL eng qs"
    and "t_Name t = n"
  shows "let qs' = fst (deleteTaskLocked eng now n qs) in
    getTaskLocked n qs' = Inl (Errorf NotFound ''task %q not found'' [n]) \<and>
    (is_ok (snd (createTaskLocked eng later t qs')) \<longleftrightarrow> now + effectiveTombstoneTTL eng qs \<le> later)"
proof -
  have name: "name_of qs r = n" using qinv_lookup [OF assms(1,2)] by simp
  have "qs_tasks (removeLocked eng now r qs) = gdel n (qs_tasks qs)"
    "gget (qs_tombstones (removeLocked eng now r qs)) n = Some (now + effectiveTombstoneTTL eng qs)"
    using assms(3) name by (simp_all add: removeLocked_tombstones)
  with assms(2,4) show ?thesis
    by (auto simp: deleteTaskLocked_def getTaskLocked_def createTaskLocked_ok_iff tombstoned_iff Let_def)
qed

text \<open>
  Purging a queue removes every task, stamps the purge time, and reserves exactly the
  names it removed for the tombstone time, on top of those already reserved. With the
  hard-reset option no name at all stays reserved.
\<close>

lemma purge_empties_and_reserves:
  assumes "qinv qs" and "0 \<le> effectiveTombstoneTTL eng qs"
  shows "let qs' = purge eng now qs in
    qinv qs' \<and> qs_tasks qs' = [] \<and> (\<forall>r. \<not> live qs' r) \<and> q_PurgeTime (qs_q qs') = now \<and>
    (\<forall>n later. tombstoned later n qs' \<longleftrightarrow>
       \<not> eng_hardResetOnPurge eng \<and>
       (if n \<in> set (keys_of (qs_tasks qs)) then later < now + effectiveTombstoneTTL eng qs
        else tombstoned later n qs))"
  using purge_facts [OF assms(1)] assms(2) qinv_purge [OF assms(1)]
  by (auto simp: Let_def tombstoned_iff split: if_splits)

end
