(* ===== verification/Runs.thy ===== *)
theory Runs
  imports Emu_Prelude
begin

text \<open>
  Runs of a deterministic step function on events, shared by the models that interleave
  operations: \<^verbatim>\<open>Queue_Machine\<close> (the goroutines of one queue), \<^verbatim>\<open>Engine\<close> (sequences of API
  calls), \<^verbatim>\<open>System\<close> (concurrent calls on all queues), \<^verbatim>\<open>Rest_Props\<close> (REST requests), \<^verbatim>\<open>Main_Run\<close> (the
  shutdown) and \<^verbatim>\<open>Main_Process\<close> (the whole process). A step that is not enabled is \<^const>\<open>None\<close>. The locales are what a model has to
  show of one step, and what then holds of every run.
\<close>

fun run :: "('e \<Rightarrow> 's \<Rightarrow> 's option) \<Rightarrow> 'e list \<Rightarrow> 's \<Rightarrow> 's option" where
  "run step [] s = Some s"
| "run step (e # es) s = (case step e s of None \<Rightarrow> None | Some s' \<Rightarrow> run step es s')"

lemma run_append: "run step (xs @ ys) s = Option.bind (run step xs s) (run step ys)"
  by (induction xs arbitrary: s) (auto split: option.split)

text \<open>A run in which every event is of a given kind is a run of the step restricted to that kind.\<close>

lemma run_restrict:
  "\<forall>e \<in> set es. P e \<Longrightarrow> run (\<lambda>e s. if P e then step e s else None) es s = run step es s"
  by (induction es arbitrary: s) (auto split: option.split)

lemma run_restricted:
  "run (\<lambda>e s. if P e then step e s else None) es s = Some s' \<Longrightarrow> list_all P es \<and> run step es s = Some s'"
  by (induction es arbitrary: s) (auto split: option.splits if_splits)

text \<open>Events that are translated one by one into the events of another step function.\<close>

lemma run_map: "run (\<lambda>e. step (f e)) es s = run step (map f es) s"
  by (induction es arbitrary: s) (simp_all split: option.split)

locale invariant_system =
  fixes step :: "'e \<Rightarrow> 's \<Rightarrow> 's option" and inv :: "'s \<Rightarrow> bool"
  assumes step_inv: "inv s \<Longrightarrow> step e s = Some s' \<Longrightarrow> inv s'"
begin

lemma run_inv: "inv s \<Longrightarrow> run step es s = Some s' \<Longrightarrow> inv s'"
  by (induction es arbitrary: s) (auto split: option.splits dest: step_inv)

end

text \<open>
  One system's steps in terms of another's: a step on an accepted event changes nothing or is one
  step of the other system, so that every history is a history of the other system.
\<close>

locale refining_system =
  fixes step :: "'e \<Rightarrow> 's \<Rightarrow> 's option" and ok :: "'e \<Rightarrow> bool" and spec :: "'c \<Rightarrow> 's \<Rightarrow> 's option"
  assumes step_spec: "ok e \<Longrightarrow> step e s = Some s' \<Longrightarrow> s' = s \<or> (\<exists>c. spec c s = Some s')"
begin

lemma run_spec:
  "list_all ok es \<Longrightarrow> run step es s = Some s' \<Longrightarrow> \<exists>cs. length cs \<le> length es \<and> run spec cs s = Some s'"
proof (induction es arbitrary: s)
  case (Cons e es)
  then obtain t where t: "step e s = Some t" "run step es t = Some s'" by (auto split: option.splits)
  with Cons obtain cs where cs: "length cs \<le> length es" "run spec cs t = Some s'" by auto
  from step_spec [OF _ t(1)] Cons.prems(1) consider "t = s" | c where "spec c s = Some t" by auto
  then show ?case
  proof cases
    case 1
    with cs show ?thesis by (auto intro: exI [of _ cs])
  next
    case 2
    with cs show ?thesis by (auto intro: exI [of _ "c # cs"])
  qed
qed simp

lemma run_keeps:
  "invariant_system spec J \<Longrightarrow> list_all ok es \<Longrightarrow> J s \<Longrightarrow> run step es s = Some s' \<Longrightarrow> J s'"
  using run_spec invariant_system.run_inv by metis

end

text \<open>A relation between an earlier and a later state that every step establishes.\<close>

locale evolving_system = invariant_system +
  fixes rel :: "'s \<Rightarrow> 's \<Rightarrow> bool"
  assumes rel_refl: "rel s s"
    and rel_trans: "rel s s' \<Longrightarrow> rel s' s'' \<Longrightarrow> rel s s''"
    and step_rel: "inv s \<Longrightarrow> step e s = Some s' \<Longrightarrow> rel s s'"
begin

lemma run_rel: "inv s \<Longrightarrow> run step es s = Some s' \<Longrightarrow> rel s s'"
proof (induction es arbitrary: s)
  case Nil
  then show ?case by (simp add: rel_refl)
next
  case (Cons e es)
  then obtain t where "step e s = Some t" "run step es t = Some s'" by (auto split: option.splits)
  with Cons show ?case using rel_trans step_rel step_inv by blast
qed

end

text \<open>
  Steps that cannot go on for ever: as long as the goal is not reached some step is possible, and every step
  uses up work. Then the goal can be reached, and no run can avoid it for longer than the work lasts.
\<close>

locale progressing_system =
  fixes step :: "'e \<Rightarrow> 's \<Rightarrow> 's option" and inv :: "'s \<Rightarrow> bool" and work :: "'s \<Rightarrow> nat" and goal :: "'s \<Rightarrow> bool"
  assumes step_progress: "inv s \<Longrightarrow> \<not> goal s \<Longrightarrow> step e s = Some s' \<Longrightarrow> inv s' \<and> work s' < work s"
    and not_stuck: "inv s \<Longrightarrow> \<not> goal s \<Longrightarrow> \<exists>e s'. step e s = Some s'"
begin

lemma reaches_goal: "inv s \<Longrightarrow> \<exists>es s'. length es \<le> work s \<and> run step es s = Some s' \<and> inv s' \<and> goal s'"
proof (induction "work s" arbitrary: s rule: less_induct)
  case less
  show ?case
  proof (cases "goal s")
    case True
    with less.prems show ?thesis by (intro exI [of _ "[]"]) simp
  next
    case False
    with less.prems obtain e s1 where e: "step e s = Some s1" using not_stuck by blast
    then have "inv s1" "work s1 < work s" using step_progress less.prems False by blast+
    with less.hyps obtain es s' where "length es \<le> work s1" "run step es s1 = Some s'" "inv s'" "goal s'" by blast
    with e \<open>work s1 < work s\<close> show ?thesis by (intro exI [of _ "e # es"]) auto
  qed
qed

lemma run_progress:
  "inv s \<Longrightarrow> run step es s = Some s' \<Longrightarrow>
     (\<exists>k t. k \<le> length es \<and> run step (take k es) s = Some t \<and> goal t) \<or> (inv s' \<and> length es + work s' \<le> work s)"
proof (induction es arbitrary: s)
  case (Cons e es)
  show ?case
  proof (cases "goal s")
    case True
    then show ?thesis by (intro disjI1 exI [of _ 0]) simp
  next
    case False
    from Cons.prems(2) obtain s1 where s1: "step e s = Some s1" "run step es s1 = Some s'" by (auto split: option.splits)
    then have p: "inv s1" "work s1 < work s" using step_progress Cons.prems(1) False by blast+
    from Cons.IH [OF p(1) s1(2)] show ?thesis
    proof
      assume "\<exists>k t. k \<le> length es \<and> run step (take k es) s1 = Some t \<and> goal t"
      then obtain k t where "k \<le> length es" "run step (take k es) s1 = Some t" "goal t" by blast
      with s1(1) show ?thesis by (intro disjI1 exI [of _ "Suc k"] exI [of _ t]) simp
    qed (use p(2) in simp)
  qed
qed simp

text \<open>A run that cannot be continued has reached the goal on its way.\<close>

lemma maximal_run_passes_goal:
  assumes "inv s" "run step es s = Some s'" "\<And>e. step e s' = None"
  shows "\<exists>k t. k \<le> length es \<and> run step (take k es) s = Some t \<and> goal t"
  using run_progress [OF assms(1,2)]
proof
  assume "inv s' \<and> length es + work s' \<le> work s"
  with not_stuck assms(3) have "goal s'" by fastforce
  with assms(2) show ?thesis by (intro exI [of _ "length es"] exI [of _ s']) simp
qed

text \<open>When nothing happens any more at the goal, every run is as short as the work allows, and ends there when it cannot go on.\<close>

lemma run_ends_at_goal:
  assumes final: "\<And>s e. goal s \<Longrightarrow> step e s = None" and "inv s" "run step es s = Some s'"
  shows "inv s' \<and> length es + work s' \<le> work s \<and> ((\<forall>e. step e s' = None) \<longrightarrow> goal s')"
proof -
  have "inv s' \<and> length es + work s' \<le> work s"
    using assms(2,3)
  proof (induction es arbitrary: s)
    case (Cons e es)
    then obtain s1 where s1: "step e s = Some s1" "run step es s1 = Some s'" by (auto split: option.splits)
    then have "\<not> goal s" using final by fastforce
    then have "inv s1" "work s1 < work s" using step_progress Cons.prems(1) s1(1) by blast+
    with Cons.IH s1(2) show ?case by fastforce
  qed simp
  with not_stuck show ?thesis by fastforce
qed

end

end
