(* ===== verification/Queue_Machine.thy ===== *)
theory Queue_Machine
  imports Queue_Ops Runs
begin

text \<open>
  One queue with everything that can run at the same time on it: the goroutines of expired
  timers, dispatches waiting for the limiter or for a slot, requests in flight, and the API
  calls, interleaved in any order. Each step is one critical section of \<^verbatim>\<open>core/queue.go\<close> (what
  the code does under the queue's lock) or one blocking operation (the limiter, the
  semaphore, the HTTP request). A thread is the goroutine's remaining work: the task state
  it holds a pointer to and, for a dispatch started by a timer, the semaphore whose slot it
  holds. The limiter (\<^verbatim>\<open>golang.org/x/time/rate\<close>) is not modelled: whether and when a wait
  ends, and whether it ends with an error, is the environment's choice, as is the response to
  a request.
\<close>

section \<open>Threads and steps\<close>

datatype thread =
    TFire tref
  | TLimiter tref nat
  | TSlot tref nat
  | TAttempt tref "nat option"
  | TDispatch tref attemptSnapshot time "nat option"
  | TApply tref Attempt time int32 int string "nat option"
  | TRelease nat
  | TExpire tref
  | TTombstone string

record menv =
  me_oob :: "int option \<Rightarrow> int64"
  me_gl :: golib
  me_token :: "string \<Rightarrow> string \<Rightarrow> string"
  me_eng :: EngineConf

record machine =
  m_now :: time
  m_qs :: queueState
  m_threads :: "thread list"

fun spawn :: "timerFunc \<Rightarrow> thread" where
  "spawn (FireFn r) = TFire r"
| "spawn (ExpireFn r) = TExpire r"
| "spawn (TombstoneFn n) = TTombstone n"

definition release :: "nat option \<Rightarrow> thread list" where
  "release h = (case h of None \<Rightarrow> [] | Some c \<Rightarrow> [TRelease c])"

definition setUsed :: "nat \<Rightarrow> (nat \<Rightarrow> nat) \<Rightarrow> queueState \<Rightarrow> queueState" where
  "setUsed c f qs =
     qs\<lparr>qs_chans := (qs_chans qs)[c := (qs_chans qs ! c)\<lparr>ch_used := f (ch_used (qs_chans qs ! c))\<rparr>]\<rparr>"

text \<open>
  The next step of a thread: the new state of the queue and what is left of the thread, or
  \<^const>\<open>None\<close> while it is blocked on a full semaphore. \<^verbatim>\<open>limOk\<close> and \<^verbatim>\<open>resp\<close> are the environment's
  answers.
\<close>

fun advance :: "menv \<Rightarrow> bool \<Rightarrow> (string + int) \<Rightarrow> time \<Rightarrow> thread \<Rightarrow> queueState
    \<Rightarrow> (queueState \<times> thread list) option" where
  "advance env limOk resp now (TFire r) qs =
     (let (qs', res) = fire now r qs
      in Some (qs', case res of FireGo lm c \<Rightarrow> [TLimiter r c] | _ \<Rightarrow> []))"
| "advance env limOk resp now (TLimiter r c) qs = Some (qs, if limOk then [TSlot r c] else [])"
| "advance env limOk resp now (TSlot r c) qs =
     (if ch_used (qs_chans qs ! c) < ch_cap (qs_chans qs ! c)
      then Some (setUsed c Suc qs, [TAttempt r (Some c)]) else None)"
| "advance env limOk resp now (TAttempt r h) qs =
     Some (qs, case snapshotAttempt r qs of None \<Rightarrow> release h | Some snap \<Rightarrow> [TDispatch r snap now h])"
| "advance env limOk resp now (TDispatch r snap dt h) qs =
     (let (rpcCode, httpCode, message) =
            dispatch (me_gl env) (me_token env) (\<lambda>_ _. resp) (eng_defaultAppEngineHost (me_eng env))
              (snap_queue snap) (snap_task snap) (snap_info snap);
          att = \<lparr>att_ScheduleTime = snap_scheduled snap, att_DispatchTime = dt,
                 att_ResponseTime = now, att_Code = rpcCode, att_Message = message\<rparr>
      in Some (qs, [TApply r att dt rpcCode httpCode message h]))"
| "advance env limOk resp now (TApply r att dt rpcCode httpCode message h) qs =
     Some (applyAttempt (me_oob env) (me_eng env) now r att dt rpcCode httpCode message qs, release h)"
| "advance env limOk resp now (TRelease c) qs = Some (setUsed c (\<lambda>n. n - 1) qs, [])"
| "advance env limOk resp now (TExpire r) qs = Some (expire (me_eng env) now r qs, [])"
| "advance env limOk resp now (TTombstone n) qs = Some (tombstoneExpire now n qs, [])"

text \<open>
  What API calls do to the queue; \<^verbatim>\<open>ApiNextTaskID\<close> is the part of \<^verbatim>\<open>CreateTask\<close> that numbers an unnamed
  task, which the code runs before it takes the queue's lock.
\<close>

datatype apiop =
    ApiNextTaskID
  | ApiCreateTask Task
  | ApiDeleteTask string
  | ApiRunTask string
  | ApiPurgeQueue
  | ApiSetState State
  | ApiUpdateQueue Queue "QueueField list"
  | ApiStop

fun apiExec :: "menv \<Rightarrow> time \<Rightarrow> apiop \<Rightarrow> queueState \<Rightarrow> queueState \<times> thread list" where
  "apiExec env now ApiNextTaskID qs = (fst (nextTaskID now qs), [])"
| "apiExec env now (ApiCreateTask t) qs = (fst (createTaskLocked (me_eng env) now t qs), [])"
| "apiExec env now (ApiDeleteTask n) qs = (fst (deleteTaskLocked (me_eng env) now n qs), [])"
| "apiExec env now (ApiRunTask n) qs =
     (let (qs', res) = runTaskLocked now n qs
      in (qs', case res of Inr r \<Rightarrow> [TAttempt r None] | Inl _ \<Rightarrow> []))"
| "apiExec env now ApiPurgeQueue qs = (purge (me_eng env) now qs, [])"
| "apiExec env now (ApiSetState st) qs = (fst (setStateLocked st qs), [])"
| "apiExec env now (ApiUpdateQueue q fs) qs = (fst (updateQueueLocked q fs qs), [])"
| "apiExec env now ApiStop qs = (stop qs, [])"

datatype event = Tick time | TimerFires tid | Advance nat bool "string + int" | Api apiop

fun mexec :: "menv \<Rightarrow> event \<Rightarrow> machine \<Rightarrow> machine option" where
  "mexec env (Tick t) m = (if m_now m \<le> t then Some (m\<lparr>m_now := t\<rparr>) else None)"
| "mexec env (TimerFires i) m =
     (case gget (qs_timers (m_qs m)) i of
        None \<Rightarrow> None
      | Some (due, f) \<Rightarrow>
          if due \<le> m_now m
          then Some (m\<lparr>m_qs := stopTimer (Some i) (m_qs m), m_threads := m_threads m @ [spawn f]\<rparr>)
          else None)"
| "mexec env (Advance k limOk resp) m =
     (if k < length (m_threads m)
      then case advance env limOk resp (m_now m) (m_threads m ! k) (m_qs m) of
          None \<Rightarrow> None
        | Some (qs', new) \<Rightarrow>
            Some (m\<lparr>m_qs := qs', m_threads := take k (m_threads m) @ new @ drop (Suc k) (m_threads m)\<rparr>)
      else None)"
| "mexec env (Api a) m =
     (let (qs', new) = apiExec env (m_now m) a (m_qs m)
      in Some (m\<lparr>m_qs := qs', m_threads := m_threads m @ new\<rparr>))"

abbreviation mrun :: "menv \<Rightarrow> event list \<Rightarrow> machine \<Rightarrow> machine option" where
  "mrun env \<equiv> run (mexec env)"

definition minit :: "Queue \<Rightarrow> time \<Rightarrow> machine" where
  "minit q now = \<lparr>m_now = now, m_qs = newQueueState q, m_threads = []\<rparr>"

inductive reachable :: "menv \<Rightarrow> machine \<Rightarrow> bool" for env where
  reach_init: "reachable env (minit q now)"
| reach_step: "reachable env m \<Longrightarrow> mexec env e m = Some m' \<Longrightarrow> reachable env m'"

lemma reachable_mrun: "reachable env m \<Longrightarrow> mrun env es m = Some m' \<Longrightarrow> reachable env m'"
  by (induction es arbitrary: m) (auto split: option.splits intro: reach_step)

lemma reachable_run: "reachable env m \<Longrightarrow> \<exists>q now es. mrun env es (minit q now) = Some m"
proof (induction rule: reachable.induct)
  case (reach_init q now)
  have "mrun env [] (minit q now) = Some (minit q now)" by simp
  then show ?case by blast
next
  case (reach_step m e m')
  then obtain q now es where "mrun env es (minit q now) = Some m" by blast
  with reach_step.hyps(2) have "mrun env (es @ [e]) (minit q now) = Some m'" by (simp add: run_append)
  then show ?case by blast
qed

text \<open>An environment to evaluate concrete runs in.\<close>

definition demoURL :: URL where
  "demoURL = \<lparr>u_Scheme = ''http'', u_Opaque = [], u_User = None, u_Host = ''h'', u_Path = ''/'',
     u_RawPath = [], u_OmitHost = False, u_ForceQuery = False, u_RawQuery = [], u_Fragment = [],
     u_RawFragment = []\<rparr>"

definition demoEnv :: menv where
  "demoEnv = \<lparr>me_oob = (\<lambda>_. 0),
     me_gl = \<lparr>gl_Parse = (\<lambda>s. Inr demoURL), gl_String = (\<lambda>u. ''http://h/''), gl_Quote = (\<lambda>s. s)\<rparr>,
     me_token = (\<lambda>_ _. ''t''), me_eng = demoConf\<rparr>"

section \<open>How a queue evolves\<close>

text \<open>
  What no operation ever changes: a task state stays where it is and keeps its name and kind
  of target, a removed one stays removed, the kind of the queue is fixed, and semaphores keep
  their capacity.
\<close>

definition evolves :: "queueState \<Rightarrow> queueState \<Rightarrow> bool" where
  "evolves qs qs' \<longleftrightarrow>
     length (qs_cells qs) \<le> length (qs_cells qs') \<and> q_Pull (qs_q qs') = q_Pull (qs_q qs) \<and>
     (\<forall>r < length (qs_cells qs). name_of qs' r = name_of qs r \<and>
        tg_Type (t_Target (task_of qs' r)) = tg_Type (t_Target (task_of qs r)) \<and>
        (ts_removed (cell qs r) \<longrightarrow> ts_removed (cell qs' r))) \<and>
     length (qs_chans qs) \<le> length (qs_chans qs') \<and>
     (\<forall>c < length (qs_chans qs). ch_cap (qs_chans qs' ! c) = ch_cap (qs_chans qs ! c))"

text \<open>The slots in use, and those of semaphores that were just made, are as before.\<close>

definition same_slots :: "queueState \<Rightarrow> queueState \<Rightarrow> bool" where
  "same_slots qs qs' \<longleftrightarrow>
     (\<forall>c < length (qs_chans qs). ch_used (qs_chans qs' ! c) = ch_used (qs_chans qs ! c)) \<and>
     (\<forall>c < length (qs_chans qs'). length (qs_chans qs) \<le> c \<longrightarrow> ch_used (qs_chans qs' ! c) = 0)"

lemma evolves_refl [simp]: "evolves qs qs" "same_slots qs qs"
  by (simp_all add: evolves_def same_slots_def)

lemma evolves_trans: "evolves a b \<Longrightarrow> evolves b c \<Longrightarrow> evolves a c"
  by (force simp: evolves_def)

lemma same_slots_chans: "qs_chans qs' = qs_chans qs \<Longrightarrow> same_slots qs qs'"
  by (simp add: same_slots_def)

lemma evolves_updCell:
  assumes "\<And>ts. t_Name (ts_t (g ts)) = t_Name (ts_t ts)"
    and "\<And>ts. tg_Type (t_Target (ts_t (g ts))) = tg_Type (t_Target (ts_t ts))"
    and "\<And>ts. ts_removed ts \<longrightarrow> ts_removed (g ts)"
  shows "evolves qs (updCell r g qs)"
  using assms by (auto simp: evolves_def cell_updCell)

lemma evolves_record:
  "qs_cells qs' = qs_cells qs \<Longrightarrow> qs_chans qs' = qs_chans qs \<Longrightarrow> q_Pull (qs_q qs') = q_Pull (qs_q qs) \<Longrightarrow>
     evolves qs qs'"
  by (auto simp: evolves_def cell_def)

lemma evolves_schedule: "evolves qs (schedule now r qs)"
  by (simp add: evolves_def)

lemma evolves_fire: "evolves qs (fst (fire now r qs))"
  by (auto simp: fire_unfold evolves_def cell_updCell)

lemma evolves_retire: "evolves qs (retire r qs)"
  by (auto simp: evolves_def cell_retire)

lemma evolves_removeLocked: "evolves qs (removeLocked eng now r qs)"
  using evolves_retire [of qs r] by (auto simp: evolves_def removeLocked_def Let_def)

lemma evolves_attempt_states:
  "evolves qs (recorded r att dt hc qs)" "evolves qs (reasoned r hc msg qs)"
  "evolves qs (postponed oob now r qs)"
  using recordAttempt_identity
  by (auto simp: recorded_def reasoned_def postponed_def same_identity_def intro!: evolves_updCell)

lemma evolves_applyAttempt: "evolves qs (applyAttempt oob eng now r att dt rc hc msg qs)"
proof -
  let ?a = "recorded r att dt hc qs"
  have a: "evolves qs ?a" "evolves qs (reasoned r hc msg ?a)"
    using evolves_attempt_states evolves_trans by blast+
  then have "evolves qs (postponed oob now r (reasoned r hc msg ?a))"
    using evolves_attempt_states(3) evolves_trans by blast
  with a show ?thesis
    by (auto simp: applyAttempt_unfold Let_def
        intro: evolves_trans [OF _ evolves_removeLocked] evolves_trans [OF _ evolves_schedule])
qed

lemma chans_applyAttempt [simp]: "qs_chans (applyAttempt oob eng now r att dt rc hc msg qs) = qs_chans qs"
  by (simp add: applyAttempt_unfold Let_def recorded_def reasoned_def postponed_def)

lemma evolves_addNewTask: "evolves qs (addNewTask eng now t qs)"
proof -
  have "ts_removed (cell (addNewTask eng now t qs) r) = ts_removed (cell qs r)"
    if "r < length (qs_cells qs)" for r
    using addNewTask_live [of eng now t qs r] that by (auto simp: live_def)
  then show ?thesis by (simp add: evolves_def addNewTask_cells)
qed

lemma retiring_evolves: "retiring R qs qs' \<Longrightarrow> evolves qs qs'"
  by (auto simp: retiring_def evolves_def live_def)

lemma evolves_purge: "qinv qs \<Longrightarrow> evolves qs (purge eng now qs)"
  using retiring_evolves [OF retiring_purge, of qs eng now]
  by (simp add: qinv_qbase purge_def Let_def evolves_def)

lemma evolves_stop: "qinv qs \<Longrightarrow> evolves qs (stop qs)"
  using retiring_evolves [OF retiring_stop, of qs] by (simp add: qinv_qbase stop_def evolves_def)

lemma chans_purge [simp]: "qinv qs \<Longrightarrow> qs_chans (purge eng now qs) = qs_chans qs"
  using retiring_purge [of qs eng now] by (simp add: qinv_qbase purge_def Let_def retiring_def)

lemma chans_stop [simp]: "qinv qs \<Longrightarrow> qs_chans (stop qs) = qs_chans qs"
  using retiring_stop [of qs] by (simp add: qinv_qbase stop_def retiring_def)

lemma rebuildLimits_slots: "evolves qs (rebuildLimits qs)" "same_slots qs (rebuildLimits qs)"
  by (auto simp: rebuildLimits_def Let_def evolves_def same_slots_def nth_append cell_def)

lemma updateQueueLocked_slots:
  "evolves qs (fst (updateQueueLocked q fs qs))" "same_slots qs (fst (updateQueueLocked q fs qs))"
proof -
  let ?p = "qs\<lparr>qs_q := applyQueueDefaults (fold (setField q) (if fs = [] then [FieldRateLimits,
      FieldRetryConfig, FieldAppEngineRoutingOverride, FieldHTTPOverride] else fs) (qs_q qs))\<rparr>"
  have p: "evolves qs ?p" by (rule evolves_record) simp_all
  have u: "fst (updateQueueLocked q fs qs) = rebuildLimits ?p"
    by (simp add: updateQueueLocked_def Let_def)
  show "evolves qs (fst (updateQueueLocked q fs qs))"
    unfolding u by (rule evolves_trans [OF p rebuildLimits_slots(1)])
  show "same_slots qs (fst (updateQueueLocked q fs qs))"
    using rebuildLimits_slots(2) [of ?p] by (simp add: u same_slots_def)
qed

lemma evolves_runTaskLocked: "evolves qs (fst (runTaskLocked now n qs))"
  by (auto simp: runTaskLocked_def evolves_def cell_updCell split: option.split)

lemma chans_runTaskLocked [simp]: "qs_chans (fst (runTaskLocked now n qs)) = qs_chans qs"
  by (simp add: runTaskLocked_def split: option.split)

lemma chans_expire [simp]: "qs_chans (expire eng now r qs) = qs_chans qs"
  by (simp add: expire_def)

lemma chans_fire [simp]: "qs_chans (fst (fire now r qs)) = qs_chans qs"
  by (simp add: fire_unfold)

lemma chans_tombstoneExpire [simp]: "qs_chans (tombstoneExpire now n qs) = qs_chans qs"
  by (simp add: tombstoneExpire_def split: option.split)

lemma evolves_tombstoneExpire: "evolves qs (tombstoneExpire now n qs)"
  by (auto simp: tombstoneExpire_def split: option.split intro: evolves_record)

lemma evolves_expire: "evolves qs (expire eng now r qs)"
  by (simp add: expire_def evolves_removeLocked)

end
