(* ===== verification/Machine_Inv.thy ===== *)
theory Machine_Inv
  imports Queue_Machine
begin

text \<open>
  What holds in every reachable state of a queue, however its timers, dispatches and API
  calls interleave.
\<close>

section \<open>Names: live or reserved, never both\<close>

definition apart :: "time \<Rightarrow> queueState \<Rightarrow> bool" where
  "apart now qs \<longleftrightarrow> (\<forall>n. tombstoned now n qs \<longrightarrow> gget (qs_tasks qs) n = None)"

text \<open>A reservation that has not run out is kept as it is.\<close>

definition reserved_kept :: "time \<Rightarrow> queueState \<Rightarrow> queueState \<Rightarrow> bool" where
  "reserved_kept now qs qs' \<longleftrightarrow>
     (\<forall>n e. gget (qs_tombstones qs) n = Some e \<longrightarrow> now < e \<longrightarrow> gget (qs_tombstones qs') n = Some e)"

lemmas names_defs = apart_def reserved_kept_def tombstoned_iff

lemma names_same:
  "qs_tasks qs' = qs_tasks qs \<Longrightarrow> qs_tombstones qs' = qs_tombstones qs \<Longrightarrow> apart now qs \<Longrightarrow>
     apart now qs' \<and> reserved_kept now qs qs'"
  by (simp add: names_defs)

lemma reserved_kept_refl [simp]: "reserved_kept now qs qs"
  by (simp add: reserved_kept_def)

lemma names_removeLocked:
  assumes "qinv qs" "apart now qs" "live qs r"
  shows "apart now (removeLocked eng now r qs) \<and> reserved_kept now qs (removeLocked eng now r qs)"
  using assms qinv_live [OF assms(1,3)]
  by (auto simp: names_defs removeLocked_tombstones gm.get_del split: if_splits)

lemma names_expire:
  "qinv qs \<Longrightarrow> apart now qs \<Longrightarrow> r < length (qs_cells qs) \<Longrightarrow>
     apart now (expire eng now r qs) \<and> reserved_kept now qs (expire eng now r qs)"
  using names_removeLocked [of qs now r eng] by (auto simp: expire_def live_def)

lemma names_fire:
  "apart now qs \<Longrightarrow> apart now (fst (fire now r qs)) \<and> reserved_kept now qs (fst (fire now r qs))"
  by (rule names_same) (simp_all add: fire_unfold)

lemma names_tombstoneExpire:
  "apart now qs \<Longrightarrow> apart now (tombstoneExpire now n qs) \<and> reserved_kept now qs (tombstoneExpire now n qs)"
  by (auto simp: names_defs tombstoneExpire_def gm.get_del split: option.split if_splits)

lemma names_addNewTask:
  "apart now qs \<Longrightarrow> \<not> tombstoned now (t_Name t) qs \<Longrightarrow>
     apart now (addNewTask eng now t qs) \<and> reserved_kept now qs (addNewTask eng now t qs)"
  by (auto simp: names_defs gm.get_set)

lemma names_purge:
  assumes "qinv qs" "apart now qs"
  shows "apart now (purge eng now qs)"
    and "\<not> eng_hardResetOnPurge eng \<Longrightarrow> reserved_kept now qs (purge eng now qs)"
proof -
  show "apart now (purge eng now qs)" using assms(1) by (simp add: apart_def purge_facts)
  have "n \<notin> set (keys_of (qs_tasks qs))" if "gget (qs_tombstones qs) n = Some e" "now < e" for n e
    using assms(2) that by (auto simp: names_defs set_keys_of)
  then show "\<not> eng_hardResetOnPurge eng \<Longrightarrow> reserved_kept now qs (purge eng now qs)"
    using assms(1) by (auto simp: names_defs purge_facts)
qed

lemma names_applyAttempt:
  assumes "qinv qs" "apart now qs" "r < length (qs_cells qs)"
  shows "apart now (applyAttempt oob eng now r att dt rc hc msg qs) \<and>
    reserved_kept now qs (applyAttempt oob eng now r att dt rc hc msg qs)"
proof (cases "ts_removed (cell qs r)")
  case True
  with assms(2) show ?thesis by (simp add: applyAttempt_unfold)
next
  case False
  let ?a = "recorded r att dt hc qs" and ?b = "reasoned r hc msg (recorded r att dt hc qs)"
  have same: "qs_tasks ?a = qs_tasks qs" "qs_tombstones ?a = qs_tombstones qs"
    "qs_tasks ?b = qs_tasks qs" "qs_tombstones ?b = qs_tombstones qs"
    by (simp_all add: recorded_def reasoned_def)
  have "live ?a r" "live ?b r" using False assms(3) by (simp_all add: live_def [of qs])
  then have "apart now (removeLocked eng now r ?a) \<and> reserved_kept now ?a (removeLocked eng now r ?a)"
    "apart now (removeLocked eng now r ?b) \<and> reserved_kept now ?b (removeLocked eng now r ?b)"
    using assms same
    by (intro names_removeLocked; simp add: qinv_recorded qinv_reasoned names_defs)+
  with same False assms(2) show ?thesis
    by (simp add: applyAttempt_unfold Let_def reserved_kept_def) (simp add: postponed_def names_defs)
qed

section \<open>Threads and the slots they hold\<close>

fun working :: "thread \<Rightarrow> tref option" where
  "working (TFire r) = Some r"
| "working (TLimiter r c) = Some r"
| "working (TSlot r c) = Some r"
| "working (TAttempt r h) = Some r"
| "working (TDispatch r snap dt h) = Some r"
| "working (TApply r att dt rc hc msg h) = Some r"
| "working _ = None"

fun holding :: "thread \<Rightarrow> nat option" where
  "holding (TAttempt r h) = h"
| "holding (TDispatch r snap dt h) = h"
| "holding (TApply r att dt rc hc msg h) = h"
| "holding (TRelease c) = Some c"
| "holding _ = None"

fun thread_ok :: "queueState \<Rightarrow> thread \<Rightarrow> bool" where
  "thread_ok qs (TFire r) = fn_ok qs (FireFn r)"
| "thread_ok qs (TLimiter r c) \<longleftrightarrow> fn_ok qs (FireFn r) \<and> c < length (qs_chans qs)"
| "thread_ok qs (TSlot r c) \<longleftrightarrow> fn_ok qs (FireFn r) \<and> c < length (qs_chans qs)"
| "thread_ok qs (TAttempt r h) \<longleftrightarrow> fn_ok qs (FireFn r) \<and> pred_option (\<lambda>c. c < length (qs_chans qs)) h"
| "thread_ok qs (TDispatch r snap dt h) \<longleftrightarrow> fn_ok qs (FireFn r) \<and>
     pred_option (\<lambda>c. c < length (qs_chans qs)) h \<and>
     \<not> q_Pull (snap_queue snap) \<and> tg_Type (t_Target (snap_task snap)) \<noteq> TargetPull \<and>
     t_Name (snap_task snap) = name_of qs r"
| "thread_ok qs (TApply r att dt rc hc msg h) \<longleftrightarrow> fn_ok qs (FireFn r) \<and>
     pred_option (\<lambda>c. c < length (qs_chans qs)) h"
| "thread_ok qs (TRelease c) \<longleftrightarrow> c < length (qs_chans qs)"
| "thread_ok qs (TExpire r) \<longleftrightarrow> r < length (qs_cells qs)"
| "thread_ok qs (TTombstone n) \<longleftrightarrow> True"

definition holders :: "nat \<Rightarrow> thread list \<Rightarrow> nat" where
  "holders c ths = length (filter (\<lambda>th. holding th = Some c) ths)"

definition used :: "queueState \<Rightarrow> nat \<Rightarrow> nat" where
  "used qs c = (if c < length (qs_chans qs) then ch_used (qs_chans qs ! c) else 0)"

lemma holders_simps [simp]:
  "holders c [] = 0" "holders c (xs @ ys) = holders c xs + holders c ys"
  "holders c (th # ths) = (if holding th = Some c then 1 else 0) + holders c ths"
  by (simp_all add: holders_def)

lemma fn_ok_evolves: "evolves qs qs' \<Longrightarrow> fn_ok qs f \<Longrightarrow> fn_ok qs' f"
  by (auto simp: evolves_def fn_ok_def split: timerFunc.splits)

lemma thread_ok_evolves:
  assumes "evolves qs qs'" and "thread_ok qs th" shows "thread_ok qs' th"
proof -
  have f: "\<And>f. fn_ok qs f \<Longrightarrow> fn_ok qs' f" using fn_ok_evolves [OF assms(1)] by blast
  have c: "c < length (qs_chans qs) \<Longrightarrow> c < length (qs_chans qs')" for c
    using assms(1) by (simp add: evolves_def)
  have n: "fn_ok qs (FireFn r) \<Longrightarrow> name_of qs' r = name_of qs r" for r
    using assms(1) by (simp add: evolves_def fn_ok_def)
  have r: "r < length (qs_cells qs) \<Longrightarrow> r < length (qs_cells qs')" for r
    using assms(1) by (simp add: evolves_def)
  show ?thesis using assms(2) by (cases th) (auto simp: n dest: f c r elim!: option.pred_mono_strong)
qed

lemma setUsed_facts:
  assumes "c < length (qs_chans qs)"
  shows "evolves qs (setUsed c f qs)"
    "used (setUsed c f qs) c' = (if c' = c then f (used qs c) else used qs c')"
    "qs_tasks (setUsed c f qs) = qs_tasks qs" "qs_tombstones (setUsed c f qs) = qs_tombstones qs"
  using assms by (auto simp: setUsed_def evolves_def cell_def used_def nth_list_update)

lemma qinv_chan:
  "qinv qs \<Longrightarrow> c < length (qs_chans qs) \<Longrightarrow>
     1 \<le> ch_cap (qs_chans qs ! c) \<and> used qs c \<le> ch_cap (qs_chans qs ! c)"
  by (simp add: qinv_def qbase_def chans_ok_def used_def)

lemma qinv_setUsed:
  assumes "qinv qs" and "c < length (qs_chans qs)" and "f (used qs c) \<le> ch_cap (qs_chans qs ! c)"
  shows "qinv (setUsed c f qs)"
proof -
  have "1 \<le> ch_cap x \<and> ch_used x \<le> ch_cap x" if x: "x \<in> set (qs_chans (setUsed c f qs))" for x
  proof -
    obtain i where i: "i < length (qs_chans qs)" "x = qs_chans (setUsed c f qs) ! i"
      using x by (auto simp: in_set_conv_nth setUsed_def)
    with assms qinv_chan [OF assms(1) i(1)] show ?thesis
      by (cases "i = c") (simp_all add: setUsed_def used_def)
  qed
  moreover have "fn_ok (setUsed c f qs) g = fn_ok qs g" for g
    by (simp add: setUsed_def fn_ok_def cell_def split: timerFunc.split)
  moreover have "cell (setUsed c f qs) r = cell qs r" for r by (simp add: setUsed_def cell_def)
  ultimately show ?thesis
    using assms(1) by (auto simp: qinv_def qbase_defs setUsed_def)
qed

lemma used_frame [simp]:
  "used (fst (fire now r qs)) c = used qs c"
  "used (applyAttempt oob eng now r att dt rc hc msg qs) c = used qs c"
  "used (expire eng now r qs) c = used qs c"
  "used (tombstoneExpire now n qs) c = used qs c"
  by (simp_all add: used_def)

lemma used_same_slots: "evolves qs qs' \<Longrightarrow> same_slots qs qs' \<Longrightarrow> used qs' c = used qs c"
  by (auto simp: used_def same_slots_def evolves_def)

section \<open>One step\<close>

lemma snapshotAttempt_facts:
  "snapshotAttempt r qs = Some snap \<Longrightarrow>
     snap_queue snap = qs_q qs \<and> t_Name (snap_task snap) = name_of qs r \<and>
     tg_Type (t_Target (snap_task snap)) = tg_Type (t_Target (task_of qs r))"
  by (auto simp: snapshotAttempt_def Let_def cloneTask_def split: if_splits)

lemma snapshotAttempt_None_iff: "snapshotAttempt r qs = None \<longleftrightarrow> ts_removed (cell qs r)"
  by (simp add: snapshotAttempt_def Let_def)

lemma release_facts [simp]:
  "holders c (release h) = (if h = Some c then 1 else 0)"
  "pred_option (\<lambda>c. c < length (qs_chans qs)) h \<Longrightarrow> th \<in> set (release h) \<Longrightarrow> thread_ok qs th"
  by (auto simp: release_def split: option.splits)

lemma fire_result: "snd (fire now r qs) = FireGo lm c \<Longrightarrow> c = qs_concurrency qs \<and> fst (fire now r qs) = qs"
  by (auto simp: fire_unfold split: if_splits)

lemma qinv_concurrency: "qinv qs \<Longrightarrow> qs_concurrency qs < length (qs_chans qs)"
  by (simp add: qinv_def qbase_def chans_ok_def)

text \<open>A thread's step keeps the queue's invariant, and what is left of it is well formed.\<close>

lemma advance_queue:
  assumes inv: "qinv qs" and ok: "thread_ok qs th"
    and adv: "advance env limOk resp now th qs = Some (qs', new)"
  shows "qinv qs'" and "evolves qs qs'" and "\<forall>t \<in> set new. thread_ok qs' t"
proof -
  have cap: "ch_used (qs_chans qs ! c) - Suc 0 \<le> ch_cap (qs_chans qs ! c)"
    if "c < length (qs_chans qs)" for c
    using qinv_chan [OF inv that] that by (simp add: used_def) linarith
  show ev: "evolves qs qs'"
    using ok adv
    by (cases th) (auto simp: split_beta Let_def setUsed_facts evolves_fire evolves_applyAttempt
        evolves_expire evolves_tombstoneExpire split: if_splits)
  show "qinv qs'"
    using inv ok adv
    by (cases th) (auto simp: split_beta Let_def fn_ok_def used_def qinv_tombstoneExpire
        intro!: qinv_setUsed qinv_fire qinv_applyAttempt qinv_expire cap
        split: if_splits)
  show "\<forall>t \<in> set new. thread_ok qs' t"
  proof (cases th)
    case (TFire r)
    with adv have new: "new = [] \<or> (qs' = qs \<and> new = [TLimiter r (qs_concurrency qs)])"
      by (auto simp: split_beta dest: fire_result split: fireResult.splits)
    with TFire ok qinv_concurrency [OF inv] show ?thesis by auto
  qed (use ok adv in \<open>auto simp: split_beta Let_def setUsed_def fn_ok_def cell_def
        snapshotAttempt_facts thread_ok_evolves [OF ev] split: if_splits option.splits\<close>)
qed

text \<open>Slots move with the threads: a step gains or loses exactly the slot it takes or returns.\<close>

lemma advance_slots:
  assumes ok: "thread_ok qs th" and adv: "advance env limOk resp now th qs = Some (qs', new)"
    and held: "\<And>c. holding th = Some c \<Longrightarrow> 1 \<le> used qs c"
  shows "used qs' c + holders c [th] = used qs c + holders c new"
proof (cases th)
  case (TFire r)
  with adv show ?thesis
    by (auto simp: split_beta split: fireResult.splits)
next
  case (TSlot r c')
  with adv ok show ?thesis
    by (cases "c' = c") (auto simp: setUsed_facts(2) split: if_splits)
next
  case (TAttempt r h)
  with adv show ?thesis by (auto split: option.splits)
next
  case (TApply r att dt rc hc msg h)
  with adv show ?thesis by auto
next
  case (TRelease c')
  with adv ok held [of c'] show ?thesis
    by (cases "c' = c") (auto simp: setUsed_facts(2))
qed (use adv in \<open>auto simp: split_beta Let_def\<close>)

lemma advance_names:
  assumes inv: "qinv qs" and ok: "thread_ok qs th" and "apart now qs"
    and adv: "advance env limOk resp now th qs = Some (qs', new)"
  shows "apart now qs' \<and> reserved_kept now qs qs'"
proof -
  have same: "apart now qs \<and> reserved_kept now qs qs" using assms(3) by simp
  show ?thesis
  proof (cases th)
    case (TFire r)
    then show ?thesis using adv names_fire [OF assms(3), of r] by (auto simp: split_beta)
  next
    case (TSlot r c)
    then show ?thesis using adv ok names_same [OF setUsed_facts(3,4) assms(3), of c Suc]
      by (auto split: if_splits)
  next
    case (TApply r att dt rc hc msg h)
    then have "r < length (qs_cells qs)" using ok by (simp add: fn_ok_def)
    then show ?thesis using TApply adv names_applyAttempt [OF inv assms(3)] by auto
  next
    case (TRelease c)
    then show ?thesis using adv ok names_same [OF setUsed_facts(3,4) assms(3), of c "\<lambda>n. n - 1"] by auto
  next
    case (TExpire r)
    then show ?thesis using adv ok names_expire [OF inv assms(3)] by auto
  next
    case (TTombstone n)
    then show ?thesis using adv names_tombstoneExpire [OF assms(3)] by auto
  qed (use adv same in \<open>auto simp: Let_def split_beta\<close>)
qed

lemma apiExec_queue:
  assumes inv: "qinv qs" and api: "apiExec env now a qs = (qs', new)"
  shows "qinv qs'" and "evolves qs qs'" and "used qs' c = used qs c" and "holders c new = 0"
    and "\<forall>t \<in> set new. thread_ok qs' t"
proof -
  have ev: "evolves qs qs' \<and> same_slots qs qs'"
  proof (cases a)
    case ApiNextTaskID
    then show ?thesis using api by (auto simp: same_slots_chans intro: evolves_record)
  next
    case (ApiCreateTask t)
    then show ?thesis using api evolves_addNewTask
      by (auto simp: createTaskLocked_def same_slots_chans)
  next
    case (ApiDeleteTask n)
    then show ?thesis using api
      by (auto simp: deleteTaskLocked_def same_slots_chans evolves_removeLocked split: option.split)
  next
    case (ApiRunTask n)
    then show ?thesis using api evolves_runTaskLocked [of qs now n]
      by (auto simp: split_beta same_slots_chans)
  next
    case (ApiSetState st)
    then show ?thesis using api
      by (auto simp: setStateLocked_def Let_def same_slots_chans intro: evolves_record)
  next
    case (ApiUpdateQueue q fs)
    then show ?thesis using api updateQueueLocked_slots by auto
  qed (use api inv in \<open>auto simp: same_slots_chans evolves_purge evolves_stop\<close>)
  then show "evolves qs qs'" "used qs' c = used qs c" by (simp_all add: used_same_slots)
  show "qinv qs'"
    using inv api by (cases a) (auto simp: split_beta intro: inv_intros)
  show "holders c new = 0"
    using api by (cases a) (auto simp: split_beta split: sum.splits)
  have "thread_ok qs' th" if "th \<in> set new" for th
  proof -
    from that api obtain n r where run: "snd (runTaskLocked now n qs) = Inr r" "th = TAttempt r None"
      by (cases a) (auto simp: split_beta split: sum.splits)
    then have "\<not> q_Pull (qs_q qs)" "tg_Type (t_Target (task_of qs r)) \<noteq> TargetPull"
      "gget (qs_tasks qs) n = Some r"
      by (auto simp: runTaskLocked_def split: if_splits option.splits)
    then have "thread_ok qs th"
      using qinv_lookup [OF inv] run(2) by (auto simp: fn_ok_def live_def)
    then show ?thesis using ev thread_ok_evolves by blast
  qed
  then show "\<forall>t \<in> set new. thread_ok qs' t" by blast
qed

lemma apiExec_names:
  assumes inv: "qinv qs" and apart: "apart now qs" and api: "apiExec env now a qs = (qs', new)"
  shows "apart now qs'" and "\<not> eng_hardResetOnPurge (me_eng env) \<Longrightarrow> reserved_kept now qs qs'"
proof -
  have "apart now qs' \<and> (\<not> eng_hardResetOnPurge (me_eng env) \<longrightarrow> reserved_kept now qs qs')"
  proof (cases a)
    case ApiNextTaskID
    then show ?thesis using api names_same [OF _ _ apart, of qs'] by auto
  next
    case (ApiCreateTask t)
    then show ?thesis using api apart
      by (auto simp: createTaskLocked_def names_addNewTask)
  next
    case (ApiDeleteTask n)
    then show ?thesis using api apart qinv_lookup [OF inv, of n]
      by (auto simp: deleteTaskLocked_def names_removeLocked [OF inv apart] split: option.splits)
  next
    case ApiPurgeQueue
    then show ?thesis using api names_purge [OF inv apart, of "me_eng env"] by auto
  next
    case ApiStop
    then have "qs_tasks qs' = []" "qs_tombstones qs' = qs_tombstones qs"
      using api fold_invariant [where P = "\<lambda>s. qs_tombstones s = qs_tombstones qs" and f = retire
          and Q = "\<lambda>_. True" and xs = "map snd (qs_tasks qs)" and s = qs]
      by (auto simp: stop_def)
    then show ?thesis by (simp add: names_defs)
  next
    case (ApiRunTask n)
    then have "qs_tasks qs' = qs_tasks qs" "qs_tombstones qs' = qs_tombstones qs"
      using api by (auto simp: split_beta runTaskLocked_def split: option.splits)
    then show ?thesis using names_same [OF _ _ apart] by blast
  next
    case (ApiSetState st)
    then show ?thesis using api names_same [OF _ _ apart, of qs']
      by (auto simp: setStateLocked_def Let_def)
  next
    case (ApiUpdateQueue q fs)
    then show ?thesis using api names_same [OF _ _ apart, of qs']
      by (auto simp: updateQueueLocked_def Let_def rebuildLimits_def)
  qed
  then show "apart now qs'" "\<not> eng_hardResetOnPurge (me_eng env) \<Longrightarrow> reserved_kept now qs qs'"
    by blast+
qed

section \<open>Every reachable state\<close>

definition minv :: "machine \<Rightarrow> bool" where
  "minv m \<longleftrightarrow> qinv (m_qs m) \<and> (\<forall>th \<in> set (m_threads m). thread_ok (m_qs m) th) \<and>
     (\<forall>c. used (m_qs m) c = holders c (m_threads m)) \<and> apart (m_now m) (m_qs m)"

text \<open>How a later state of a run relates to an earlier one.\<close>

definition mlater :: "menv \<Rightarrow> machine \<Rightarrow> machine \<Rightarrow> bool" where
  "mlater env m m' \<longleftrightarrow> m_now m \<le> m_now m' \<and> evolves (m_qs m) (m_qs m') \<and>
     (\<not> eng_hardResetOnPurge (me_eng env) \<longrightarrow> reserved_kept (m_now m') (m_qs m) (m_qs m'))"

lemma minv_init: "minv (minit q now)"
  by (simp add: minv_def minit_def qinv_newQueueState)
    (simp add: used_def apart_def newQueueState_def rebuildLimits_def Let_def)

lemma apart_later: "apart now qs \<Longrightarrow> now \<le> later \<Longrightarrow> apart later qs"
  by (auto simp: names_defs)

lemma holders_replace:
  assumes "k < length ths"
  shows "holders c (take k ths @ new @ drop (Suc k) ths) + holders c [ths ! k] = holders c ths + holders c new"
proof -
  have "holders c ths = holders c (take k ths @ ths ! k # drop (Suc k) ths)"
    using id_take_nth_drop [OF assms] by simp
  then show ?thesis by simp
qed

lemma spawn_ok: "fn_ok qs f \<Longrightarrow> thread_ok qs (spawn f)" "holding (spawn f) = None"
  by (cases f; simp add: fn_ok_def)+

lemma evolves_stopTimer: "evolves qs (stopTimer h qs)"
  by (rule evolves_record) simp_all

lemma reserved_kept_trans:
  "reserved_kept now a b \<Longrightarrow> reserved_kept later b c \<Longrightarrow> now \<le> later \<Longrightarrow> reserved_kept later a c"
  unfolding reserved_kept_def by (meson le_less_trans)

lemma mexec_step:
  assumes inv: "minv m" and step: "mexec env e m = Some m'"
  shows "minv m' \<and> mlater env m m'"
proof (cases e)
  case (Tick t)
  with inv step show ?thesis
    by (auto simp: minv_def mlater_def apart_later split: if_splits)
next
  case (TimerFires i)
  with step obtain due f where t: "gget (qs_timers (m_qs m)) i = Some (due, f)"
    "m' = m\<lparr>m_qs := stopTimer (Some i) (m_qs m), m_threads := m_threads m @ [spawn f]\<rparr>"
    by (auto split: option.splits if_splits)
  have "fn_ok (m_qs m) f" using inv t(1) by (auto simp: minv_def qinv_def qbase_def timers_ok_def)
  moreover have "apart (m_now m) (stopTimer (Some i) (m_qs m)) \<and>
      reserved_kept (m_now m) (m_qs m) (stopTimer (Some i) (m_qs m))"
    using inv by (intro names_same) (simp_all add: minv_def)
  moreover have "used (stopTimer (Some i) (m_qs m)) c = used (m_qs m) c" for c
    by (simp add: used_def)
  ultimately show ?thesis
    using inv t(2) thread_ok_evolves [OF evolves_stopTimer] spawn_ok(1) [of "m_qs m" f] spawn_ok(2) [of f]
    by (auto simp: minv_def mlater_def qinv_stopTimer evolves_stopTimer)
next
  case (Advance k limOk resp)
  let ?th = "m_threads m ! k"
  from Advance step obtain qs' new where k: "k < length (m_threads m)"
    and adv: "advance env limOk resp (m_now m) ?th (m_qs m) = Some (qs', new)"
    and m': "m' = m\<lparr>m_qs := qs', m_threads := take k (m_threads m) @ new @ drop (Suc k) (m_threads m)\<rparr>"
    by (auto split: if_splits option.splits)
  have q: "qinv (m_qs m)" and ok: "thread_ok (m_qs m) ?th" and ap: "apart (m_now m) (m_qs m)"
    and u: "\<And>c. used (m_qs m) c = holders c (m_threads m)"
    and all: "\<forall>th \<in> set (m_threads m). thread_ok (m_qs m) th"
    using inv k by (simp_all add: minv_def)
  have held: "1 \<le> used (m_qs m) c" if "holding ?th = Some c" for c
    using holders_replace [OF k, of c "[]"] that u by simp
  note step = advance_queue [OF q ok adv] advance_names [OF q ok ap adv]
  have "used qs' c = holders c (m_threads m')" for c
    using advance_slots [OF ok adv held, of c] holders_replace [OF k, of c new] u [of c]
    by (simp add: m')
  moreover have "\<forall>th \<in> set (m_threads m'). thread_ok qs' th"
    using thread_ok_evolves [OF step(2)] step(3) all m'
    by (auto dest: in_set_takeD in_set_dropD)
  ultimately show ?thesis using step by (simp add: minv_def mlater_def m')
next
  case (Api a)
  obtain qs' new where api: "apiExec env (m_now m) a (m_qs m) = (qs', new)" by fastforce
  with Api step have m': "m' = m\<lparr>m_qs := qs', m_threads := m_threads m @ new\<rparr>" by simp
  have q: "qinv (m_qs m)" and ap: "apart (m_now m) (m_qs m)" using inv by (simp_all add: minv_def)
  note eff = apiExec_queue [OF q api] apiExec_names [OF q ap api]
  then show ?thesis
    using inv thread_ok_evolves [OF eff(2)] by (auto simp: minv_def mlater_def m')
qed

interpretation qm: evolving_system "mexec env" minv "mlater env" for env
proof
  show "minv s \<Longrightarrow> mexec env e s = Some s' \<Longrightarrow> minv s'"
    and "minv s \<Longrightarrow> mexec env e s = Some s' \<Longrightarrow> mlater env s s'" for s e s'
    using mexec_step by blast+
  show "mlater env s s" for s by (simp add: mlater_def)
  show "mlater env s s' \<Longrightarrow> mlater env s' s'' \<Longrightarrow> mlater env s s''" for s s' s''
    using evolves_trans reserved_kept_trans by (auto simp: mlater_def)
qed

lemma reachable_minv: "reachable env m \<Longrightarrow> minv m"
  by (induction rule: reachable.induct) (auto simp: minv_init intro: qm.step_inv)

end
