(* ===== verification/Machine_Live.thy ===== *)
theory Machine_Live
  imports Machine_Inv
begin

text \<open>
  No task is stranded: in every reachable state of a queue, a task that is still there and
  may be dispatched has a pending dispatch timer or a goroutine working on it, as long as
  waiting for the limiter does not fail.
\<close>

section \<open>Armed tasks\<close>

definition armed :: "queueState \<Rightarrow> tref \<Rightarrow> bool" where
  "armed qs r \<longleftrightarrow> (\<exists>i d. gget (qs_timers qs) i = Some (d, FireFn r))"

definition keeps_armed :: "queueState \<Rightarrow> queueState \<Rightarrow> bool" where
  "keeps_armed qs qs' \<longleftrightarrow> (\<forall>r. armed qs r \<longrightarrow> live qs' r \<longrightarrow> armed qs' r)"

lemma keeps_armed_refl [simp]: "keeps_armed qs qs"
  by (simp add: keeps_armed_def)

lemma armed_frame [simp]:
  "armed (updCell r' g qs) r = armed qs r"
  "armed (qs\<lparr>qs_tasks := x1\<rparr>) r = armed qs r"
  "armed (qs\<lparr>qs_tombstones := x2\<rparr>) r = armed qs r"
  "armed (qs\<lparr>qs_q := x3\<rparr>) r = armed qs r"
  "armed (qs\<lparr>qs_cells := x4\<rparr>) r = armed qs r"
  "armed (setUsed c f qs) r = armed qs r"
  "armed (recorded r' att dt hc qs) r = armed qs r"
  "armed (reasoned r' hc msg qs) r = armed qs r"
  "armed (postponed oob now r' qs) r = armed qs r"
  "armed (rebuildLimits qs) r = armed qs r"
  by (simp_all add: armed_def setUsed_def recorded_def reasoned_def postponed_def rebuildLimits_def Let_def)

lemma armed_tombstoneExpire [simp]: "armed (tombstoneExpire now n qs) r = armed qs r"
  by (simp add: tombstoneExpire_def split: option.split)

text \<open>Timer identities that were not handed out yet are not in use.\<close>

definition fresh_tids :: "queueState \<Rightarrow> bool" where
  "fresh_tids qs \<longleftrightarrow> (\<forall>i \<ge> qs_nextTid qs. gget (qs_timers qs) i = None)"

lemma timers_ok_fresh: "timers_ok qs \<Longrightarrow> fresh_tids qs"
  unfolding fresh_tids_def
proof (intro allI impI)
  fix i assume "timers_ok qs" "qs_nextTid qs \<le> i"
  then show "gget (qs_timers qs) i = None"
    by (cases "gget (qs_timers qs) i") (fastforce simp: timers_ok_def)+
qed

lemma fresh_tids_frame [simp]:
  "fresh_tids (updCell r g qs) = fresh_tids qs"
  "fresh_tids (qs\<lparr>qs_cells := x1, qs_tasks := x2\<rparr>) = fresh_tids qs"
  "fresh_tids qs \<Longrightarrow> fresh_tids (fst (afterFunc now d f qs))"
  by (simp_all add: fresh_tids_def gm.get_set)

lemma armed_afterFunc:
  "fresh_tids qs \<Longrightarrow> armed (fst (afterFunc now d f qs)) r \<longleftrightarrow> armed qs r \<or> f = FireFn r"
  by (auto simp: armed_def gm.get_set fresh_tids_def) (metis le_refl option.distinct(1))

lemma armed_schedule:
  assumes "fresh_tids qs"
  shows "armed (schedule now r qs) r' \<longleftrightarrow> armed qs r' \<or> (r' = r \<and>
    \<not> (ts_removed (cell qs r) \<or> q_Pull (qs_q qs) \<or> tg_Type (t_Target (task_of qs r)) = TargetPull))"
  using assms by (auto simp: schedule_unfold armed_afterFunc)

lemma armed_schedule_live:
  "fresh_tids qs \<Longrightarrow> live qs r \<Longrightarrow> fn_ok qs (FireFn r) \<Longrightarrow> armed (schedule now r qs) r"
  by (simp add: armed_schedule live_def fn_ok_def)

lemma armed_addNewTask:
  assumes "fresh_tids qs"
  shows "armed (addNewTask eng now t qs) r \<longleftrightarrow> armed qs r \<or>
    (r = length (qs_cells qs) \<and> \<not> q_Pull (qs_q qs) \<and> tg_Type (t_Target t) \<noteq> TargetPull)"
proof -
  have new: "cell (qs\<lparr>qs_cells := qs_cells qs @ [newTaskState t]\<rparr>) (length (qs_cells qs)) = newTaskState t"
    by (simp add: cell_def)
  show ?thesis
    using assms new unfolding addNewTask_def addTask_def Let_def split_beta
    by (subst armed_schedule) (auto simp: armed_afterFunc newTaskState_def)
qed

lemma armed_fire:
  assumes "fresh_tids qs"
  shows "armed qs r' \<Longrightarrow> armed (fst (fire now r qs)) r'"
    and "snd (fire now r qs) = FireHeld \<Longrightarrow> armed (fst (fire now r qs)) r"
  using assms by (auto simp: fire_unfold armed_afterFunc split: if_splits)

lemma armed_retire:
  assumes "handles_ok qs" "r' < length (qs_cells qs)" "r \<noteq> r'" "armed qs r"
  shows "armed (retire r' qs) r"
proof -
  obtain i d where i: "gget (qs_timers qs) i = Some (d, FireFn r)"
    using assms(4) by (auto simp: armed_def)
  have "owned qs (ts_timer (cell qs r')) (FireFn r')" "owned qs (ts_ttlTimer (cell qs r')) (ExpireFn r')"
    using assms(1,2) by (simp_all add: handles_ok_def)
  then have "ts_timer (cell qs r') \<noteq> Some i" "ts_ttlTimer (cell qs r') \<noteq> Some i"
    using i assms(3) by (auto simp: owned_def)
  then have "gget (qs_timers (retire r' qs)) i = Some (d, FireFn r)"
    using i by (simp add: retire_def Let_def stopTimer_timers)
  then show ?thesis by (auto simp: armed_def)
qed

lemma armed_tombstoneLocked: "fresh_tids qs \<Longrightarrow> armed (tombstoneLocked eng now n qs) r = armed qs r"
  by (simp add: tombstoneLocked_def Let_def armed_afterFunc fresh_tids_def)

lemma qinv_timers: "qinv qs \<Longrightarrow> fresh_tids qs" "qinv qs \<Longrightarrow> handles_ok qs"
  by (simp_all add: qinv_def qbase_def timers_ok_fresh)

lemma armed_removeLocked:
  assumes "qinv qs" "r' < length (qs_cells qs)" "r \<noteq> r'" "armed qs r"
  shows "armed (removeLocked eng now r' qs) r"
proof -
  have "fresh_tids (retire r' qs)"
    using qbase_retire [OF qinv_qbase [OF assms(1)]] by (simp add: qbase_def timers_ok_fresh)
  then have "fresh_tids ((retire r' qs)\<lparr>qs_tasks := x\<rparr>)" for x by (simp add: fresh_tids_def)
  then show ?thesis
    using armed_retire [OF qinv_timers(2)] assms
    by (simp add: removeLocked_def Let_def armed_tombstoneLocked)
qed

lemma keeps_removeLocked: "qinv qs \<Longrightarrow> r' < length (qs_cells qs) \<Longrightarrow> keeps_armed qs (removeLocked eng now r' qs)"
  using armed_removeLocked [of qs r'] by (auto simp: keeps_armed_def)

lemma keeps_expire: "qinv qs \<Longrightarrow> r' < length (qs_cells qs) \<Longrightarrow> keeps_armed qs (expire eng now r' qs)"
  by (simp add: expire_def keeps_removeLocked)

lemma applyAttempt_armed:
  assumes "qinv qs" "fn_ok qs (FireFn r)"
  shows "keeps_armed qs (applyAttempt oob eng now r att dt rc hc msg qs)"
    and "live (applyAttempt oob eng now r att dt rc hc msg qs) r \<Longrightarrow>
      armed (applyAttempt oob eng now r att dt rc hc msg qs) r"
proof -
  let ?a = "recorded r att dt hc qs" and ?b = "reasoned r hc msg (recorded r att dt hc qs)"
  let ?c = "postponed oob now r ?b"
  have len: "r < length (qs_cells qs)" using assms(2) by (simp add: fn_ok_def)
  have inv: "qinv ?a" "qinv ?b" "qinv ?c"
    using assms(1) by (simp_all add: qinv_recorded qinv_reasoned qinv_postponed)
  have "keeps_armed qs (removeLocked eng now r ?a)" "keeps_armed qs (removeLocked eng now r ?b)"
    using keeps_removeLocked [OF inv(1)] keeps_removeLocked [OF inv(2)] len
    by (simp_all add: keeps_armed_def)
  moreover have "keeps_armed qs (schedule now r ?c)"
    using armed_schedule [OF qinv_timers(1) [OF inv(3)]] by (simp add: keeps_armed_def)
  ultimately show "keeps_armed qs (applyAttempt oob eng now r att dt rc hc msg qs)"
    by (simp add: applyAttempt_unfold Let_def)
  have "evolves qs ?c" 
    by (rule evolves_trans [OF evolves_trans [OF evolves_attempt_states(1,2)] evolves_attempt_states(3)])
  then have "fn_ok ?c (FireFn r)" using assms(2) fn_ok_evolves by blast
  then have "live ?c r \<Longrightarrow> armed (schedule now r ?c) r"
    using armed_schedule_live [OF qinv_timers(1) [OF inv(3)]] by blast
  moreover have "live (schedule now r ?c) r = live ?c r" by (simp add: live_def)
  ultimately show "live (applyAttempt oob eng now r att dt rc hc msg qs) r \<Longrightarrow>
      armed (applyAttempt oob eng now r att dt rc hc msg qs) r"
    by (auto simp: applyAttempt_unfold Let_def live_def [of qs] split: if_splits)
qed

section \<open>Covered tasks\<close>

text \<open>Every dispatchable task that is still there is armed or has a thread working on it.\<close>

definition covered :: "machine \<Rightarrow> bool" where
  "covered m \<longleftrightarrow>
     (\<forall>r. live (m_qs m) r \<longrightarrow> fn_ok (m_qs m) (FireFn r) \<longrightarrow>
        armed (m_qs m) r \<or> (\<exists>th \<in> set (m_threads m). working th = Some r))"

text \<open>The events in which waiting for the limiter succeeds.\<close>

fun served :: "event \<Rightarrow> bool" where
  "served (Advance k limOk resp) = limOk"
| "served _ = True"

lemma evolves_live: "evolves qs qs' \<Longrightarrow> r < length (qs_cells qs) \<Longrightarrow> live qs' r \<Longrightarrow> live qs r"
  by (auto simp: evolves_def live_def)

lemma evolves_fn: "evolves qs qs' \<Longrightarrow> r < length (qs_cells qs) \<Longrightarrow> fn_ok qs' (FireFn r) \<Longrightarrow> fn_ok qs (FireFn r)"
  by (simp add: evolves_def fn_ok_def)

lemma advance_cells:
  "advance env limOk resp now th qs = Some (qs', new) \<Longrightarrow> length (qs_cells qs') = length (qs_cells qs)"
  by (cases th) (auto simp: split_beta Let_def fire_unfold setUsed_def expire_def
      applyAttempt_unfold tombstoneExpire_def split: if_splits option.splits)

lemma advance_covers:
  assumes inv: "qinv qs" and ok: "thread_ok qs th"
    and adv: "advance env True resp now th qs = Some (qs', new)" and lv: "live qs' r"
  shows "armed qs r \<Longrightarrow> armed qs' r" and "r < length (qs_cells qs)"
    and "working th = Some r \<Longrightarrow> armed qs' r \<or> (\<exists>t \<in> set new. working t = Some r)"
proof -
  note tm = qinv_timers(1) [OF inv]
  have "keeps_armed qs qs'"
  proof (cases th)
    case (TFire x)
    then show ?thesis using adv armed_fire(1) [OF tm] by (auto simp: keeps_armed_def split_beta)
  next
    case (TApply x att dt rc hc msg h)
    then show ?thesis using adv ok applyAttempt_armed(1) [OF inv] by auto
  next
    case (TExpire x)
    then show ?thesis using adv ok keeps_expire [OF inv] by auto
  qed (use adv in \<open>auto simp: keeps_armed_def split_beta Let_def split: if_splits\<close>)
  then show "armed qs r \<Longrightarrow> armed qs' r" using lv by (simp add: keeps_armed_def)
  show "r < length (qs_cells qs)" using lv advance_cells [OF adv] by (simp add: live_def)
  show "working th = Some r \<Longrightarrow> armed qs' r \<or> (\<exists>t \<in> set new. working t = Some r)"
  proof (cases th)
    case (TFire x)
    then show "working th = Some r \<Longrightarrow> armed qs' r \<or> (\<exists>t \<in> set new. working t = Some r)"
      using adv lv armed_fire(2) [OF tm, of now r]
      by (auto simp: split_beta fire_unfold live_def split: if_splits)
  next
    case (TApply x att dt rc hc msg h)
    then show "working th = Some r \<Longrightarrow> armed qs' r \<or> (\<exists>t \<in> set new. working t = Some r)"
      using adv lv ok applyAttempt_armed(2) [OF inv] by auto
  qed (use adv lv in \<open>auto simp: split_beta Let_def live_def snapshotAttempt_None_iff
        split: if_splits option.splits\<close>)
qed

lemma armed_runTaskLocked:
  assumes inv: "qinv qs" and "armed qs r" and other: "snd (runTaskLocked now n qs) \<noteq> Inr r"
  shows "armed (fst (runTaskLocked now n qs)) r"
proof (cases "snd (runTaskLocked now n qs)")
  case (Inl e)
  then have "fst (runTaskLocked now n qs) = qs"
    by (auto simp: runTaskLocked_def split: option.splits if_splits)
  with assms(2) show ?thesis by simp
next
  case (Inr r')
  obtain i d where i: "gget (qs_timers qs) i = Some (d, FireFn r)" using assms(2) by (auto simp: armed_def)
  have run: "gget (qs_tasks qs) n = Some r'"
    "qs_timers (fst (runTaskLocked now n qs)) = qs_timers (stopTimer (ts_timer (cell qs r')) qs)"
    using Inr by (auto simp: runTaskLocked_def split: option.splits if_splits)
  then have "owned qs (ts_timer (cell qs r')) (FireFn r')"
    using qinv_lookup [OF inv] qinv_timers(2) [OF inv] by (auto simp: live_def handles_ok_def)
  then have "ts_timer (cell qs r') \<noteq> Some i" using i Inr other by (auto simp: owned_def)
  with i run(2) show ?thesis by (auto simp: armed_def stopTimer_timers)
qed

lemma apiExec_covers:
  assumes inv: "qinv qs" and api: "apiExec env now a qs = (qs', new)"
    and lv: "live qs' r" and fn: "fn_ok qs' (FireFn r)"
  shows "armed qs' r \<or> (\<exists>t \<in> set new. working t = Some r) \<or> (r < length (qs_cells qs) \<and> \<not> armed qs r)"
proof (cases a)
  case ApiNextTaskID
  with api lv show ?thesis by (auto simp: live_def armed_def)
next
  case (ApiCreateTask t)
  note new = addNewTask_live [of "me_eng env" now t qs r] addNewTask_cells [of r qs "me_eng env" now t]
  from ApiCreateTask lv fn api show ?thesis
    using armed_addNewTask [OF qinv_timers(1) [OF inv]] new
    by (auto simp: createTaskLocked_def fn_ok_def live_def split: if_splits)
next
  case (ApiDeleteTask n)
  with api lv show ?thesis
    using keeps_removeLocked [OF inv] qinv_lookup [OF inv, of n]
    by (auto simp: deleteTaskLocked_def live_def keeps_armed_def split: option.splits)
next
  case (ApiRunTask n)
  show ?thesis
  proof (cases "snd (runTaskLocked now n qs) = Inr r")
    case True
    with ApiRunTask api show ?thesis by (auto simp: split_beta)
  next
    case False
    with ApiRunTask api have qs': "qs' = fst (runTaskLocked now n qs)" by (auto simp: split_beta)
    have "armed qs r \<Longrightarrow> armed qs' r"
      using False armed_runTaskLocked [OF inv] by (simp add: qs')
    moreover have "r < length (qs_cells qs)"
      using lv by (auto simp: qs' live_def runTaskLocked_def split: option.splits if_splits)
    ultimately show ?thesis by blast
  qed
next
  case ApiPurgeQueue
  with api lv show ?thesis using purge_facts(2) [OF inv] by auto
next
  case ApiStop
  with api lv show ?thesis
    using qinv_emptied(2) [OF inv retiring_stop [OF qinv_qbase [OF inv]]] by (auto simp: stop_def)
next
  case (ApiSetState st)
  with api lv show ?thesis by (auto simp: setStateLocked_def Let_def live_def)
next
  case (ApiUpdateQueue q fs)
  with api lv show ?thesis
    by (auto simp: updateQueueLocked_def Let_def live_def) (simp_all add: rebuildLimits_def Let_def)
qed

lemma covered_step:
  assumes inv: "minv m" and cov: "covered m" and step: "mexec env e m = Some m'" and "served e"
  shows "covered m'"
  unfolding covered_def
proof (intro allI impI)
  fix r assume lv: "live (m_qs m') r" and fn: "fn_ok (m_qs m') (FireFn r)"
  have q: "qinv (m_qs m)" using inv by (simp add: minv_def)
  have ev: "evolves (m_qs m) (m_qs m')" using mexec_step [OF inv step] by (simp add: mlater_def)
  have old: "armed (m_qs m) r \<or> (\<exists>th \<in> set (m_threads m). working th = Some r)"
    if "r < length (qs_cells (m_qs m))"
    using cov evolves_live [OF ev that lv] evolves_fn [OF ev that fn] by (simp add: covered_def)
  show "armed (m_qs m') r \<or> (\<exists>th \<in> set (m_threads m'). working th = Some r)"
  proof (cases e)
    case (Tick t)
    with step lv old show ?thesis by (auto simp: live_def split: if_splits)
  next
    case (TimerFires i)
    with step obtain due f where t: "gget (qs_timers (m_qs m)) i = Some (due, f)"
      "m' = m\<lparr>m_qs := stopTimer (Some i) (m_qs m), m_threads := m_threads m @ [spawn f]\<rparr>"
      by (auto split: option.splits if_splits)
    have "armed (m_qs m) r \<Longrightarrow> f = FireFn r \<or> armed (m_qs m') r"
      using t by (auto simp: armed_def stopTimer_timers) (metis option.inject prod.inject)
    then show ?thesis using old lv t(2) by (auto simp: live_def)
  next
    case (Advance k limOk resp)
    with step \<open>served e\<close> obtain qs' new where k: "k < length (m_threads m)"
      and adv: "advance env True resp (m_now m) (m_threads m ! k) (m_qs m) = Some (qs', new)"
      and m': "m' = m\<lparr>m_qs := qs', m_threads := take k (m_threads m) @ new @ drop (Suc k) (m_threads m)\<rparr>"
      by (auto split: if_splits option.splits)
    have ok: "thread_ok (m_qs m) (m_threads m ! k)" using inv k by (simp add: minv_def)
    note cover = advance_covers [OF q ok adv, of r]
    have threads: "set (m_threads m) = set (take k (m_threads m)) \<union> {m_threads m ! k} \<union> set (drop (Suc k) (m_threads m))"
      using arg_cong [OF id_take_nth_drop [OF k], of set] by simp
    show ?thesis using old cover lv threads by (auto simp: m')
  next
    case (Api a)
    obtain qs' new where api: "apiExec env (m_now m) a (m_qs m) = (qs', new)" by fastforce
    with Api step have m': "m' = m\<lparr>m_qs := qs', m_threads := m_threads m @ new\<rparr>" by simp
    show ?thesis using apiExec_covers [OF q api, of r] lv fn old by (auto simp: m')
  qed
qed

interpretation cv: invariant_system "\<lambda>e m. if served e then mexec env e m else None"
    "\<lambda>m. minv m \<and> covered m" for env
  by unfold_locales (auto split: if_splits dest: covered_step qm.step_inv)

lemma covered_init: "covered (minit q now)"
  by (simp add: covered_def minit_def live_def)

end
