(* ===== verification/Machine_Props.thy ===== *)
theory Machine_Props
  imports Machine_Live
begin

text \<open>
  The properties of a queue under concurrency, each of any run of \<^verbatim>\<open>Queue_Machine\<close> from a new
  queue.
\<close>

section \<open>A concrete run\<close>

definition demoStart :: machine where
  "demoStart = minit (applyQueueDefaults (zeroQueue\<lparr>q_Name := ''projects/p/locations/l/queues/q'',
     q_RetryConfig := demoRetry\<rparr>)) 0"

text \<open>
  A timer starts a dispatch of the task; while the request is in flight, \<^verbatim>\<open>RunTask\<close> starts
  another; both fail.
\<close>

definition crossingRun :: "event list" where
  "crossingRun =
     [Api (ApiCreateTask (demoTask ''a'')), TimerFires 1, Advance 0 True (Inr 503),
      Advance 0 True (Inr 503), Advance 0 True (Inr 503), Advance 0 True (Inr 503),
      Api (ApiRunTask ''a''), Advance 1 True (Inr 503), Advance 1 True (Inr 503),
      Advance 0 True (Inr 503), Advance 0 True (Inr 503), Advance 1 True (Inr 503)]"

lemma crossing_runs:
  "mrun demoEnv crossingRun demoStart \<noteq> None" "mrun demoEnv (take 5 crossingRun) demoStart \<noteq> None"
  by code_simp+

lemma demoStart_init: "\<exists>q now. demoStart = minit q now"
  by (auto simp: demoStart_def)

section \<open>Limits follow the configuration\<close>

definition limits_match :: "queueState \<Rightarrow> bool" where
  "limits_match qs \<longleftrightarrow>
     (let rl = q_RateLimits (qs_q qs)
      in ch_cap (qs_chans qs ! qs_concurrency qs) = nat (max 1 (rl_MaxConcurrentDispatches rl)) \<and>
         qs_limiter qs = \<lparr>lim_rate = rl_MaxDispatchesPerSecond rl,
                         lim_burst = max 1 (rl_MaxBurstSize rl)\<rparr>)"

definition same_limits :: "queueState \<Rightarrow> queueState \<Rightarrow> bool" where
  "same_limits qs qs' \<longleftrightarrow> qs_limiter qs' = qs_limiter qs \<and> qs_concurrency qs' = qs_concurrency qs \<and>
     q_RateLimits (qs_q qs') = q_RateLimits (qs_q qs)"

lemma same_limits_match:
  "qinv qs \<Longrightarrow> evolves qs qs' \<Longrightarrow> same_limits qs qs' \<Longrightarrow> limits_match qs \<Longrightarrow> limits_match qs'"
  using qinv_concurrency [of qs] by (simp add: limits_match_def same_limits_def evolves_def Let_def)

lemma limits_match_rebuildLimits: "limits_match (rebuildLimits qs)"
  by (simp add: limits_match_def rebuildLimits_def Let_def max_def)

lemma same_limits_removeLocked: "same_limits qs (removeLocked eng now r qs)"
  by (simp add: same_limits_def removeLocked_def Let_def)

lemma same_limits_schedule: "same_limits qs (schedule now r qs)"
  by (simp add: same_limits_def schedule_unfold)

lemma same_limits_applyAttempt: "same_limits qs (applyAttempt oob eng now r att dt rc hc msg qs)"
proof -
  have "qs_limiter (recorded r att dt hc s) = qs_limiter s" "qs_limiter (reasoned r hc msg s) = qs_limiter s"
    "qs_limiter (postponed oob now r s) = qs_limiter s"
    "qs_concurrency (recorded r att dt hc s) = qs_concurrency s"
    "qs_concurrency (reasoned r hc msg s) = qs_concurrency s"
    "qs_concurrency (postponed oob now r s) = qs_concurrency s" for s
    by (simp_all add: recorded_def reasoned_def postponed_def)
  then show ?thesis
    using same_limits_removeLocked same_limits_schedule
    by (simp add: applyAttempt_unfold Let_def same_limits_def)
qed

lemma same_limits_advance:
  "advance env limOk resp now th qs = Some (qs', new) \<Longrightarrow> same_limits qs qs'"
  using same_limits_applyAttempt same_limits_removeLocked
  by (cases th) (auto simp: same_limits_def fire_unfold setUsed_def expire_def tombstoneExpire_def
      split_beta Let_def split: if_splits option.splits)

lemma fold_same_limits:
  assumes "\<And>r s. same_limits s (g r s)" shows "same_limits s (fold g rs s)"
  using assms by (induction rs arbitrary: s) (simp_all add: same_limits_def)

lemma same_limits_loops:
  "same_limits qs (fold retire rs qs)" "same_limits qs (fold (purgeOne eng now) rs qs)"
  by (rule fold_same_limits; simp add: same_limits_def purgeOne_def)+

lemma limits_match_apiExec:
  assumes inv: "qinv qs" and lm: "limits_match qs" and api: "apiExec env now a qs = (qs', new)"
  shows "limits_match qs'"
proof (cases "\<exists>q fs. a = ApiUpdateQueue q fs")
  case True
  with api show ?thesis
    by (auto simp: updateQueueLocked_def Let_def limits_match_rebuildLimits)
next
  case False
  have loops: "same_limits qs (stop qs)" "same_limits qs (purge eng now qs)" for eng
    using same_limits_loops by (simp_all add: stop_def purge_def Let_def same_limits_def)
  have "same_limits qs (addNewTask eng now t qs)" for eng t
    by (simp add: same_limits_def addNewTask_def addTask_def Let_def split_beta schedule_unfold)
  with False loops api have "same_limits qs qs'"
    using same_limits_removeLocked
    by (cases a) (auto simp: createTaskLocked_def deleteTaskLocked_def runTaskLocked_def setStateLocked_def
        split_beta Let_def same_limits_def split: option.splits if_splits)
  then show ?thesis using same_limits_match [OF inv] apiExec_queue(2) [OF inv api] lm by blast
qed

interpretation lm: invariant_system "mexec env" "\<lambda>m. minv m \<and> limits_match (m_qs m)" for env
proof
  fix s e s' assume s: "minv s \<and> limits_match (m_qs s)" and step: "mexec env e s = Some s'"
  have inv: "qinv (m_qs s)" using s by (simp add: minv_def)
  have "limits_match (m_qs s')"
  proof (cases e)
    case (TimerFires i)
    with step s show ?thesis
      by (auto simp: limits_match_def split: option.splits if_splits)
  next
    case (Advance k limOk resp)
    with step s obtain qs' new where
      adv: "advance env limOk resp (m_now s) (m_threads s ! k) (m_qs s) = Some (qs', new)"
      "m_qs s' = qs'" "thread_ok (m_qs s) (m_threads s ! k)"
      by (auto simp: minv_def split: if_splits option.splits)
    then show ?thesis
      using same_limits_match [OF inv advance_queue(2) [OF inv adv(3,1)] same_limits_advance [OF adv(1)]] s
      by simp
  next
    case (Api a)
    with step s show ?thesis
      using limits_match_apiExec [OF inv _ surjective_pairing] by (auto simp: split_beta)
  qed (use step s in \<open>auto split: if_splits\<close>)
  with s step show "minv s' \<and> limits_match (m_qs s')" using qm.step_inv by blast
qed

section \<open>A queue that is not running\<close>

fun dispatching :: "thread \<Rightarrow> bool" where
  "dispatching (TLimiter r c) = True"
| "dispatching (TSlot r c) = True"
| "dispatching (TAttempt r h) = True"
| "dispatching (TDispatch r snap dt h) = True"
| "dispatching (TApply r att dt rc hc msg h) = True"
| "dispatching _ = False"

text \<open>Everything but resuming the queue and asking for one task to be run.\<close>

fun leaves_paused :: "event \<Rightarrow> bool" where
  "leaves_paused (Api (ApiSetState st)) \<longleftrightarrow> st = StatePaused \<or> st = StateDisabled"
| "leaves_paused (Api (ApiRunTask n)) = False"
| "leaves_paused _ = True"

definition quiet :: "machine \<Rightarrow> bool" where
  "quiet m \<longleftrightarrow> (q_State (qs_q (m_qs m)) = StatePaused \<or> q_State (qs_q (m_qs m)) = StateDisabled) \<and>
     (\<forall>th \<in> set (m_threads m). \<not> dispatching th)"

lemma spawn_not_dispatching: "\<not> dispatching (spawn f)"
  by (cases f) simp_all

lemma state_purge: "qinv qs \<Longrightarrow> q_State (qs_q (purge eng now qs)) = q_State (qs_q qs)"
    "qinv qs \<Longrightarrow> q_State (qs_q (stop qs)) = q_State (qs_q qs)"
  using retiring_purge [of qs eng now] retiring_stop [of qs]
  by (simp_all add: purge_def stop_def Let_def retiring_def qinv_qbase)

lemma quiet_step:
  assumes q: "quiet m" and inv: "minv m" and step: "mexec env e m = Some m'" and ok: "leaves_paused e"
  shows "quiet m'"
proof (cases e)
  case (TimerFires i)
  with step q show ?thesis
    by (auto simp: quiet_def spawn_not_dispatching split: option.splits if_splits)
next
  case (Advance k limOk resp)
  with step obtain qs' new where k: "k < length (m_threads m)"
    and adv: "advance env limOk resp (m_now m) (m_threads m ! k) (m_qs m) = Some (qs', new)"
    and m': "m' = m\<lparr>m_qs := qs', m_threads := take k (m_threads m) @ new @ drop (Suc k) (m_threads m)\<rparr>"
    by (auto split: if_splits option.splits)
  have "\<not> dispatching (m_threads m ! k)" using q k by (simp add: quiet_def)
  then have "new = [] \<and> q_State (qs_q qs') = q_State (qs_q (m_qs m))"
    using adv q by (cases "m_threads m ! k")
      (auto simp: quiet_def fire_unfold setUsed_def expire_def tombstoneExpire_def
        split: if_splits option.splits)
  then show ?thesis using q m' by (auto simp: quiet_def dest: in_set_takeD in_set_dropD)
next
  case (Api a)
  have "qinv (m_qs m)" using inv by (simp add: minv_def)
  then have "\<forall>th \<in> set (snd (apiExec env (m_now m) a (m_qs m))). \<not> dispatching th"
    "q_State (qs_q (fst (apiExec env (m_now m) a (m_qs m)))) = StatePaused \<or>
     q_State (qs_q (fst (apiExec env (m_now m) a (m_qs m)))) = StateDisabled"
    using ok q Api
    by (cases a; auto simp: quiet_def createTaskLocked_def deleteTaskLocked_def updateQueueLocked_def
        rebuildLimits_def setStateLocked_def Let_def state_purge split: option.splits)+
  then show ?thesis using q step Api by (auto simp: quiet_def split_beta)
qed (use step q in \<open>auto simp: quiet_def split: if_splits\<close>)

interpretation pq: invariant_system "\<lambda>e m. if leaves_paused e then mexec env e m else None"
    "\<lambda>m. minv m \<and> quiet m" for env
  by unfold_locales (auto split: if_splits dest: quiet_step qm.step_inv)

section \<open>Properties\<close>

lemma run_minv: "mrun env es (minit q now) = Some m \<Longrightarrow> minv m"
  using qm.run_inv [OF minv_init] .

lemma limits_match_init: "limits_match (m_qs (minit q now))"
  by (simp add: minit_def newQueueState_def limits_match_rebuildLimits)

text \<open>
  C1. However timers, dispatches and API calls interleave, the number of dispatches in flight
  that were started by timers never exceeds the capacity of the semaphore they were started
  under; the semaphore and the limiter that a queue starts dispatches under are always those of its
  current rate limits, raised to at least one; and what is in the semaphore is exactly the
  dispatches in flight, so no slot leaks.
\<close>

theorem dispatch_concurrency_bounded:
  assumes "mrun env es (minit q now) = Some m" and "c < length (qs_chans (m_qs m))"
  shows "holders c (m_threads m) = ch_used (qs_chans (m_qs m) ! c) \<and>
    holders c (m_threads m) \<le> ch_cap (qs_chans (m_qs m) ! c) \<and>
    ch_cap (qs_chans (m_qs m) ! qs_concurrency (m_qs m)) =
      nat (max 1 (rl_MaxConcurrentDispatches (q_RateLimits (qs_q (m_qs m))))) \<and>
    lim_rate (qs_limiter (m_qs m)) = rl_MaxDispatchesPerSecond (q_RateLimits (qs_q (m_qs m))) \<and>
    lim_burst (qs_limiter (m_qs m)) = max 1 (rl_MaxBurstSize (q_RateLimits (qs_q (m_qs m))))"
proof -
  have "minv m" "limits_match (m_qs m)"
    using lm.run_inv [OF _ assms(1)] minv_init limits_match_init by blast+
  then have "used (m_qs m) c = holders c (m_threads m)" "qinv (m_qs m)"
    "limits_match (m_qs m)" by (simp_all add: minv_def)
  with qinv_chan [OF this(2) assms(2)] assms(2) show ?thesis
    by (simp add: used_def limits_match_def Let_def)
qed

theorem dispatch_concurrency_bounded_witness:
  "holders 0 (m_threads (the (mrun demoEnv (take 5 crossingRun) demoStart))) \<le> 1000"
proof -
  let ?m = "the (mrun demoEnv (take 5 crossingRun) demoStart)"
  obtain q now where q: "demoStart = minit q now" using demoStart_init by blast
  have run: "mrun demoEnv (take 5 crossingRun) (minit q now) = Some ?m"
    using crossing_runs(2) q by simp
  have ch: "0 < length (qs_chans (m_qs ?m))" "ch_cap (qs_chans (m_qs ?m) ! 0) = 1000" by code_simp+
  show ?thesis using dispatch_concurrency_bounded [OF run ch(1)] ch(2) by linarith
qed

text \<open>
  C2. No task is stranded: as long as waiting for the limiter does not fail, in every state a
  queue can get into, each task that is there and can be dispatched has a pending dispatch
  timer or a goroutine that is working on it.
\<close>

theorem no_task_is_stranded:
  assumes "mrun env es (minit q now) = Some m" and "\<forall>e \<in> set es. served e"
    and "gget (qs_tasks (m_qs m)) n = Some r"
    and "\<not> q_Pull (qs_q (m_qs m))" and "tg_Type (t_Target (task_of (m_qs m) r)) \<noteq> TargetPull"
  shows "(\<exists>i due. gget (qs_timers (m_qs m)) i = Some (due, FireFn r)) \<or>
    (\<exists>th \<in> set (m_threads m). working th = Some r)"
proof -
  have "minv m \<and> covered m"
    using cv.run_inv [of "minit q now" env es m] run_restrict [OF assms(2), of "mexec env" "minit q now"] assms(1)
      minv_init covered_init by simp
  then have "covered m" "live (m_qs m) r"
    using qinv_lookup [OF _ assms(3)] by (simp_all add: minv_def)
  then show ?thesis using assms(4,5) by (auto simp: covered_def fn_ok_def live_def armed_def)
qed

theorem no_task_is_stranded_witness:
  "\<exists>i due. gget (qs_timers (m_qs (the (mrun demoEnv (take 1 crossingRun) demoStart)))) i = Some (due, FireFn 0)"
proof -
  let ?m = "the (mrun demoEnv (take 1 crossingRun) demoStart)"
  obtain q now where q: "demoStart = minit q now" using demoStart_init by blast
  have "mrun demoEnv (take 1 crossingRun) demoStart \<noteq> None" by code_simp
  then have run: "mrun demoEnv (take 1 crossingRun) (minit q now) = Some ?m" using q by simp
  have fs: "gget (qs_tasks (m_qs ?m)) ''a'' = Some 0" "\<not> q_Pull (qs_q (m_qs ?m))"
    "m_threads ?m = []" "list_all served (take 1 crossingRun)"
    by code_simp+
  have "tg_Type (t_Target (task_of (m_qs ?m) 0)) \<noteq> TargetPull" by code_simp
  then show ?thesis using no_task_is_stranded [OF run _ fs(1,2)] fs(3,4) by (simp add: list_all_iff)
qed

text \<open>
  C6. The name of a deleted task stays reserved until its tombstone time is over, whatever
  else happens on the queue in the meantime: no run brings a task of that name back, and
  creating one fails with \<^verbatim>\<open>AlreadyExists\<close>. Only the hard-reset option lifts this.
\<close>

theorem deleted_name_stays_reserved:
  assumes "mrun env es (minit q now) = Some m" and "\<not> eng_hardResetOnPurge (me_eng env)"
    and "gget (qs_tasks (m_qs m)) n = Some r" and "0 \<le> effectiveTombstoneTTL (me_eng env) (m_qs m)"
    and "mrun env (Api (ApiDeleteTask n) # es') m = Some m'"
    and "m_now m' < m_now m + effectiveTombstoneTTL (me_eng env) (m_qs m)"
    and "t_Name t = n"
  shows "gget (qs_tasks (m_qs m')) n = None \<and>
    createTaskLocked (me_eng env) (m_now m') t (m_qs m') =
      (m_qs m', Inl (Errorf AlreadyExists
        ''task %q was recently deleted and its name is still reserved'' [n]))"
proof -
  let ?e = "m_now m + effectiveTombstoneTTL (me_eng env) (m_qs m)"
  let ?m1 = "m\<lparr>m_qs := removeLocked (me_eng env) (m_now m) r (m_qs m)\<rparr>"
  have inv: "minv m" using run_minv [OF assms(1)] .
  have m1: "mexec env (Api (ApiDeleteTask n)) m = Some ?m1" using assms(3) by (simp add: deleteTaskLocked_def)
  then have run: "mrun env es' ?m1 = Some m'" using assms(5) by simp
  have inv1: "minv ?m1" by (rule qm.step_inv [OF inv m1])
  have "name_of (m_qs m) r = n" using qinv_lookup [OF _ assms(3)] inv by (simp add: minv_def)
  then have "gget (qs_tombstones (m_qs ?m1)) n = Some ?e"
    using assms(4) by (simp add: removeLocked_tombstones)
  moreover have "mlater env ?m1 m'" by (rule qm.run_rel [OF inv1 run])
  ultimately have "gget (qs_tombstones (m_qs m')) n = Some ?e"
    using assms(2,6) by (simp add: mlater_def reserved_kept_def)
  then have "tombstoned (m_now m') n (m_qs m')" using assms(6) by (simp add: tombstoned_iff)
  moreover have "apart (m_now m') (m_qs m')" using qm.run_inv [OF inv1 run] by (simp add: minv_def)
  ultimately show ?thesis using assms(7) by (simp add: apart_def createTaskLocked_def)
qed

theorem deleted_name_stays_reserved_witness:
  "snd (createTaskLocked demoConf hour (demoTask ''a'')
     (m_qs (the (mrun demoEnv [Api (ApiDeleteTask ''a''), Tick hour]
        (the (mrun demoEnv (take 1 crossingRun) demoStart)))))) =
   Inl (Errorf AlreadyExists ''task %q was recently deleted and its name is still reserved'' [''a''])"
proof -
  let ?m = "the (mrun demoEnv (take 1 crossingRun) demoStart)"
  let ?es = "[Api (ApiDeleteTask ''a''), Tick hour]"
  let ?m' = "the (mrun demoEnv ?es ?m)"
  obtain q now where q: "demoStart = minit q now" using demoStart_init by blast
  have "mrun demoEnv (take 1 crossingRun) demoStart \<noteq> None" "mrun demoEnv ?es ?m \<noteq> None" by code_simp+
  then have run: "mrun demoEnv (take 1 crossingRun) (minit q now) = Some ?m" "mrun demoEnv ?es ?m = Some ?m'"
    using q by simp_all
  have fs: "\<not> eng_hardResetOnPurge (me_eng demoEnv)" "gget (qs_tasks (m_qs ?m)) ''a'' = Some 0"
    "0 \<le> effectiveTombstoneTTL (me_eng demoEnv) (m_qs ?m)"
    "m_now ?m' < m_now ?m + effectiveTombstoneTTL (me_eng demoEnv) (m_qs ?m)"
    "t_Name (demoTask ''a'') = ''a''" "m_now ?m' = hour"
    by code_simp+
  show ?thesis
    using deleted_name_stays_reserved [OF run(1) fs(1-3) run(2) fs(4,5)] fs(6)
    by (simp add: demoEnv_def)
qed

text \<open>
  C13. A pull queue and a pull task are never dispatched over HTTP: every request in flight is
  for a task of another kind in a queue of another kind, and it carries the name of the task
  state it works on.
\<close>

theorem pull_tasks_never_dispatched:
  assumes "mrun env es (minit q now) = Some m" and "TDispatch r snap dt h \<in> set (m_threads m)"
  shows "\<not> q_Pull (snap_queue snap) \<and> tg_Type (t_Target (snap_task snap)) \<noteq> TargetPull \<and>
    t_Name (snap_task snap) = name_of (m_qs m) r \<and> \<not> q_Pull q"
proof -
  have "thread_ok (m_qs m) (TDispatch r snap dt h)"
    using run_minv [OF assms(1)] assms(2) unfolding minv_def by blast
  moreover have "evolves (newQueueState q) (m_qs m)"
    using qm.run_rel [OF minv_init assms(1)] by (simp add: mlater_def minit_def)
  ultimately show ?thesis by (simp add: evolves_def fn_ok_def)
qed

theorem pull_tasks_never_dispatched_witness:
  "\<exists>r snap dt h. TDispatch r snap dt h \<in> set (m_threads (the (mrun demoEnv (take 6 crossingRun) demoStart))) \<and>
     tg_Type (t_Target (snap_task snap)) \<noteq> TargetPull"
proof -
  let ?m = "the (mrun demoEnv (take 6 crossingRun) demoStart)"
  obtain q now where q: "demoStart = minit q now" using demoStart_init by blast
  have "mrun demoEnv (take 6 crossingRun) demoStart \<noteq> None" by code_simp
  then have run: "mrun demoEnv (take 6 crossingRun) (minit q now) = Some ?m" using q by simp
  have "list_ex (\<lambda>th. case th of TDispatch r snap dt h \<Rightarrow> True | _ \<Rightarrow> False) (m_threads ?m)" by code_simp
  then obtain th where th: "th \<in> set (m_threads ?m)" "case th of TDispatch r snap dt h \<Rightarrow> True | _ \<Rightarrow> False"
    unfolding list_ex_iff by blast
  then obtain r snap dt h where t: "TDispatch r snap dt h \<in> set (m_threads ?m)" by (cases th rule: thread.exhaust) auto
  with pull_tasks_never_dispatched [OF run t] show ?thesis by blast
qed

text \<open>
  C12. A paused or disabled queue starts no dispatch: from a state with no dispatch under way,
  whatever timers fire and whatever calls are made, short of resuming the queue or running a
  task by hand, no dispatch is ever under way.
\<close>

theorem paused_queue_starts_no_dispatch:
  assumes "mrun env es (minit q now) = Some m"
    and "q_State (qs_q (m_qs m)) = StatePaused \<or> q_State (qs_q (m_qs m)) = StateDisabled"
    and "\<forall>th \<in> set (m_threads m). \<not> dispatching th"
    and "\<forall>e \<in> set es'. leaves_paused e" and "mrun env es' m = Some m'"
  shows "\<forall>th \<in> set (m_threads m'). \<not> dispatching th"
proof -
  have "minv m \<and> quiet m" using run_minv [OF assms(1)] assms(2,3) by (simp add: quiet_def)
  then show ?thesis
    using pq.run_inv [of m env es' m'] run_restrict [OF assms(4), of "mexec env" m] assms(5)
    by (simp add: quiet_def)
qed

definition pausedRun :: "event list" where
  "pausedRun = [Api (ApiCreateTask (demoTask ''a'')), Api (ApiSetState StatePaused)]"

theorem paused_queue_starts_no_dispatch_witness:
  "list_all (\<lambda>th. \<not> dispatching th)
     (m_threads (the (mrun demoEnv [TimerFires 1, Advance 0 True (Inr 200), Tick second, TimerFires 2]
        (the (mrun demoEnv pausedRun demoStart)))))"
proof -
  let ?m = "the (mrun demoEnv pausedRun demoStart)"
  let ?es = "[TimerFires 1, Advance 0 True (Inr 200), Tick second, TimerFires 2]"
  obtain q now where q: "demoStart = minit q now" using demoStart_init by blast
  have "mrun demoEnv pausedRun demoStart \<noteq> None" "mrun demoEnv ?es ?m \<noteq> None" by code_simp+
  then have run: "mrun demoEnv pausedRun (minit q now) = Some ?m" "mrun demoEnv ?es ?m = Some (the (mrun demoEnv ?es ?m))"
    using q by simp_all
  have "q_State (qs_q (m_qs ?m)) = StatePaused" "m_threads ?m = []" by code_simp+
  then show ?thesis
    unfolding list_all_iff by (intro paused_queue_starts_no_dispatch [OF run(1) _ _ _ run(2)]) simp_all
qed


end
