(* ===== verification/Validation.thy ===== *)
theory Validation
  imports Dispatch
begin

text \<open>
  \<^verbatim>\<open>validateCreateTask\<close> of \<^verbatim>\<open>core/engine.go\<close> with its helpers: the resource limits a task must
  meet before it is created, in the order the code checks them.
\<close>

section \<open>Limits\<close>

definition maxHTTPTaskBodySize :: int where "maxHTTPTaskBodySize = 1048576"
definition maxAppEngineTaskBodySize :: int where "maxAppEngineTaskBodySize = 102400"
definition maxHTTPHeaderSize :: int where "maxHTTPHeaderSize = 81920"
definition maxHTTPURLLength :: int where "maxHTTPURLLength = 2083"
definition maxScheduleAhead :: duration where "maxScheduleAhead = 30 * 24 * hour"
definition minDispatchDeadline :: duration where "minDispatchDeadline = 15 * second"
definition maxHTTPDispatchDeadline :: duration where "maxHTTPDispatchDeadline = 30 * minute"
definition maxAppEngineDeadline :: duration where "maxAppEngineDeadline = 24 * hour + 15 * second"

lemmas limit_defs = maxHTTPTaskBodySize_def maxAppEngineTaskBodySize_def maxHTTPHeaderSize_def
  maxHTTPURLLength_def maxScheduleAhead_def minDispatchDeadline_def maxHTTPDispatchDeadline_def
  maxAppEngineDeadline_def

section \<open>Checks\<close>

definition headerSize :: "(string, string) gomap \<Rightarrow> int" where
  "headerSize headers = fold (\<lambda>(k, v) n. n + (int (length k) + int (length v))) headers 0"

text \<open>
  \<^verbatim>\<open>strings.ToUpper\<close> as far as comparing with an ASCII word can tell: besides the ASCII letters
  only U+0131 (dotless i) and U+017F (long s) have an ASCII upper case; a byte of any other
  character stays outside ASCII.
\<close>

fun ToUpper :: "string \<Rightarrow> string" where
  "ToUpper (a # b # cs) =
     (if of_char a = (196::nat) \<and> of_char b = (177::nat) then CHR ''I'' # ToUpper cs
      else if of_char a = (197::nat) \<and> of_char b = (191::nat) then CHR ''S'' # ToUpper cs
      else upperByte a # ToUpper (b # cs))"
| "ToUpper [a] = [upperByte a]"
| "ToUpper [] = []"

text \<open>\<^verbatim>\<open>Duration.String\<close> of a whole number of seconds, which is what the limits are.\<close>

definition durationString :: "duration \<Rightarrow> string" where
  "durationString d =
     (let s = d div second; h = s div 3600; m = s mod 3600 div 60; r = s mod 60
      in if h > 0 then Itoa h @ ''h'' @ Itoa m @ ''m'' @ Itoa r @ ''s''
         else if m > 0 then Itoa m @ ''m'' @ Itoa r @ ''s''
         else Itoa r @ ''s'')"

fun joinWith :: "string \<Rightarrow> string list \<Rightarrow> string" where
  "joinWith sep [] = []"
| "joinWith sep [x] = x"
| "joinWith sep (x # y # xs) = x @ sep @ joinWith sep (y # xs)"

definition checkBodyMethod :: "Target \<Rightarrow> string list \<Rightarrow> status option" where
  "checkBodyMethod tg allowed =
     (if length (tg_Body tg) = 0 then None
      else let method = (if tg_Method tg = [] then ''POST'' else tg_Method tg)
           in if ToUpper method \<in> set allowed then None
              else Some (Errorf InvalidArgument
                ''a request body is allowed only if the HTTP method is %s'' [joinWith '', '' allowed]))"

definition checkDeadline :: "duration \<Rightarrow> duration \<Rightarrow> status option" where
  "checkDeadline d mx =
     (if d \<noteq> 0 \<and> (d < minDispatchDeadline \<or> d > mx)
      then Some (Errorf InvalidArgument ''dispatch_deadline must be between %s and %s''
                   [durationString minDispatchDeadline, durationString mx])
      else None)"

definition validateCreateTask :: "time \<Rightarrow> Task \<Rightarrow> status option" where
  "validateCreateTask now t =
     (if \<not> IsZero (t_ScheduleTime t) \<and> t_ScheduleTime t > now + maxScheduleAhead
      then Some (Errorf InvalidArgument ''schedule_time must not be more than 30 days in the future'' [])
      else let tg = t_Target t in
      case tg_Type tg of
        TargetHTTP \<Rightarrow>
          (case checkDeadline (t_DispatchDeadline t) maxHTTPDispatchDeadline of Some e \<Rightarrow> Some e | None \<Rightarrow>
           if int (length (tg_Body tg)) > maxHTTPTaskBodySize
           then Some (Errorf InvalidArgument ''task body exceeds the 1MB limit for HTTP targets'' [])
           else if int (length (tg_URL tg)) > maxHTTPURLLength
           then Some (Errorf InvalidArgument ''url exceeds the %d character limit''
                        [Itoa maxHTTPURLLength])
           else if headerSize (tg_Headers tg) \<ge> maxHTTPHeaderSize
           then Some (Errorf InvalidArgument ''the size of the headers must be less than 80KB'' [])
           else checkBodyMethod tg [''POST'', ''PUT'', ''PATCH''])
      | TargetAppEngine \<Rightarrow>
          (case checkDeadline (t_DispatchDeadline t) maxAppEngineDeadline of Some e \<Rightarrow> Some e | None \<Rightarrow>
           if int (length (tg_Body tg)) > maxAppEngineTaskBodySize
           then Some (Errorf InvalidArgument ''task body exceeds the 100KB limit for App Engine targets'' [])
           else checkBodyMethod tg [''POST'', ''PUT''])
      | TargetPull \<Rightarrow>
          (if int (length (tg_Body tg)) > maxHTTPTaskBodySize
           then Some (Errorf InvalidArgument ''pull message payload exceeds the 1MB limit'' [])
           else None)
      | _ \<Rightarrow> Some (Errorf InvalidArgument ''task must specify a target'' []))"

section \<open>Facts\<close>

lemma headerSize_fold:
  "fold (\<lambda>(k, v) n. n + (int (length k) + int (length v))) h n0 =
     n0 + int (sum_list (map (\<lambda>(k, v). length k + length v) h))"
  by (induction h arbitrary: n0) auto

text \<open>The size does not depend on the order \<^verbatim>\<open>range\<close> visits the map in.\<close>

lemma headerSize_sum: "headerSize h = int (sum_list (map (\<lambda>(k, v). length k + length v) h))"
  by (simp add: headerSize_def headerSize_fold)

definition validDeadline :: "duration \<Rightarrow> duration \<Rightarrow> bool" where
  "validDeadline d mx \<longleftrightarrow> d = 0 \<or> 15 * second \<le> d \<and> d \<le> mx"

definition bodyAllowed :: "Target \<Rightarrow> string list \<Rightarrow> bool" where
  "bodyAllowed tg ms \<longleftrightarrow> tg_Body tg = [] \<or> tg_Method tg = [] \<or> ToUpper (tg_Method tg) \<in> set ms"

lemma checkDeadline_None: "checkDeadline d mx = None \<longleftrightarrow> validDeadline d mx"
  by (auto simp: checkDeadline_def validDeadline_def minDispatchDeadline_def)

lemma ToUpper_POST: "ToUpper ''POST'' = ''POST''"
  by (simp add: upperByte_def)

lemma checkBodyMethod_None: "''POST'' \<in> set ms \<Longrightarrow> checkBodyMethod tg ms = None \<longleftrightarrow> bodyAllowed tg ms"
  by (auto simp: checkBodyMethod_def bodyAllowed_def ToUpper_POST Let_def simp del: ToUpper.simps)

lemma check_codes:
  "checkDeadline d mx = Some e \<Longrightarrow> status_code e = InvalidArgument"
  "checkBodyMethod tg ms = Some e \<Longrightarrow> status_code e = InvalidArgument"
  by (auto simp: checkDeadline_def checkBodyMethod_def Let_def split: if_splits)

section \<open>Properties\<close>

text \<open>
  C21. A task passes validation exactly when its schedule time is unset or at most 30 days
  ahead, it has a target, and it meets every documented limit of that kind of target: for an
  HTTP target a deadline of 15 seconds to 30 minutes (or none), a body of at most 1 MiB, a URL of
  at most 2083 bytes, headers under 80 KiB, and a body only with POST, PUT or PATCH; for App
  Engine a deadline up to 24 hours and 15 seconds, a body of at most 100 KiB, and only with
  POST or PUT; for a pull task a payload of at most 1 MiB. Every rejection is an
  \<^verbatim>\<open>InvalidArgument\<close>.
\<close>

theorem validateCreateTask_accepts_exactly_the_limits:
  "(validateCreateTask now t = None \<longleftrightarrow>
      (t_ScheduleTime t = zeroTime \<or> t_ScheduleTime t \<le> now + 30 * 24 * hour) \<and>
      (let tg = t_Target t; body = length (tg_Body tg); d = t_DispatchDeadline t in
       tg_Type tg = TargetHTTP \<and> validDeadline d (30 * minute) \<and> body \<le> 1024 * 1024 \<and>
         length (tg_URL tg) \<le> 2083 \<and>
         sum_list (map (\<lambda>(k, v). length k + length v) (tg_Headers tg)) < 80 * 1024 \<and>
         bodyAllowed tg [''POST'', ''PUT'', ''PATCH''] \<or>
       tg_Type tg = TargetAppEngine \<and> validDeadline d (24 * hour + 15 * second) \<and>
         body \<le> 100 * 1024 \<and> bodyAllowed tg [''POST'', ''PUT''] \<or>
       tg_Type tg = TargetPull \<and> body \<le> 1024 * 1024)) \<and>
   (\<forall>e. validateCreateTask now t = Some e \<longrightarrow> status_code e = InvalidArgument)"
proof
  have http: "checkBodyMethod tg [''POST'', ''PUT'', ''PATCH''] = None \<longleftrightarrow>
      bodyAllowed tg [''POST'', ''PUT'', ''PATCH'']" for tg
    by (rule checkBodyMethod_None) simp
  have ae: "checkBodyMethod tg [''POST'', ''PUT''] = None \<longleftrightarrow> bodyAllowed tg [''POST'', ''PUT'']" for tg
    by (rule checkBodyMethod_None) simp
  have pick: "(case x of Some e \<Rightarrow> Some e | None \<Rightarrow> y) = None \<longleftrightarrow> x = None \<and> y = None"
    for x y :: "status option"
    by (cases x) simp_all
  show "validateCreateTask now t = None \<longleftrightarrow>
      (t_ScheduleTime t = zeroTime \<or> t_ScheduleTime t \<le> now + 30 * 24 * hour) \<and>
      (let tg = t_Target t; body = length (tg_Body tg); d = t_DispatchDeadline t in
       tg_Type tg = TargetHTTP \<and> validDeadline d (30 * minute) \<and> body \<le> 1024 * 1024 \<and>
         length (tg_URL tg) \<le> 2083 \<and>
         sum_list (map (\<lambda>(k, v). length k + length v) (tg_Headers tg)) < 80 * 1024 \<and>
         bodyAllowed tg [''POST'', ''PUT'', ''PATCH''] \<or>
       tg_Type tg = TargetAppEngine \<and> validDeadline d (24 * hour + 15 * second) \<and>
         body \<le> 100 * 1024 \<and> bodyAllowed tg [''POST'', ''PUT''] \<or>
       tg_Type tg = TargetPull \<and> body \<le> 1024 * 1024)"
    unfolding validateCreateTask_def Let_def
    by (cases "tg_Type (t_Target t)")
      (simp_all add: pick http ae checkDeadline_None headerSize_sum limit_defs IsZero_def not_less not_le)
  show "\<forall>e. validateCreateTask now t = Some e \<longrightarrow> status_code e = InvalidArgument"
    by (auto simp: validateCreateTask_def Let_def check_codes
        split: TargetType.splits option.splits if_splits)
qed

theorem validateCreateTask_accepts_exactly_the_limits_witness:
  "validateCreateTask 0 (zeroTask\<lparr>t_Target := zeroTarget\<lparr>tg_Type := TargetHTTP, tg_URL := ''http://h/'',
      tg_Method := ''post'', tg_Body := ''x''\<rparr>\<rparr>) = None"
proof -
  have "ToUpper ''post'' = ''POST''" by code_simp
  then show ?thesis
    using validateCreateTask_accepts_exactly_the_limits [of 0 "zeroTask\<lparr>t_Target :=
      zeroTarget\<lparr>tg_Type := TargetHTTP, tg_URL := ''http://h/'', tg_Method := ''post'', tg_Body := ''x''\<rparr>\<rparr>"]
    by (simp add: zeroTask_def zeroTarget_def validDeadline_def bodyAllowed_def del: ToUpper.simps)
qed

end
