(* ===== verification/Paging.thy ===== *)
theory Paging
  imports Go_Text
begin

text \<open>
  \<^verbatim>\<open>paginate\<close> of \<^verbatim>\<open>core/engine.go\<close>, shared by \<^verbatim>\<open>ListQueues\<close> and \<^verbatim>\<open>ListTasks\<close>: the opaque page
  token is the decimal index of the next name in raw URL base64. The lemmas show that a
  client that follows the tokens sees every name once and stops.
\<close>

definition maxListQueuesPageSize :: nat where "maxListQueuesPageSize = 9800"
definition maxListTasksPageSize :: nat where "maxListTasksPageSize = 1000"

definition tokenFor :: "nat \<Rightarrow> string" where
  "tokenFor endIdx = EncodeToString (Itoa (int endIdx))"

text \<open>The start index a token stands for; \<^const>\<open>None\<close> is the invalid token error.\<close>

definition tokenStart :: "string \<Rightarrow> nat option" where
  "tokenStart pageToken =
     (case DecodeString pageToken of None \<Rightarrow> None
      | Some raw \<Rightarrow>
        (case Atoi raw of None \<Rightarrow> None
         | Some start \<Rightarrow> if start < 0 then None else Some (nat start)))"

definition pageSizeOf :: "int32 \<Rightarrow> nat \<Rightarrow> nat" where
  "pageSizeOf pageSize mx = (if pageSize \<le> 0 \<or> pageSize > int mx then mx else nat pageSize)"

definition paginate :: "'a list \<Rightarrow> int32 \<Rightarrow> string \<Rightarrow> nat \<Rightarrow> ('a list \<times> string) result" where
  "paginate names pageSize pageToken mx =
     (case (if pageToken \<noteq> [] then tokenStart pageToken else Some 0) of
        None \<Rightarrow> Inl (Errorf InvalidArgument ''invalid page_token %q'' [pageToken])
      | Some start0 \<Rightarrow>
          let size = pageSizeOf pageSize mx;
              start = (if start0 > length names then length names else start0);
              endIdx = start + size
          in if endIdx \<ge> length names then Inr (drop start names, [])
             else Inr (take (endIdx - start) (drop start names), tokenFor endIdx))"

section \<open>Following the tokens\<close>

text \<open>
  What a client relies on: a token codec whose tokens are never empty (the empty token
  means the first page, and no further page) and decode to the index they were made from.
\<close>

locale page_codec = text_codec enc dec "\<lambda>n. n < bound"
  for enc :: "nat \<Rightarrow> string" and dec :: "string \<Rightarrow> nat option" and bound :: nat +
  assumes enc_nonempty: "enc n \<noteq> []"
begin

definition start_of :: "string \<Rightarrow> nat option" where
  "start_of tok = (if tok \<noteq> [] then dec tok else Some 0)"

lemma start_of_enc: "n < bound \<Longrightarrow> start_of (enc n) = Some n"
  by (simp add: start_of_def dec_enc enc_nonempty)

lemma start_of_Nil: "start_of [] = Some 0"
  by (simp add: start_of_def)

lemma enc_inj: "m < bound \<Longrightarrow> n < bound \<Longrightarrow> enc m = enc n \<Longrightarrow> m = n"
  by (metis dec_enc option.inject)

end

lemma tokenStart_tokenFor: "n < 2 ^ 63 \<Longrightarrow> tokenStart (tokenFor n) = Some n"
  by (simp add: tokenStart_def tokenFor_def Atoi_Itoa in_int64_def)

interpretation pt: page_codec tokenFor tokenStart "2 ^ 63"
  by unfold_locales (rule tokenStart_tokenFor, assumption, simp add: tokenFor_def)

lemma pageSizeOf_bounds: "0 < mx \<Longrightarrow> 0 < pageSizeOf pageSize mx \<and> pageSizeOf pageSize mx \<le> mx"
  by (auto simp: pageSizeOf_def)

lemma paginate_start:
  assumes "pt.start_of tok = Some start"
  shows "paginate names ps tok mx =
    (if start + pageSizeOf ps mx \<ge> length names then Inr (drop start names, [])
     else Inr (take (pageSizeOf ps mx) (drop start names), tokenFor (start + pageSizeOf ps mx)))"
  using assms by (auto simp: paginate_def pt.start_of_def Let_def)

text \<open>The client's loop: collect pages until the next token is empty; fuel counts the pages.\<close>

fun follow_pages :: "nat \<Rightarrow> 'a list \<Rightarrow> int32 \<Rightarrow> nat \<Rightarrow> string \<Rightarrow> 'a list list option" where
  "follow_pages 0 names ps mx tok = None"
| "follow_pages (Suc fuel) names ps mx tok =
     (case paginate names ps tok mx of
        Inl _ \<Rightarrow> None
      | Inr (page, next) \<Rightarrow>
          if next = [] then Some [page]
          else map_option (Cons page) (follow_pages fuel names ps mx next))"

lemma follow_pages_from:
  assumes "0 < mx" and "length names < 2 ^ 63"
  shows "start \<le> length names \<Longrightarrow> length names - start < fuel \<Longrightarrow> pt.start_of tok = Some start \<Longrightarrow>
    \<exists>pages. follow_pages fuel names ps mx tok = Some pages \<and> concat pages = drop start names \<and>
      (\<forall>p \<in> set pages. length p \<le> pageSizeOf ps mx)"
proof (induction fuel arbitrary: start tok)
  case 0
  then show ?case by simp
next
  case (Suc fuel)
  let ?s = "pageSizeOf ps mx"
  have s: "0 < ?s" using pageSizeOf_bounds [OF assms(1)] by simp
  note pg = paginate_start [OF Suc.prems(3), of names ps mx]
  show ?case
  proof (cases "start + ?s \<ge> length names")
    case True
    with pg show ?thesis by auto
  next
    case False
    let ?next = "start + ?s"
    have "pt.start_of (tokenFor ?next) = Some ?next"
      using False assms(2) by (intro pt.start_of_enc) simp
    moreover have "length names - ?next < fuel" using Suc.prems(2) False s by linarith
    ultimately obtain pages where pages: "follow_pages fuel names ps mx (tokenFor ?next) = Some pages"
      "concat pages = drop ?next names" "\<forall>p \<in> set pages. length p \<le> ?s"
      using Suc.IH [of ?next "tokenFor ?next"] False by auto
    have "take ?s (drop start names) @ drop ?next names = drop start names"
      by (metis add.commute append_take_drop_id drop_drop)
    with False pg pages pt.enc_nonempty show ?thesis by auto
  qed
qed

section \<open>Properties\<close>

text \<open>
  Listing is complete and terminates: a client that starts with the empty token and
  follows the returned tokens gets, after at most one page per name plus one, pages that
  together are the whole list in order, none longer than the effective page size, which is
  at least 1 and never above the maximum of the call.
\<close>

lemma pages_cover_list:
  assumes "0 < mx" and "length names < 2 ^ 63"
  shows "\<exists>pages. follow_pages (Suc (length names)) names pageSize mx [] = Some pages \<and>
    concat pages = names \<and> (\<forall>p \<in> set pages. length p \<le> pageSizeOf pageSize mx) \<and>
    0 < pageSizeOf pageSize mx \<and> pageSizeOf pageSize mx \<le> mx"
  using follow_pages_from [OF assms, of 0 "Suc (length names)" "[]" pageSize] pt.start_of_Nil
    pageSizeOf_bounds [OF assms(1), of pageSize] by auto

text \<open>
  A page token is rejected as an invalid argument exactly when it is not empty and is not
  raw URL base64 of a decimal \<^verbatim>\<open>int\<close> that is not negative; every other token yields a
  page, the empty one when it points past the end.
\<close>

lemma paginate_rejects_exactly_bad_tokens:
  "(paginate names pageSize tok mx =
      Inl (Errorf InvalidArgument ''invalid page_token %q'' [tok]) \<longleftrightarrow>
      tok \<noteq> [] \<and> (\<forall>raw i. DecodeString tok = Some raw \<longrightarrow> Atoi raw = Some i \<longrightarrow> i < 0)) \<and>
   (is_ok (paginate names pageSize tok mx) \<longleftrightarrow>
      tok = [] \<or> (\<exists>raw i. DecodeString tok = Some raw \<and> Atoi raw = Some i \<and> 0 \<le> i))"
  by (auto simp: paginate_def tokenStart_def Let_def split: option.splits if_splits)

end
