(* ===== verification/Engine.thy ===== *)
theory Engine
  imports Machine_Inv Validation Paging
begin

text \<open>
  \<^verbatim>\<open>core/engine.go\<close>: the engine's tables and every API operation on them, each composed of the
  lookups under the engine's lock and the critical section of the queue it finds
  (\<^verbatim>\<open>Queue_Ops\<close>, \<^verbatim>\<open>Queue_State\<close>). An operation runs to its end before the next one here;
  how operations interleave with the timers and dispatches of a queue is the subject of
  \<^verbatim>\<open>Queue_Machine\<close>, and how they interleave with each other that of \<^verbatim>\<open>System\<close>. IAM policies are protobuf messages the engine only stores and copies: their
  type is a parameter, with the empty message as an argument. A call that reads the clock several times takes one reading
  per read.
\<close>

section \<open>State\<close>

record Config =
  cfg_DefaultAppEngineHost :: string
  cfg_TaskTTL :: duration
  cfg_TombstoneTTL :: duration
  cfg_OpenIDIssuer :: string
  cfg_HardResetOnPurge :: bool

record 'p Engine =
  e_queues :: "(string, queueState) gomap"
  e_policies :: "(string, 'p) gomap"
  e_conf :: EngineConf

definition defaultTaskTTL :: duration where "defaultTaskTTL = 31 * 24 * hour"
definition defaultTombstoneTTL :: duration where "defaultTombstoneTTL = 24 * hour"

definition NewEngine :: "Config \<Rightarrow> 'p Engine" where
  "NewEngine cfg =
     (let taskTTL = (if cfg_TaskTTL cfg = 0 then defaultTaskTTL else cfg_TaskTTL cfg);
          tombstoneTTL = (if cfg_TombstoneTTL cfg = 0 then defaultTombstoneTTL else cfg_TombstoneTTL cfg)
      in \<lparr>e_queues = [], e_policies = [],
          e_conf = \<lparr>eng_taskTTL = taskTTL, eng_tombstoneTTL = tombstoneTTL,
             eng_hardResetOnPurge = cfg_HardResetOnPurge cfg,
             eng_defaultAppEngineHost = cfg_DefaultAppEngineHost cfg\<rparr>\<rparr>)"

definition putQueue :: "string \<Rightarrow> queueState \<Rightarrow> 'p Engine \<Rightarrow> 'p Engine" where
  "putQueue name qs e = e\<lparr>e_queues := gset name qs (e_queues e)\<rparr>"

definition queueLocked :: "string \<Rightarrow> 'p Engine \<Rightarrow> queueState result" where
  "queueLocked name e =
     (case gget (e_queues e) name of
        None \<Rightarrow> Inl (Errorf NotFound ''queue %q not found'' [name])
      | Some qs \<Rightarrow> Inr qs)"

definition taskQueue :: "string \<Rightarrow> 'p Engine \<Rightarrow> queueState result" where
  "taskQueue name e =
     (if parseTaskName name = None then Inl (Errorf InvalidArgument ''invalid task name %q'' [name])
      else queueLocked (taskQueueOf name) e)"

section \<open>Queue operations\<close>

definition queueIDReSource :: string where
  "queueIDReSource = ''^[A-Za-z0-9-]{1,100}$''"

definition CreateQueue :: "string \<Rightarrow> Queue option \<Rightarrow> 'p Engine \<Rightarrow> 'p Engine \<times> Queue result" where
  "CreateQueue parent qp e =
     (if parseLocationName parent = None
      then (e, Inl (Errorf InvalidArgument ''invalid parent %q'' [parent]))
      else case qp of
        None \<Rightarrow> (e, Inl (Errorf InvalidArgument ''queue.name is required'' []))
      | Some q \<Rightarrow>
          if q_Name q = [] then (e, Inl (Errorf InvalidArgument ''queue.name is required'' []))
          else if parseQueueName (q_Name q) = None
          then (e, Inl (Errorf InvalidArgument ''invalid queue name %q'' [q_Name q]))
          else if \<not> queueIDRe (queueID (q_Name q))
          then (e, Inl (Errorf InvalidArgument ''invalid queue id %q: must match %s''
                          [queueID (q_Name q), queueIDReSource]))
          else if queueParent (q_Name q) \<noteq> parent
          then (e, Inl (Errorf InvalidArgument ''queue name does not match parent'' []))
          else if gget (e_queues e) (q_Name q) \<noteq> None
          then (e, Inl (Errorf AlreadyExists ''queue %q already exists'' [q_Name q]))
          else let qs = newQueueState (applyQueueDefaults q)
               in (putQueue (q_Name q) qs e, Inr (snapshotLocked qs)))"

definition EnsureQueue :: "string \<Rightarrow> 'p Engine \<Rightarrow> 'p Engine \<times> unit result" where
  "EnsureQueue name e =
     (if parseQueueName name = None
      then (e, Inl (Errorf InvalidArgument ''invalid queue name %q'' [name]))
      else if gget (e_queues e) name \<noteq> None then (e, Inr ())
      else let (e', r) = CreateQueue (queueParent name) (Some (zeroQueue\<lparr>q_Name := name\<rparr>)) e
           in (e', case r of Inl err \<Rightarrow> Inl err | Inr _ \<Rightarrow> Inr ()))"

definition GetQueue :: "string \<Rightarrow> 'p Engine \<Rightarrow> Queue result" where
  "GetQueue name e = (case queueLocked name e of Inl err \<Rightarrow> Inl err | Inr qs \<Rightarrow> Inr (snapshotLocked qs))"

definition ListQueues :: "string \<Rightarrow> int32 \<Rightarrow> string \<Rightarrow> 'p Engine \<Rightarrow> (Queue list \<times> string) result" where
  "ListQueues parent pageSize pageToken e =
     (if parseLocationName parent = None
      then Inl (Errorf InvalidArgument ''invalid parent %q'' [parent])
      else let names = sort (filter (\<lambda>name. queueParent name = parent) (keys_of (e_queues e)))
           in case paginate names pageSize pageToken maxListQueuesPageSize of
                Inl err \<Rightarrow> Inl err
              | Inr (page, next) \<Rightarrow>
                  Inr (List.map_filter (\<lambda>name. map_option snapshotLocked (gget (e_queues e) name)) page, next))"

definition UpdateQueue :: "Queue option \<Rightarrow> QueueField list \<Rightarrow> 'p Engine \<Rightarrow> 'p Engine \<times> Queue result" where
  "UpdateQueue qp flds e =
     (case qp of
        None \<Rightarrow> (e, Inl (Errorf InvalidArgument ''queue.name is required'' []))
      | Some q \<Rightarrow>
          if q_Name q = [] then (e, Inl (Errorf InvalidArgument ''queue.name is required'' []))
          else if parseQueueName (q_Name q) = None
          then (e, Inl (Errorf InvalidArgument ''invalid queue name %q'' [q_Name q]))
          else if \<not> queueIDRe (queueID (q_Name q))
          then (e, Inl (Errorf InvalidArgument ''invalid queue id %q: must match %s''
                          [queueID (q_Name q), queueIDReSource]))
          else case gget (e_queues e) (q_Name q) of
            None \<Rightarrow>
              let qs = newQueueState (applyQueueDefaults q)
              in (putQueue (q_Name q) qs e, Inr (snapshotLocked qs))
          | Some qs \<Rightarrow>
              let (qs', snap) = updateQueueLocked q flds qs
              in (putQueue (q_Name q) qs' e, Inr snap))"

text \<open>
  \<^verbatim>\<open>stop\<close> leaves the deleted queue without tasks and its timers stopped; the queue state is then
  unreachable from the engine.
\<close>

definition DeleteQueue :: "string \<Rightarrow> 'p Engine \<Rightarrow> 'p Engine \<times> unit result" where
  "DeleteQueue name e =
     (case queueLocked name e of
        Inl err \<Rightarrow> (e, Inl err)
      | Inr qs \<Rightarrow>
          (let e1 = putQueue name (stop qs) e
           in e1\<lparr>e_queues := gdel name (e_queues e1), e_policies := gdel name (e_policies e1)\<rparr>, Inr ()))"

definition PurgeQueue :: "time \<Rightarrow> string \<Rightarrow> 'p Engine \<Rightarrow> 'p Engine \<times> Queue result" where
  "PurgeQueue now name e =
     (case queueLocked name e of
        Inl err \<Rightarrow> (e, Inl err)
      | Inr qs \<Rightarrow>
          let qs' = purge (e_conf e) now qs in (putQueue name qs' e, Inr (snapshotLocked qs')))"

definition SetQueueState :: "string \<Rightarrow> State \<Rightarrow> 'p Engine \<Rightarrow> 'p Engine \<times> Queue result" where
  "SetQueueState name st e =
     (case queueLocked name e of
        Inl err \<Rightarrow> (e, Inl err)
      | Inr qs \<Rightarrow> let (qs', snap) = setStateLocked st qs in (putQueue name qs' e, Inr snap))"

section \<open>Task operations\<close>

text \<open>The stamped task: what \<^verbatim>\<open>CreateTask\<close> makes of the caller's task before it is added.\<close>

definition stampTask :: "time \<Rightarrow> string \<Rightarrow> Task \<Rightarrow> Task" where
  "stampTask now name t =
     (let t1 = t\<lparr>t_Name := name, t_CreateTime := now\<rparr>;
          t2 = (if IsZero (t_ScheduleTime t1) then t1\<lparr>t_ScheduleTime := now\<rparr> else t1)
      in t2\<lparr>t_DispatchCount := 0, t_ResponseCount := 0\<rparr>)"

definition CreateTask :: "(nat \<Rightarrow> time) \<Rightarrow> string \<Rightarrow> Task option \<Rightarrow> 'p Engine \<Rightarrow> 'p Engine \<times> Task result" where
  "CreateTask clk parent tp e =
     (if parseQueueName parent = None
      then (e, Inl (Errorf InvalidArgument ''invalid parent %q'' [parent]))
      else case tp of
        None \<Rightarrow> (e, Inl (Errorf InvalidArgument ''task is required'' []))
      | Some t \<Rightarrow>
        case validateCreateTask (clk 0) t of
          Some err \<Rightarrow> (e, Inl err)
        | None \<Rightarrow>
          case queueLocked parent e of
            Inl err \<Rightarrow> (e, Inl err)
          | Inr qs \<Rightarrow>
              let (qs1, generated) = (if t_Name t = [] then nextTaskID (clk 1) qs else (qs, [])) in
              case resolveTaskName parent (t_Name t) generated of
                Inl err \<Rightarrow> (putQueue parent qs1 e, Inl err)
              | Inr name \<Rightarrow>
                  let (qs2, r) = createTaskLocked (e_conf e) (clk 3) (stampTask (clk 2) name t) qs1
                  in (putQueue parent qs2 e, r))"

definition GetTask :: "string \<Rightarrow> 'p Engine \<Rightarrow> Task result" where
  "GetTask name e = (case taskQueue name e of Inl err \<Rightarrow> Inl err | Inr qs \<Rightarrow> getTaskLocked name qs)"

definition ListTasks :: "string \<Rightarrow> int32 \<Rightarrow> string \<Rightarrow> 'p Engine \<Rightarrow> (Task list \<times> string) result" where
  "ListTasks parent pageSize pageToken e =
     (case queueLocked parent e of
        Inl err \<Rightarrow> Inl err
      | Inr qs \<Rightarrow>
          let names = sort (keys_of (qs_tasks qs))
          in case paginate names pageSize pageToken maxListTasksPageSize of
               Inl err \<Rightarrow> Inl err
             | Inr (page, next) \<Rightarrow>
                 Inr (List.map_filter
                        (\<lambda>name. map_option (\<lambda>r. cloneTask (ts_t (cell qs r))) (gget (qs_tasks qs) name)) page,
                      next))"

definition DeleteTask :: "time \<Rightarrow> string \<Rightarrow> 'p Engine \<Rightarrow> 'p Engine \<times> unit result" where
  "DeleteTask now name e =
     (case taskQueue name e of
        Inl err \<Rightarrow> (e, Inl err)
      | Inr qs \<Rightarrow>
          let (qs', r) = deleteTaskLocked (e_conf e) now name qs in (putQueue (taskQueueOf name) qs' e, r))"

definition RunTask ::
  "(int option \<Rightarrow> int64) \<Rightarrow> golib \<Rightarrow> (string \<Rightarrow> string \<Rightarrow> string) \<Rightarrow> client \<Rightarrow> (nat \<Rightarrow> time) \<Rightarrow> string
     \<Rightarrow> 'p Engine \<Rightarrow> 'p Engine \<times> Task result" where
  "RunTask oob gl token client clk name e =
     (case taskQueue name e of
        Inl err \<Rightarrow> (e, Inl err)
      | Inr qs \<Rightarrow>
          (case runTaskLocked (clk 0) name qs of
             (qs1, Inl err) \<Rightarrow> (putQueue (taskQueueOf name) qs1 e, Inl err)
           | (qs1, Inr r) \<Rightarrow>
               let qs2 = attempt oob gl token client (e_conf e) (clk 1) (clk 2) (clk 3) r qs1
               in (putQueue (taskQueueOf name) qs2 e, Inr (cloneTask (ts_t (cell qs2 r))))))"

section \<open>IAM\<close>

definition GetIamPolicy :: "'p \<Rightarrow> string \<Rightarrow> 'p Engine \<Rightarrow> 'p result" where
  "GetIamPolicy emptyPolicy resource e =
     (if parseQueueName resource = None
      then Inl (Errorf InvalidArgument ''invalid resource %q'' [resource])
      else case queueLocked resource e of
        Inl err \<Rightarrow> Inl err
      | Inr _ \<Rightarrow> (case gget (e_policies e) resource of Some p \<Rightarrow> Inr p | None \<Rightarrow> Inr emptyPolicy))"

definition SetIamPolicy :: "'p \<Rightarrow> string \<Rightarrow> 'p option \<Rightarrow> 'p Engine \<Rightarrow> 'p Engine \<times> 'p result" where
  "SetIamPolicy emptyPolicy resource policy e =
     (if parseQueueName resource = None
      then (e, Inl (Errorf InvalidArgument ''invalid resource %q'' [resource]))
      else case queueLocked resource e of
        Inl err \<Rightarrow> (e, Inl err)
      | Inr _ \<Rightarrow>
          let p = (case policy of None \<Rightarrow> emptyPolicy | Some p \<Rightarrow> p)
          in (e\<lparr>e_policies := gset resource p (e_policies e)\<rparr>, Inr p))"

definition TestIamPermissions :: "string \<Rightarrow> string list \<Rightarrow> 'p Engine \<Rightarrow> string list result" where
  "TestIamPermissions resource permissions e =
     (if parseQueueName resource = None
      then Inl (Errorf InvalidArgument ''invalid resource %q'' [resource])
      else case queueLocked resource e of Inl err \<Rightarrow> Inl err | Inr _ \<Rightarrow> Inr permissions)"

end
