(* ===== verification/Engine_Inv.thy ===== *)
theory Engine_Inv
  imports Engine
begin

text \<open>
  The invariant of the engine: its tables have distinct keys, every queue is well formed and
  stored under its own valid name, every task is stored in the queue its name says, and
  only existing queues have a policy. Every API operation keeps it.
\<close>

section \<open>The invariant\<close>

definition good :: "string \<Rightarrow> queueState \<Rightarrow> bool" where
  "good n qs \<longleftrightarrow> qinv qs \<and> q_Name (qs_q qs) = n \<and> parseQueueName n \<noteq> None \<and> queueIDRe (queueID n) \<and>
     (\<forall>tn r. gget (qs_tasks qs) tn = Some r \<longrightarrow> taskQueueOf tn = n \<and> parseTaskName tn \<noteq> None)"

definition einv :: "'p Engine \<Rightarrow> bool" where
  "einv e \<longleftrightarrow> gwf (e_queues e) \<and> gwf (e_policies e) \<and>
     (\<forall>n qs. gget (e_queues e) n = Some qs \<longrightarrow> good n qs) \<and>
     (\<forall>n p. gget (e_policies e) n = Some p \<longrightarrow> gget (e_queues e) n \<noteq> None)"

lemma einv_good: "einv e \<Longrightarrow> gget (e_queues e) n = Some qs \<Longrightarrow> good n qs"
  by (simp add: einv_def)

lemma einv_NewEngine: "einv (NewEngine cfg)"
  by (simp add: einv_def NewEngine_def Let_def)

lemma queueLocked_Inr [simp]: "queueLocked n e = Inr qs \<longleftrightarrow> gget (e_queues e) n = Some qs"
  by (auto simp: queueLocked_def split: option.split)

lemma queueLocked_Inl: "queueLocked n e = Inl err \<longleftrightarrow>
    gget (e_queues e) n = None \<and> err = Errorf NotFound ''queue %q not found'' [n]"
  by (auto simp: queueLocked_def split: option.split)

lemma taskQueue_Inr: "taskQueue n e = Inr qs \<longleftrightarrow>
    parseTaskName n \<noteq> None \<and> gget (e_queues e) (taskQueueOf n) = Some qs"
  by (auto simp: taskQueue_def)

lemma putQueue_simps [simp]:
  "e_policies (putQueue n qs e) = e_policies e" "e_conf (putQueue n qs e) = e_conf e"
  "e_queues (putQueue n qs e) = gset n qs (e_queues e)"
  by (simp_all add: putQueue_def)

lemma einv_putQueue: "einv e \<Longrightarrow> good n qs \<Longrightarrow> einv (putQueue n qs e)"
  by (auto simp: einv_def gm.wf_set gm.get_set)

lemma good_shrinks:
  assumes "good n qs" and "qinv qs'" and "q_Name (qs_q qs') = q_Name (qs_q qs)"
    and "\<And>tn r. gget (qs_tasks qs') tn = Some r \<Longrightarrow> gget (qs_tasks qs) tn \<noteq> None"
  shows "good n qs'"
  using assms by (fastforce simp: good_def)

section \<open>Queue operations\<close>

lemma good_new:
  "parseQueueName (q_Name q) \<noteq> None \<Longrightarrow> queueIDRe (queueID (q_Name q)) \<Longrightarrow>
     good (q_Name q) (newQueueState (applyQueueDefaults q))"
  by (simp add: good_def qinv_newQueueState)

lemma einv_CreateQueue [inv_intros]: "einv e \<Longrightarrow> einv (fst (CreateQueue parent qp e))"
  by (auto simp: CreateQueue_def Let_def einv_putQueue good_new split: option.split)

lemma einv_EnsureQueue [inv_intros]: "einv e \<Longrightarrow> einv (fst (EnsureQueue n e))"
  by (simp add: EnsureQueue_def split_beta einv_CreateQueue)

lemma updateQueueLocked_frame [simp]:
  "qs_tasks (fst (updateQueueLocked q fs qs)) = qs_tasks qs"
  "q_Name (qs_q (fst (updateQueueLocked q fs qs))) = q_Name (qs_q qs)"
  by (simp_all add: updateQueueLocked_def rebuildLimits_def Let_def)

lemma good_updateQueueLocked: "good n qs \<Longrightarrow> good n (fst (updateQueueLocked q fs qs))"
  by (rule good_shrinks) (auto simp: good_def intro: inv_intros)

lemma einv_UpdateQueue [inv_intros]: "einv e \<Longrightarrow> einv (fst (UpdateQueue qp fs e))"
  by (auto simp: UpdateQueue_def Let_def split_beta einv_putQueue good_new good_updateQueueLocked
      einv_good split: option.split)

lemma einv_DeleteQueue [inv_intros]:
  assumes "einv e" shows "einv (fst (DeleteQueue n e))"
  using assms
  by (auto simp: DeleteQueue_def Let_def einv_def gm.wf_set gm.wf_del gm.get_del gm.get_set
      split: sum.split if_splits)

lemma purge_keeps [simp]:
  "qinv qs \<Longrightarrow> q_Name (qs_q (purge eng now qs)) = q_Name (qs_q qs)"
  using retiring_purge [of qs eng now] by (simp add: purge_def Let_def retiring_def qinv_qbase)

lemma good_purge: "good n qs \<Longrightarrow> good n (purge eng now qs)"
  by (rule good_shrinks) (auto simp: good_def purge_facts intro: inv_intros)

lemma einv_PurgeQueue [inv_intros]: "einv e \<Longrightarrow> einv (fst (PurgeQueue now n e))"
  by (auto simp: PurgeQueue_def Let_def einv_putQueue good_purge einv_good split: sum.split)

lemma good_setStateLocked: "good n qs \<Longrightarrow> good n (fst (setStateLocked st qs))"
  by (rule good_shrinks) (auto simp: good_def setStateLocked_def Let_def intro: inv_intros)

lemma einv_SetQueueState [inv_intros]: "einv e \<Longrightarrow> einv (fst (SetQueueState n st e))"
  by (auto simp: SetQueueState_def split_beta einv_putQueue good_setStateLocked einv_good
      split: sum.split)

section \<open>Task operations\<close>

lemma segment_nextTaskID: "segment (snd (nextTaskID now qs))"
  by (simp add: nextTaskID_def Let_def segment_dec_nat)

lemma good_nextTaskID: "good n qs \<Longrightarrow> good n (fst (nextTaskID now qs))"
  by (rule good_shrinks) (auto simp: good_def intro: inv_intros)

lemma stampTask_simps [simp]:
  "t_Name (stampTask now n t) = n" "t_Target (stampTask now n t) = t_Target t"
  "t_CreateTime (stampTask now n t) = now"
  "t_ScheduleTime (stampTask now n t) = (if IsZero (t_ScheduleTime t) then now else t_ScheduleTime t)"
  "t_DispatchCount (stampTask now n t) = 0" "t_ResponseCount (stampTask now n t) = 0"
  "t_DispatchDeadline (stampTask now n t) = t_DispatchDeadline t"
  by (simp_all add: stampTask_def Let_def)

lemma good_createTaskLocked:
  assumes "good n qs" and "taskQueueOf (t_Name t) = n" and "parseTaskName (t_Name t) \<noteq> None"
  shows "good n (fst (createTaskLocked eng now t qs))"
proof (cases "is_ok (snd (createTaskLocked eng now t qs))")
  case True
  then have add: "fst (createTaskLocked eng now t qs) = addNewTask eng now t qs"
    "gget (qs_tasks qs) (t_Name t) = None"
    by (auto simp: createTaskLocked_def split: if_splits)
  with assms show ?thesis by (auto simp: good_def gm.get_set qinv_addNewTask)
next
  case False
  then have "fst (createTaskLocked eng now t qs) = qs"
    by (auto simp: createTaskLocked_def split: if_splits)
  with assms(1) show ?thesis by simp
qed

text \<open>The queue and the identifier \<^verbatim>\<open>CreateTask\<close> resolves the name with.\<close>

definition generated :: "time \<Rightarrow> Task \<Rightarrow> queueState \<Rightarrow> queueState \<times> string" where
  "generated now t qs = (if t_Name t = [] then nextTaskID now qs else (qs, []))"

lemma generated_facts:
  "qs_tasks (fst (generated now t qs)) = qs_tasks qs" "qs_q (fst (generated now t qs)) = qs_q qs"
  "qs_tombstones (fst (generated now t qs)) = qs_tombstones qs"
  "cell (fst (generated now t qs)) r = cell qs r"
  "good n qs \<Longrightarrow> good n (fst (generated now t qs))"
  by (simp_all add: generated_def good_nextTaskID)

lemma resolved_name:
  assumes "parseQueueName parent \<noteq> None"
    and "resolveTaskName parent (t_Name t) (snd (generated now t qs)) = Inr n"
  shows "taskQueueOf n = parent \<and> parseTaskName n \<noteq> None"
proof (cases "t_Name t = []")
  case True
  have s: "segment (snd (nextTaskID now qs))" by (rule segment_nextTaskID)
  from assms(1) obtain p l q where pq: "parent = queueName p l q" "segment p" "segment l" "segment q"
    by (auto simp: parseQueueName_iff)
  have "n = taskName p l q (snd (nextTaskID now qs))"
    using True assms(2) pq by (simp add: resolveTaskName_def generated_def queueName_def taskName_def)
  with pq s show ?thesis by simp
next
  case False
  with assms(2) show ?thesis using resolveTaskName_provided by blast
qed

lemma CreateTask_unfold:
  "CreateTask clk parent (Some t) e =
     (if parseQueueName parent = None
      then (e, Inl (Errorf InvalidArgument ''invalid parent %q'' [parent]))
      else case validateCreateTask (clk 0) t of Some err \<Rightarrow> (e, Inl err) | None \<Rightarrow>
        case gget (e_queues e) parent of
          None \<Rightarrow> (e, Inl (Errorf NotFound ''queue %q not found'' [parent]))
        | Some qs \<Rightarrow>
            case resolveTaskName parent (t_Name t) (snd (generated (clk 1) t qs)) of
              Inl err \<Rightarrow> (putQueue parent (fst (generated (clk 1) t qs)) e, Inl err)
            | Inr name \<Rightarrow>
                (let r = createTaskLocked (e_conf e) (clk 3) (stampTask (clk 2) name t)
                           (fst (generated (clk 1) t qs))
                 in (putQueue parent (fst r) e, snd r)))"
  by (simp add: CreateTask_def generated_def split_beta Let_def queueLocked_def split: option.split sum.split)

lemma einv_CreateTask [inv_intros]:
  assumes "einv e" shows "einv (fst (CreateTask clk parent tp e))"
proof (cases tp)
  case None
  with assms show ?thesis by (simp add: CreateTask_def)
next
  case (Some t)
  have "good parent (fst (createTaskLocked (e_conf e) (clk 3) (stampTask (clk 2) n t)
      (fst (generated (clk 1) t qs))))"
    if "gget (e_queues e) parent = Some qs" "parseQueueName parent \<noteq> None"
      "resolveTaskName parent (t_Name t) (snd (generated (clk 1) t qs)) = Inr n" for qs n
    using resolved_name [OF that(2,3)] that(1) assms
    by (intro good_createTaskLocked) (simp_all add: generated_facts einv_good)
  then show ?thesis
    unfolding Some CreateTask_unfold using assms
    by (auto simp: Let_def einv_putQueue einv_good generated_facts split: option.split sum.split)
qed

lemma good_deleteTaskLocked: "good n qs \<Longrightarrow> good n (fst (deleteTaskLocked eng now tn qs))"
  by (rule good_shrinks)
    (auto simp: good_def deleteTaskLocked_def gm.get_del intro: inv_intros split: option.splits if_splits
      dest: qinv_lookup)

lemma einv_DeleteTask [inv_intros]: "einv e \<Longrightarrow> einv (fst (DeleteTask now n e))"
  by (auto simp: DeleteTask_def split_beta taskQueue_Inr einv_putQueue good_deleteTaskLocked einv_good
      split: sum.split)

lemma runTaskLocked_frame [simp]:
  "qs_tasks (fst (runTaskLocked now tn qs)) = qs_tasks qs" "qs_q (fst (runTaskLocked now tn qs)) = qs_q qs"
  by (simp_all add: runTaskLocked_def split: option.split)

lemma good_runTaskLocked: "good n qs \<Longrightarrow> good n (fst (runTaskLocked now tn qs))"
  by (rule good_shrinks) (auto simp: good_def intro: inv_intros)

lemma applyAttempt_tasks:
  "qs_q (applyAttempt oob eng now r att dt rc hc msg qs) = qs_q qs"
  "qs_tasks (applyAttempt oob eng now r att dt rc hc msg qs) = qs_tasks qs \<or>
     qs_tasks (applyAttempt oob eng now r att dt rc hc msg qs) = gdel (name_of qs r) (qs_tasks qs)"
  using recordAttempt_name
  by (auto simp: applyAttempt_unfold Let_def)
    (auto simp: recorded_def reasoned_def postponed_def cell_updCell)

lemma attempt_applies:
  "attempt oob gl token client eng dt rt now r qs = qs \<or>
     (\<exists>att rc hc msg. attempt oob gl token client eng dt rt now r qs =
        applyAttempt oob eng now r att dt rc hc msg qs)"
  by (auto simp: attempt_def Let_def split_beta split: option.split)

lemma good_attempt:
  assumes "good n qs" and "r < length (qs_cells qs)"
  shows "good n (attempt oob gl token client eng dt rt now r qs)"
proof -
  have "good n (applyAttempt oob eng now r att dt rc hc msg qs)" for att rc hc msg
    using applyAttempt_tasks [of oob eng now r att dt rc hc msg qs] assms
    by (intro good_shrinks [OF assms(1)]) (auto simp: good_def gm.get_del qinv_applyAttempt split: if_splits)
  with attempt_applies [of oob gl token client eng dt rt now r qs] assms(1) show ?thesis by metis
qed

lemma runTaskLocked_Inr:
  "runTaskLocked now n qs = (qs1, Inr r) \<Longrightarrow> gget (qs_tasks qs) n = Some r \<and> length (qs_cells qs1) = length (qs_cells qs)"
  by (auto simp: runTaskLocked_def split: if_splits option.splits)

lemma good_bound: "good n qs \<Longrightarrow> gget (qs_tasks qs) tn = Some r \<Longrightarrow> r < length (qs_cells qs)"
  using qinv_lookup by (auto simp: good_def live_def)

lemma einv_RunTask [inv_intros]:
  assumes inv: "einv e" shows "einv (fst (RunTask oob gl token client clk n e))"
proof (cases "taskQueue n e")
  case (Inl err)
  with inv show ?thesis by (simp add: RunTask_def)
next
  case (Inr qs)
  then have g: "good (taskQueueOf n) qs" using inv by (simp add: taskQueue_Inr einv_good)
  obtain qs1 res where run: "runTaskLocked (clk 0) n qs = (qs1, res)" by fastforce
  have g1: "good (taskQueueOf n) qs1" using good_runTaskLocked [OF g, of "clk 0" n] run by simp
  show ?thesis
  proof (cases res)
    case (Inl err)
    with Inr run inv g1 show ?thesis by (simp add: RunTask_def einv_putQueue)
  next
    case res: (Inr r)
    then have "r < length (qs_cells qs1)" using run runTaskLocked_Inr [of "clk 0" n qs qs1 r] good_bound [OF g] by auto
    then show ?thesis
      using Inr run inv res good_attempt [OF g1] by (simp add: RunTask_def einv_putQueue Let_def)
  qed
qed

lemma einv_SetIamPolicy [inv_intros]: "einv e \<Longrightarrow> einv (fst (SetIamPolicy emptyP n p e))"
  by (auto simp: SetIamPolicy_def Let_def einv_def gm.wf_set gm.get_set split: sum.split if_splits)

section \<open>Sequences of calls\<close>

datatype 'p call =
    CallEnsureQueue string
  | CallCreateQueue string "Queue option"
  | CallUpdateQueue "Queue option" "QueueField list"
  | CallDeleteQueue string
  | CallPurgeQueue time string
  | CallSetQueueState string State
  | CallCreateTask "nat \<Rightarrow> time" string "Task option"
  | CallDeleteTask time string
  | CallRunTask client "nat \<Rightarrow> time" string
  | CallSetIamPolicy 'p string "'p option"

text \<open>The engine after a call; the environment's parameters are those of a queue's machine.\<close>

fun exec :: "menv \<Rightarrow> 'p call \<Rightarrow> 'p Engine \<Rightarrow> 'p Engine option" where
  "exec env (CallEnsureQueue n) e = Some (fst (EnsureQueue n e))"
| "exec env (CallCreateQueue p q) e = Some (fst (CreateQueue p q e))"
| "exec env (CallUpdateQueue q fs) e = Some (fst (UpdateQueue q fs e))"
| "exec env (CallDeleteQueue n) e = Some (fst (DeleteQueue n e))"
| "exec env (CallPurgeQueue now n) e = Some (fst (PurgeQueue now n e))"
| "exec env (CallSetQueueState n st) e = Some (fst (SetQueueState n st e))"
| "exec env (CallCreateTask clk p t) e = Some (fst (CreateTask clk p t e))"
| "exec env (CallDeleteTask now n) e = Some (fst (DeleteTask now n e))"
| "exec env (CallRunTask client clk n) e =
     Some (fst (RunTask (me_oob env) (me_gl env) (me_token env) client clk n e))"
| "exec env (CallSetIamPolicy emptyP n p) e = Some (fst (SetIamPolicy emptyP n p e))"

text \<open>The queue a call is about.\<close>

fun callQueue :: "'p call \<Rightarrow> string" where
  "callQueue (CallEnsureQueue n) = n"
| "callQueue (CallCreateQueue p q) = (case q of None \<Rightarrow> [] | Some q \<Rightarrow> q_Name q)"
| "callQueue (CallUpdateQueue q fs) = (case q of None \<Rightarrow> [] | Some q \<Rightarrow> q_Name q)"
| "callQueue (CallDeleteQueue n) = n"
| "callQueue (CallPurgeQueue now n) = n"
| "callQueue (CallSetQueueState n st) = n"
| "callQueue (CallCreateTask clk p t) = p"
| "callQueue (CallDeleteTask now n) = taskQueueOf n"
| "callQueue (CallRunTask client clk n) = taskQueueOf n"
| "callQueue (CallSetIamPolicy emptyP n p) = n"

lemma exec_einv: "einv e \<Longrightarrow> exec env c e = Some e' \<Longrightarrow> einv e'"
  by (cases c) (auto intro: inv_intros)

interpretation en: invariant_system "exec env" einv for env
  by unfold_locales (rule exec_einv)

end
