(* ===== verification/Engine_Props.thy ===== *)
theory Engine_Props
  imports Engine_Inv
begin

text \<open>
  What the API operations of the engine promise: an abstract store of queues and tasks that
  they implement, isolation between queues, complete listings, field masks, and policies
  that live as long as their queue.
\<close>

section \<open>The abstract store\<close>

text \<open>The tasks of each existing queue by name, without timers, tombstones or limits.\<close>

definition store :: "'p Engine \<Rightarrow> string \<Rightarrow> (string \<Rightarrow> Task option) option" where
  "store e qn =
     map_option (\<lambda>qs tn. map_option (task_of qs) (gget (qs_tasks qs) tn)) (gget (e_queues e) qn)"

lemma store_putQueue:
  "store (putQueue n qs e) = (store e)(n \<mapsto> (\<lambda>tn. map_option (task_of qs) (gget (qs_tasks qs) tn)))"
  by (auto simp: store_def gm.get_set)

lemma store_same:
  "gget (e_queues e) n = Some qs \<Longrightarrow> qs_tasks qs' = qs_tasks qs \<Longrightarrow> (\<And>r. task_of qs' r = task_of qs r) \<Longrightarrow>
     store (putQueue n qs' e) = store e"
  by (auto simp: store_putQueue) (auto simp: store_def)

lemma GetTask_store:
  "GetTask n e =
     (if parseTaskName n = None then Inl (Errorf InvalidArgument ''invalid task name %q'' [n])
      else case store e (taskQueueOf n) of
        None \<Rightarrow> Inl (Errorf NotFound ''queue %q not found'' [taskQueueOf n])
      | Some ts \<Rightarrow>
          (case ts n of None \<Rightarrow> Inl (Errorf NotFound ''task %q not found'' [n])
           | Some t \<Rightarrow> Inr (cloneTask t)))"
  by (simp add: GetTask_def taskQueue_def queueLocked_def getTaskLocked_def store_def split: option.split)

lemma store_generated:
  "gget (e_queues e) p = Some qs \<Longrightarrow> store (putQueue p (fst (generated now t qs)) e) = store e"
  by (rule store_same) (simp_all add: generated_facts)

lemma addNewTask_store:
  assumes "good n qs"
  shows "(\<lambda>tn. map_option (task_of (addNewTask eng now t qs)) (gget (qs_tasks (addNewTask eng now t qs)) tn)) =
    (\<lambda>tn. map_option (task_of qs) (gget (qs_tasks qs) tn))(t_Name t \<mapsto> t)"
proof
  fix tn
  show "map_option (task_of (addNewTask eng now t qs)) (gget (qs_tasks (addNewTask eng now t qs)) tn) =
    ((\<lambda>tn. map_option (task_of qs) (gget (qs_tasks qs) tn))(t_Name t \<mapsto> t)) tn"
    using good_bound [OF assms, of tn]
    by (cases "gget (qs_tasks qs) tn") (auto simp: gm.get_set addNewTask_cells)
qed

text \<open>A demonstration engine: one queue with one task.\<close>

definition demoName :: string where "demoName = ''projects/p/locations/l/queues/q''"

definition demoCfg :: Config where
  "demoCfg = \<lparr>cfg_DefaultAppEngineHost = [], cfg_TaskTTL = 0, cfg_TombstoneTTL = 0,
     cfg_OpenIDIssuer = [], cfg_HardResetOnPurge = False\<rparr>"

definition demoEngine :: "unit Engine" where
  "demoEngine = fst (CreateTask (\<lambda>_. 5) demoName (Some (demoTask (demoName @ ''/tasks/a'')))
     (fst (EnsureQueue demoName (NewEngine demoCfg))))"

lemma demoEngine_inv: "einv demoEngine"
  by (simp add: demoEngine_def einv_CreateTask einv_EnsureQueue einv_NewEngine)

lemma snapshot_new: "snapshotLocked (newQueueState q) = q\<lparr>q_TasksCount := 0\<rparr>"
  by (simp add: snapshotLocked_def)

text \<open>The client's loop over \<^verbatim>\<open>ListTasks\<close>: follow the tokens until the empty one; fuel counts the calls.\<close>

fun follow_tasks :: "nat \<Rightarrow> 'p Engine \<Rightarrow> string \<Rightarrow> int32 \<Rightarrow> string \<Rightarrow> Task list option" where
  "follow_tasks 0 e parent ps tok = None"
| "follow_tasks (Suc fuel) e parent ps tok =
     (case ListTasks parent ps tok e of
        Inl _ \<Rightarrow> None
      | Inr (ts, next) \<Rightarrow>
          if next = [] then Some ts else map_option ((@) ts) (follow_tasks fuel e parent ps next))"

lemma map_filter_append: "List.map_filter f (xs @ ys) = List.map_filter f xs @ List.map_filter f ys"
  by (simp add: List.map_filter_def)

lemma follow_tasks_pages:
  assumes "gget (e_queues e) parent = Some qs"
  shows "follow_tasks fuel e parent ps tok =
    map_option (\<lambda>pages. List.map_filter (\<lambda>n. map_option (\<lambda>r. cloneTask (task_of qs r)) (gget (qs_tasks qs) n))
        (concat pages))
      (follow_pages fuel (sort (keys_of (qs_tasks qs))) ps maxListTasksPageSize tok)"
proof (induction fuel arbitrary: tok)
  case (Suc fuel)
  then show ?case
    using assms
    by (auto simp: ListTasks_def queueLocked_def Let_def map_filter_append option.map_comp comp_def
        split: sum.split option.split)
qed simp

lemma map_filter_all: "(\<And>x. x \<in> set xs \<Longrightarrow> f x = Some (g x)) \<Longrightarrow> List.map_filter f xs = map g xs"
  by (induction xs) (simp_all add: List.map_filter_def)

lemma cloneTask_name [simp]: "t_Name (cloneTask t) = t_Name t"
  by (simp add: cloneTask_def)

lemma listed_tasks:
  assumes "good parent qs" and "gget (e_queues e) parent = Some qs"
  shows "List.map_filter (\<lambda>n. map_option (\<lambda>r. cloneTask (task_of qs r)) (gget (qs_tasks qs) n)) (sort (keys_of (qs_tasks qs))) =
      map (\<lambda>n. cloneTask (task_of qs (the (gget (qs_tasks qs) n)))) (sort (keys_of (qs_tasks qs)))"
    and "n \<in> set (keys_of (qs_tasks qs)) \<Longrightarrow> name_of qs (the (gget (qs_tasks qs) n)) = n"
    and "n \<in> set (keys_of (qs_tasks qs)) \<Longrightarrow>
      GetTask n e = Inr (cloneTask (task_of qs (the (gget (qs_tasks qs) n))))"
proof -
  show "List.map_filter (\<lambda>n. map_option (\<lambda>r. cloneTask (task_of qs r)) (gget (qs_tasks qs) n)) (sort (keys_of (qs_tasks qs))) =
      map (\<lambda>n. cloneTask (task_of qs (the (gget (qs_tasks qs) n)))) (sort (keys_of (qs_tasks qs)))"
    by (rule map_filter_all) (auto simp: set_keys_of)
  assume "n \<in> set (keys_of (qs_tasks qs))"
  then obtain r where r: "gget (qs_tasks qs) n = Some r" by (auto simp: set_keys_of)
  then have "name_of qs r = n" "taskQueueOf n = parent" "parseTaskName n \<noteq> None"
    using assms(1) qinv_lookup by (auto simp: good_def)
  with r assms(2) show "name_of qs (the (gget (qs_tasks qs) n)) = n"
    "GetTask n e = Inr (cloneTask (task_of qs (the (gget (qs_tasks qs) n))))"
    by (simp_all add: GetTask_def taskQueue_def queueLocked_def getTaskLocked_def)
qed

lemma setField_fields:
  "q_RateLimits (setField q f c) = q_RateLimits (if f = FieldRateLimits then q else c)"
  "q_RetryConfig (setField q f c) = q_RetryConfig (if f = FieldRetryConfig then q else c)"
  "q_AppEngineRoutingOverride (setField q f c) =
     q_AppEngineRoutingOverride (if f = FieldAppEngineRoutingOverride then q else c)"
  "q_HTTPOverride (setField q f c) = q_HTTPOverride (if f = FieldHTTPOverride then q else c)"
  "q_TaskTTL (setField q f c) = q_TaskTTL c" "q_TombstoneTTL (setField q f c) = q_TombstoneTTL c"
  "q_PurgeTime (setField q f c) = q_PurgeTime c"
  by (cases f; simp)+

lemma fold_setField_fields:
  "q_RateLimits (fold (setField q) fs c) = q_RateLimits (if FieldRateLimits \<in> set fs then q else c)"
  "q_RetryConfig (fold (setField q) fs c) = q_RetryConfig (if FieldRetryConfig \<in> set fs then q else c)"
  "q_AppEngineRoutingOverride (fold (setField q) fs c) =
     q_AppEngineRoutingOverride (if FieldAppEngineRoutingOverride \<in> set fs then q else c)"
  "q_HTTPOverride (fold (setField q) fs c) = q_HTTPOverride (if FieldHTTPOverride \<in> set fs then q else c)"
  "q_TaskTTL (fold (setField q) fs c) = q_TaskTTL c"
  "q_TombstoneTTL (fold (setField q) fs c) = q_TombstoneTTL c"
  "q_PurgeTime (fold (setField q) fs c) = q_PurgeTime c"
  by (induction fs arbitrary: c) (auto simp: setField_fields)

lemma updateQueueLocked_q:
  "qs_q (fst (updateQueueLocked q fs qs)) =
     applyQueueDefaults (fold (setField q) (if fs = [] then [FieldRateLimits, FieldRetryConfig,
       FieldAppEngineRoutingOverride, FieldHTTPOverride] else fs) (qs_q qs))"
  by (simp add: updateQueueLocked_def rebuildLimits_def Let_def)

lemma updateQueueLocked_rest:
  "qs_tombstones (fst (updateQueueLocked q fs qs)) = qs_tombstones qs"
  "qs_cells (fst (updateQueueLocked q fs qs)) = qs_cells qs"
  "snd (updateQueueLocked q fs qs) = snapshotLocked (fst (updateQueueLocked q fs qs))"
  by (simp_all add: updateQueueLocked_def rebuildLimits_def Let_def)

section \<open>Properties\<close>

text \<open>
  Every sequence of API calls on a new engine leaves it well formed: distinct keys, each
  queue stored under its own valid name and internally consistent, each task in the queue its
  name says, and no policy without a queue.
\<close>

lemma engine_invariant:
  assumes "run (exec env) calls (NewEngine cfg) = Some e"
  shows "gwf (e_queues e) \<and> gwf (e_policies e) \<and>
    (\<forall>n qs. gget (e_queues e) n = Some qs \<longrightarrow>
       qinv qs \<and> q_Name (qs_q qs) = n \<and> parseQueueName n \<noteq> None \<and> queueIDRe (queueID n) \<and>
       (\<forall>tn r. gget (qs_tasks qs) tn = Some r \<longrightarrow> name_of qs r = tn \<and> taskQueueOf tn = n)) \<and>
    (\<forall>n. gget (e_policies e) n \<noteq> None \<longrightarrow> gget (e_queues e) n \<noteq> None)"
proof -
  have "einv e" by (rule en.run_inv [OF einv_NewEngine assms])
  then show ?thesis by (auto simp: einv_def good_def dest: qinv_lookup)
qed

text \<open>
  A call changes nothing outside the queue it is about: every other queue keeps its whole
  state and its policy, whether the call succeeds or not.
\<close>

lemma calls_touch_only_their_queue:
  assumes "exec env c e = Some e'" and "q \<noteq> callQueue c"
  shows "gget (e_queues e') q = gget (e_queues e) q \<and> gget (e_policies e') q = gget (e_policies e) q"
proof (cases c)
  case (CallCreateTask clk p t)
  with assms show ?thesis
    by (auto simp: CreateTask_def Let_def split_beta gm.get_set_other split: option.split sum.split)
next
  case (CallRunTask client clk n)
  with assms show ?thesis
    by (auto simp: RunTask_def Let_def gm.get_set_other split: prod.split sum.split)
qed (use assms in \<open>auto simp: EnsureQueue_def CreateQueue_def UpdateQueue_def DeleteQueue_def PurgeQueue_def
      SetQueueState_def DeleteTask_def SetIamPolicy_def Let_def split_beta gm.get_set_other gm.get_del_other
      split: option.split sum.split\<close>)

text \<open>
  C8. \<^verbatim>\<open>CreateTask\<close> implements insertion into the store. When it succeeds, the queue existed and
  had no task of the resolved name, which is the requested name if there was one and always a
  name of that queue; the store gains exactly that task, with the target as given, the schedule
  time as given or now, and zero counters; and the caller gets a copy of it. When it fails, the
  store is unchanged.
\<close>

theorem CreateTask_refines_insert:
  assumes "einv e" and "CreateTask clk parent (Some t) e = (e', r)"
  shows "(is_ok r \<longrightarrow> (\<exists>ts n t'. r = Inr (cloneTask t') \<and> store e parent = Some ts \<and> ts n = None \<and>
      store e' = (store e)(parent \<mapsto> ts(n \<mapsto> t')) \<and>
      taskQueueOf n = parent \<and> (t_Name t \<noteq> [] \<longrightarrow> n = t_Name t) \<and>
      t_Name t' = n \<and> t_Target t' = t_Target t \<and> t_DispatchDeadline t' = t_DispatchDeadline t \<and>
      t_ScheduleTime t' = (if t_ScheduleTime t = zeroTime then clk 2 else t_ScheduleTime t) \<and>
      t_DispatchCount t' = 0 \<and> t_ResponseCount t' = 0)) \<and>
    (\<not> is_ok r \<longrightarrow> store e' = store e)"
proof (cases "parseQueueName parent = None \<or> validateCreateTask (clk 0) t \<noteq> None \<or>
    gget (e_queues e) parent = None")
  case True
  with assms(2) have "e' = e \<and> \<not> is_ok r" by (auto simp: CreateTask_unfold split: if_splits option.splits)
  then show ?thesis by simp
next
  case False
  then obtain qs where qs: "gget (e_queues e) parent = Some qs" and p: "parseQueueName parent \<noteq> None"
    and v: "validateCreateTask (clk 0) t = None" by auto
  let ?g = "generated (clk 1) t qs"
  note call = assms(2) [unfolded CreateTask_unfold, simplified p v qs if_False option.case]
  have g: "good parent (fst ?g)" using qs assms(1) by (simp add: generated_facts einv_good)
  show ?thesis
  proof (cases "resolveTaskName parent (t_Name t) (snd ?g)")
    case (Inl err)
    then have "store e' = store e \<and> \<not> is_ok r"
      using call store_generated [OF qs, of "clk 1" t] by auto
    then show ?thesis by simp
  next
    case (Inr n)
    let ?t' = "stampTask (clk 2) n t"
    let ?c = "createTaskLocked (e_conf e) (clk 3) ?t' (fst ?g)"
    have e': "e' = putQueue parent (fst ?c) e" "r = snd ?c" using call Inr by (simp_all add: Let_def)
    have n: "taskQueueOf n = parent" "t_Name t \<noteq> [] \<longrightarrow> n = t_Name t"
      using resolved_name [OF p Inr] resolveTaskName_provided [OF _ Inr] by simp_all
    have st: "store e parent = Some (\<lambda>tn. map_option (task_of (fst ?g)) (gget (qs_tasks (fst ?g)) tn))"
      by (simp add: store_def qs generated_facts)
    show ?thesis
    proof (cases "is_ok (snd ?c)")
      case True
      then have c: "fst ?c = addNewTask (e_conf e) (clk 3) ?t' (fst ?g)" "snd ?c = Inr (cloneTask ?t')"
        "gget (qs_tasks (fst ?g)) n = None"
        by (auto simp: createTaskLocked_def split: if_splits)
      have "store e' = (store e)(parent \<mapsto>
          (\<lambda>tn. map_option (task_of (fst ?g)) (gget (qs_tasks (fst ?g)) tn))(n \<mapsto> ?t'))"
        unfolding e' c(1) store_putQueue addNewTask_store [OF g] by simp
      then show ?thesis using e'(2) c n st by (auto simp: IsZero_def)
    next
      case False
      then have "fst ?c = fst ?g" by (auto simp: createTaskLocked_def split: if_splits)
      then show ?thesis using e' False store_generated [OF qs, of "clk 1" t] by simp
    qed
  qed
qed

theorem CreateTask_refines_insert_witness:
  "\<exists>ts. store demoEngine demoName = Some ts \<and> ts (demoName @ ''/tasks/b'') = None"
proof -
  let ?n = "demoName @ ''/tasks/b''"
  let ?c = "CreateTask (\<lambda>_. 6) demoName (Some (demoTask ?n)) demoEngine"
  have ok: "is_ok (snd ?c)" "t_Name (demoTask ?n) \<noteq> []" "t_Name (demoTask ?n) = ?n" by code_simp+
  have "?c = (fst ?c, snd ?c)" by simp
  from CreateTask_refines_insert [OF demoEngine_inv this] ok show ?thesis by metis
qed

text \<open>
  C9. Deleting a task removes exactly that task from the store, and succeeds exactly when
  \<^verbatim>\<open>GetTask\<close> finds it; otherwise it reports the same error as \<^verbatim>\<open>GetTask\<close> and changes nothing.
\<close>

theorem DeleteTask_refines_delete:
  assumes "einv e" and "DeleteTask now n e = (e', r)"
  shows "(is_ok r \<longleftrightarrow> is_ok (GetTask n e)) \<and>
    (is_ok r \<longrightarrow> (\<exists>ts. store e (taskQueueOf n) = Some ts \<and> ts n \<noteq> None \<and>
       store e' = (store e)(taskQueueOf n \<mapsto> ts(n := None)))) \<and>
    (\<not> is_ok r \<longrightarrow> store e' = store e \<and> (\<exists>err. r = Inl err \<and> GetTask n e = Inl err))"
proof (cases "taskQueue n e")
  case (Inl err)
  with assms(2) show ?thesis by (auto simp: DeleteTask_def GetTask_def)
next
  case (Inr qs)
  then have q: "gget (e_queues e) (taskQueueOf n) = Some qs" by (simp add: taskQueue_Inr)
  then have g: "good (taskQueueOf n) qs" using assms(1) by (simp add: einv_good)
  show ?thesis
  proof (cases "gget (qs_tasks qs) n")
    case None
    then have "store e' = store e \<and> r = Inl (Errorf NotFound ''task %q not found'' [n])"
      using assms(2) Inr q store_same [OF q, of qs] by (auto simp: DeleteTask_def deleteTaskLocked_def)
    with None Inr show ?thesis by (simp add: GetTask_def getTaskLocked_def)
  next
    case (Some ref)
    then have nm: "name_of qs ref = n" using g qinv_lookup by (auto simp: good_def)
    have "e' = putQueue (taskQueueOf n) (removeLocked (e_conf e) now ref qs) e" "r = Inr ()"
      using assms(2) Inr Some by (simp_all add: DeleteTask_def deleteTaskLocked_def)
    moreover have "(\<lambda>tn. map_option (task_of qs) (gget (gdel n (qs_tasks qs)) tn)) =
        (\<lambda>tn. map_option (task_of qs) (gget (qs_tasks qs) tn))(n := None)"
      by (auto simp: gm.get_del)
    ultimately show ?thesis
      using Inr Some q nm by (auto simp: store_putQueue GetTask_def getTaskLocked_def) (auto simp: store_def)
  qed
qed

theorem DeleteTask_refines_delete_witness:
  "is_ok (snd (DeleteTask 7 (demoName @ ''/tasks/a'') demoEngine))"
proof -
  let ?n = "demoName @ ''/tasks/a''"
  let ?d = "DeleteTask 7 ?n demoEngine"
  have "?d = (fst ?d, snd ?d)" by simp
  moreover have "is_ok (GetTask ?n demoEngine)" by code_simp
  ultimately show ?thesis using DeleteTask_refines_delete [OF demoEngine_inv] by blast
qed

text \<open>
  Nothing of a deleted queue survives: its tasks, its policy and its name reservations are
  gone, and a queue created again under the name starts with no task, no reserved name and the
  empty policy.
\<close>

lemma recreated_queue_starts_empty:
  assumes "einv e" and "gget (e_queues e) n = Some qs" and "queueParent n = parent"
    and "q_Name q = n"
  shows "let e1 = fst (DeleteQueue n e); (e2, r) = CreateQueue parent (Some q) e1 in
    store e1 = (store e)(n := None) \<and> gget (e_policies e1) n = None \<and>
    GetQueue n e1 = Inl (Errorf NotFound ''queue %q not found'' [n]) \<and>
    is_ok r \<and> store e2 = (store e)(n \<mapsto> Map.empty) \<and>
    GetIamPolicy emptyPolicy n e2 = Inr emptyPolicy \<and>
    (\<forall>qs2 t later. gget (e_queues e2) n = Some qs2 \<longrightarrow> \<not> tombstoned later t qs2)"
proof -
  have g: "good n qs" using assms(1,2) by (rule einv_good)
  then have pq: "parseQueueName n \<noteq> None" "queueIDRe (queueID n)" by (simp_all add: good_def)
  then obtain p l i where n: "n = queueName p l i" "segment p" "segment l" "segment i"
    by (auto simp: parseQueueName_iff)
  then have parent: "parseLocationName parent \<noteq> None" using assms(3) by auto
  have ne: "n \<noteq> []" using n by (simp add: queueName_def)
  let ?e1 = "e\<lparr>e_queues := gdel n (gset n (stop qs) (e_queues e)), e_policies := gdel n (e_policies e)\<rparr>"
  let ?q2 = "newQueueState (applyQueueDefaults q)"
  have e1: "fst (DeleteQueue n e) = ?e1"
    using assms(2) by (simp add: DeleteQueue_def queueLocked_def Let_def putQueue_def)
  have e2: "CreateQueue parent (Some q) ?e1 = (putQueue n ?q2 ?e1, Inr (snapshotLocked ?q2))"
    using parent pq ne assms(3,4) by (simp add: CreateQueue_def Let_def)
  have "store ?e1 = (store e)(n := None)" by (auto simp: store_def gm.get_del gm.get_set)
  moreover from this have "store (putQueue n ?q2 ?e1) = (store e)(n \<mapsto> Map.empty)"
    by (simp add: store_putQueue)
  moreover have "qs_tombstones ?q2 = []" by (simp add: newQueueState_def rebuildLimits_def Let_def)
  ultimately show ?thesis
    using pq by (simp add: e1 e2 GetQueue_def GetIamPolicy_def queueLocked_def tombstoned_iff)
qed

text \<open>
  C20. Listing the tasks of a queue is complete and exact: a client that follows the page
  tokens, with any page size, ends after at most one call per task plus one with every task of
  the queue exactly once, in strictly increasing order of names, each as \<^verbatim>\<open>GetTask\<close> returns it.
\<close>

theorem listing_tasks_is_complete:
  assumes "einv e" and "gget (e_queues e) parent = Some qs" and "length (qs_tasks qs) < 2 ^ 63"
  shows "\<exists>ts. follow_tasks (Suc (length (qs_tasks qs))) e parent pageSize [] = Some ts \<and>
    set (map t_Name ts) = set (keys_of (qs_tasks qs)) \<and> sorted_wrt (<) (map t_Name ts) \<and>
    (\<forall>t \<in> set ts. GetTask (t_Name t) e = Inr t)"
proof -
  let ?names = "sort (keys_of (qs_tasks qs))"
  have g: "good parent qs" using assms(1,2) by (rule einv_good)
  have len: "length ?names = length (qs_tasks qs)" by (simp add: keys_of_def)
  obtain pages where pages: "follow_pages (Suc (length ?names)) ?names pageSize maxListTasksPageSize [] = Some pages"
    "concat pages = ?names"
    using follow_pages_from [of maxListTasksPageSize ?names 0 "Suc (length ?names)" "[]" pageSize]
      assms(3) len pt.start_of_Nil by (auto simp: maxListTasksPageSize_def)
  let ?ts = "map (\<lambda>n. cloneTask (task_of qs (the (gget (qs_tasks qs) n)))) ?names"
  have "follow_tasks (Suc (length (qs_tasks qs))) e parent pageSize [] = Some ?ts"
    using follow_tasks_pages [OF assms(2), of "Suc (length (qs_tasks qs))" pageSize "[]"] pages
      listed_tasks(1) [OF g assms(2)] len by (simp del: follow_pages.simps follow_tasks.simps)
  moreover have "map t_Name ?ts = ?names"
    using listed_tasks(2) [OF g assms(2)] by (simp add: comp_def) (rule map_idI, simp)
  moreover have "distinct (keys_of (qs_tasks qs))" using g by (simp add: good_def qinv_def qbase_def gwf_def)
  moreover have "\<forall>t \<in> set ?ts. GetTask (t_Name t) e = Inr t"
    using listed_tasks(2,3) [OF g assms(2)] by auto
  ultimately show ?thesis
    by (intro exI [of _ ?ts]) (simp add: strict_sorted_iff del: map_map follow_tasks.simps)
qed

theorem listing_tasks_is_complete_witness:
  "\<exists>ts. follow_tasks 2 demoEngine demoName 1 [] = Some ts \<and>
     set (map t_Name ts) = {demoName @ ''/tasks/a''}"
proof -
  have "gget (e_queues demoEngine) demoName \<noteq> None" by code_simp
  then obtain qs where qs: "gget (e_queues demoEngine) demoName = Some qs" by blast
  have "map_option (\<lambda>qs. keys_of (qs_tasks qs)) (gget (e_queues demoEngine) demoName) = Some [demoName @ ''/tasks/a'']"
    by code_simp
  with qs have keys: "keys_of (qs_tasks qs) = [demoName @ ''/tasks/a'']" by simp
  then have "length (qs_tasks qs) = 1" by (metis keys_of_def length_map length_Cons list.size(3) One_nat_def)
  then have "length (qs_tasks qs) < 2 ^ 63" "Suc (length (qs_tasks qs)) = 2" by simp_all
  with listing_tasks_is_complete [OF demoEngine_inv qs, of 1] keys show ?thesis
    by (auto simp del: follow_tasks.simps)
qed

text \<open>
  Updating an existing queue replaces exactly the fields the mask names, all four when the
  mask is empty, and gives unset limits their defaults; name, state, tasks, reserved names, lifetimes and
  purge time stay, and the limiter and the semaphore are rebuilt for the new limits.
\<close>

lemma UpdateQueue_replaces_masked_fields:
  assumes "einv e" and "gget (e_queues e) (q_Name q) = Some qs"
    and "UpdateQueue (Some q) flds e = (e', r)"
  shows "\<exists>qs'. gget (e_queues e') (q_Name q) = Some qs' \<and> r = Inr (snapshotLocked qs') \<and> store e' = store e \<and>
    qs_tombstones qs' = qs_tombstones qs \<and>
    (let old = qs_q qs; new = qs_q qs'; hit = (\<lambda>f. flds = [] \<or> f \<in> set flds) in
     q_RateLimits new = defaultRateLimits (q_RateLimits (if hit FieldRateLimits then q else old)) \<and>
     q_RetryConfig new = defaultRetryConfig (q_RetryConfig (if hit FieldRetryConfig then q else old)) \<and>
     q_AppEngineRoutingOverride new = q_AppEngineRoutingOverride (if hit FieldAppEngineRoutingOverride then q else old) \<and>
     q_HTTPOverride new = q_HTTPOverride (if hit FieldHTTPOverride then q else old) \<and>
     q_Name new = q_Name old \<and> q_State new = q_State old \<and> q_Pull new = q_Pull old \<and>
     q_TaskTTL new = q_TaskTTL old \<and> q_TombstoneTTL new = q_TombstoneTTL old \<and>
     q_PurgeTime new = q_PurgeTime old)"
proof -
  let ?qs' = "fst (updateQueueLocked q flds qs)"
  have g: "good (q_Name q) qs" using assms(1,2) by (rule einv_good)
  then have "q_Name q \<noteq> []" by (auto simp: good_def parseQueueName_iff queueName_def)
  with g assms(2,3) have upd: "e' = putQueue (q_Name q) ?qs' e" "r = Inr (snapshotLocked ?qs')"
    by (auto simp: UpdateQueue_def good_def split_beta updateQueueLocked_rest split: option.splits if_splits)
  have "store e' = store e"
    unfolding upd(1) by (rule store_same [OF assms(2)]) (simp_all add: cell_def updateQueueLocked_rest)
  moreover have "q_RateLimits (applyQueueDefaults c) = defaultRateLimits (q_RateLimits c)"
    "q_RetryConfig (applyQueueDefaults c) = defaultRetryConfig (q_RetryConfig c)"
    "q_PurgeTime (applyQueueDefaults c) = q_PurgeTime c" for c
    by (simp_all add: applyQueueDefaults_def)
  ultimately show ?thesis
    using upd
    by (auto simp: Let_def updateQueueLocked_rest updateQueueLocked_q fold_setField_fields setField_fields)
qed

text \<open>
  A policy that is set on a queue is what is read back, until it is set again or the
  queue is deleted; a queue without one has the empty policy; policies of other queues do not change; and every
  call on a queue that does not exist is refused with \<^verbatim>\<open>NotFound\<close>.
\<close>

lemma iam_policy_roundtrip:
  "let (e', r) = SetIamPolicy emptyPolicy n p e; v = (case p of None \<Rightarrow> emptyPolicy | Some x \<Rightarrow> x) in
   (if parseQueueName n = None
    then e' = e \<and> r = Inl (Errorf InvalidArgument ''invalid resource %q'' [n]) \<and>
      GetIamPolicy emptyPolicy n e = Inl (Errorf InvalidArgument ''invalid resource %q'' [n])
    else if gget (e_queues e) n = None
    then e' = e \<and> r = Inl (Errorf NotFound ''queue %q not found'' [n]) \<and>
      GetIamPolicy emptyPolicy n e = Inl (Errorf NotFound ''queue %q not found'' [n]) \<and>
      TestIamPermissions n perms e = Inl (Errorf NotFound ''queue %q not found'' [n])
    else r = Inr v \<and> GetIamPolicy emptyPolicy n e' = Inr v \<and> e_queues e' = e_queues e \<and>
      (\<forall>m. m \<noteq> n \<longrightarrow> GetIamPolicy emptyPolicy m e' = GetIamPolicy emptyPolicy m e) \<and>
      TestIamPermissions n perms e = Inr perms)"
  by (auto simp: SetIamPolicy_def GetIamPolicy_def TestIamPermissions_def queueLocked_def Let_def
      gm.get_set_other split: option.split)

end
