(* ===== verification/System.thy ===== *)
theory System
  imports Machine_Props Engine_Props
begin

text \<open>
  The engine as it runs: all queues with their goroutines (\<^verbatim>\<open>Queue_Machine\<close>) and the API calls of
  concurrent clients, cut where \<^verbatim>\<open>core/engine.go\<close> takes and gives back its locks. \<^verbatim>\<open>CreateQueue\<close>, \<^verbatim>\<open>UpdateQueue\<close>,
  \<^verbatim>\<open>DeleteQueue\<close> and \<^verbatim>\<open>SetIamPolicy\<close> hold the engine's lock to their end and are one step; the other calls look
  their queue up under the engine's lock, give it back, and go on with the pointer they have: they stay
  pending between their critical sections. A queue state is the index of its machine in the heap, and a
  deleted queue keeps its index, as a pointer that is still held does. The calls that only read change
  nothing here.
\<close>

section \<open>State and steps\<close>

datatype pending =
    PCreateTask nat string Task
  | PAddTask nat Task
  | PPurgeQueue nat
  | PSetQueueState nat State
  | PDeleteTask nat string
  | PRunTask nat string

record 'p system =
  sy_now :: time
  sy_queues :: "(string, nat) gomap"
  sy_policies :: "(string, 'p) gomap"
  sy_heap :: "machine list"
  sy_calls :: "pending list"

datatype 'p request =
    ReqCreateQueue string "Queue option"
  | ReqUpdateQueue "Queue option" "QueueField list"
  | ReqDeleteQueue string
  | ReqPurgeQueue string
  | ReqSetQueueState string State
  | ReqCreateTask string "Task option"
  | ReqDeleteTask string
  | ReqRunTask string
  | ReqSetIamPolicy 'p string "'p option"

definition sys0 :: "time \<Rightarrow> 'p system" where
  "sys0 now = \<lparr>sy_now = now, sy_queues = [], sy_policies = [], sy_heap = [], sy_calls = []\<rparr>"

text \<open>What the engine's tables hold at one moment.\<close>

definition engineOf :: "menv \<Rightarrow> 'p system \<Rightarrow> 'p Engine" where
  "engineOf env s = \<lparr>e_queues = map (\<lambda>(n, a). (n, m_qs (sy_heap s ! a))) (sy_queues s),
     e_policies = sy_policies s, e_conf = me_eng env\<rparr>"

definition apiOn :: "menv \<Rightarrow> apiop \<Rightarrow> nat \<Rightarrow> 'p system \<Rightarrow> 'p system" where
  "apiOn env op a s =
     s\<lparr>sy_heap := (sy_heap s)[a := the (mexec env (Api op) (sy_heap s ! a))]\<rparr>"

definition newQueue :: "Queue \<Rightarrow> 'p system \<Rightarrow> 'p system" where
  "newQueue q s =
     s\<lparr>sy_queues := gset (q_Name q) (length (sy_heap s)) (sy_queues s),
       sy_heap := sy_heap s @ [minit (applyQueueDefaults q) (sy_now s)]\<rparr>"

definition later :: "pending \<Rightarrow> 'p system \<Rightarrow> 'p system" where
  "later p s = s\<lparr>sy_calls := sy_calls s @ [p]\<rparr>"

definition lookupTask :: "string \<Rightarrow> 'p system \<Rightarrow> nat option" where
  "lookupTask name s = (if parseTaskName name = None then None else gget (sy_queues s) (taskQueueOf name))"

text \<open>A call up to the point where it gives the engine's lock back.\<close>

fun arrive :: "menv \<Rightarrow> 'p request \<Rightarrow> 'p system \<Rightarrow> 'p system" where
  "arrive env (ReqCreateQueue parent qp) s =
     (case qp of
        None \<Rightarrow> s
      | Some q \<Rightarrow> if is_ok (snd (CreateQueue parent (Some q) (engineOf env s))) then newQueue q s else s)"
| "arrive env (ReqUpdateQueue qp flds) s =
     (case qp of
        None \<Rightarrow> s
      | Some q \<Rightarrow>
          if q_Name q = [] \<or> parseQueueName (q_Name q) = None \<or> \<not> queueIDRe (queueID (q_Name q)) then s
          else case gget (sy_queues s) (q_Name q) of
            None \<Rightarrow> newQueue q s
          | Some a \<Rightarrow> apiOn env (ApiUpdateQueue q flds) a s)"
| "arrive env (ReqDeleteQueue name) s =
     (case gget (sy_queues s) name of
        None \<Rightarrow> s
      | Some a \<Rightarrow> (apiOn env ApiStop a s)
          \<lparr>sy_queues := gdel name (sy_queues s), sy_policies := gdel name (sy_policies s)\<rparr>)"
| "arrive env (ReqPurgeQueue name) s =
     (case gget (sy_queues s) name of None \<Rightarrow> s | Some a \<Rightarrow> later (PPurgeQueue a) s)"
| "arrive env (ReqSetQueueState name st) s =
     (case gget (sy_queues s) name of None \<Rightarrow> s | Some a \<Rightarrow> later (PSetQueueState a st) s)"
| "arrive env (ReqCreateTask parent tp) s =
     (case tp of
        None \<Rightarrow> s
      | Some t \<Rightarrow>
          if parseQueueName parent = None \<or> validateCreateTask (sy_now s) t \<noteq> None then s
          else case gget (sy_queues s) parent of None \<Rightarrow> s | Some a \<Rightarrow> later (PCreateTask a parent t) s)"
| "arrive env (ReqDeleteTask name) s =
     (case lookupTask name s of None \<Rightarrow> s | Some a \<Rightarrow> later (PDeleteTask a name) s)"
| "arrive env (ReqRunTask name) s =
     (case lookupTask name s of None \<Rightarrow> s | Some a \<Rightarrow> later (PRunTask a name) s)"
| "arrive env (ReqSetIamPolicy emptyP resource p) s =
     s\<lparr>sy_policies := e_policies (fst (SetIamPolicy emptyP resource p (engineOf env s)))\<rparr>"

text \<open>The next section of a pending call, and what is left of the call.\<close>

fun resume :: "menv \<Rightarrow> pending \<Rightarrow> 'p system \<Rightarrow> 'p system \<times> pending list" where
  "resume env (PCreateTask a parent t) s =
     (let gen = (if t_Name t = [] then snd (nextTaskID (sy_now s) (m_qs (sy_heap s ! a))) else []);
          s1 = (if t_Name t = [] then apiOn env ApiNextTaskID a s else s)
      in case resolveTaskName parent (t_Name t) gen of
           Inl err \<Rightarrow> (s1, [])
         | Inr name \<Rightarrow> (s1, [PAddTask a (stampTask (sy_now s) name t)]))"
| "resume env (PAddTask a t) s = (apiOn env (ApiCreateTask t) a s, [])"
| "resume env (PPurgeQueue a) s = (apiOn env ApiPurgeQueue a s, [])"
| "resume env (PSetQueueState a st) s = (apiOn env (ApiSetState st) a s, [])"
| "resume env (PDeleteTask a name) s = (apiOn env (ApiDeleteTask name) a s, [])"
| "resume env (PRunTask a name) s = (apiOn env (ApiRunTask name) a s, [])"

datatype 'p sysEvent = SysTick time | SysQueue nat event | SysArrive "'p request" | SysResume nat

fun background :: "event \<Rightarrow> bool" where
  "background (TimerFires i) = True"
| "background (Advance k limOk resp) = True"
| "background _ = False"

fun sysStep :: "menv \<Rightarrow> 'p sysEvent \<Rightarrow> 'p system \<Rightarrow> 'p system option" where
  "sysStep env (SysTick t) s =
     (if sy_now s \<le> t then Some (s\<lparr>sy_now := t, sy_heap := map (\<lambda>m. m\<lparr>m_now := t\<rparr>) (sy_heap s)\<rparr>) else None)"
| "sysStep env (SysQueue a ev) s =
     (if a < length (sy_heap s) \<and> background ev
      then map_option (\<lambda>m. s\<lparr>sy_heap := (sy_heap s)[a := m]\<rparr>) (mexec env ev (sy_heap s ! a))
      else None)"
| "sysStep env (SysArrive req) s = Some (arrive env req s)"
| "sysStep env (SysResume k) s =
     (if k < length (sy_calls s)
      then let (s', left) = resume env (sy_calls s ! k) s
           in Some (s'\<lparr>sy_calls := take k (sy_calls s) @ left @ drop (Suc k) (sy_calls s)\<rparr>)
      else None)"

section \<open>The invariant\<close>

abbreviation qname :: "machine \<Rightarrow> string" where
  "qname m \<equiv> q_Name (qs_q (m_qs m))"

abbreviation wellnamed :: "machine \<Rightarrow> bool" where
  "wellnamed m \<equiv> good (qname m) (m_qs m)"

fun pend_ok :: "machine list \<Rightarrow> pending \<Rightarrow> bool" where
  "pend_ok h (PCreateTask a parent t) \<longleftrightarrow> a < length h \<and> parseQueueName parent \<noteq> None \<and> qname (h ! a) = parent"
| "pend_ok h (PAddTask a t) \<longleftrightarrow> a < length h \<and> taskQueueOf (t_Name t) = qname (h ! a) \<and> parseTaskName (t_Name t) \<noteq> None"
| "pend_ok h (PPurgeQueue a) \<longleftrightarrow> a < length h"
| "pend_ok h (PSetQueueState a st) \<longleftrightarrow> a < length h"
| "pend_ok h (PDeleteTask a n) \<longleftrightarrow> a < length h"
| "pend_ok h (PRunTask a n) \<longleftrightarrow> a < length h"

definition sysinv :: "menv \<Rightarrow> 'p system \<Rightarrow> bool" where
  "sysinv env s \<longleftrightarrow> gwf (sy_queues s) \<and> gwf (sy_policies s) \<and>
     (\<forall>m \<in> set (sy_heap s). reachable env m \<and> m_now m = sy_now s \<and> wellnamed m) \<and>
     (\<forall>n a. gget (sy_queues s) n = Some a \<longrightarrow> a < length (sy_heap s) \<and> qname (sy_heap s ! a) = n) \<and>
     (\<forall>n p. gget (sy_policies s) n = Some p \<longrightarrow> gget (sy_queues s) n \<noteq> None) \<and>
     (\<forall>p \<in> set (sy_calls s). pend_ok (sy_heap s) p)"

text \<open>The names under which the operations of a queue may add tasks to it.\<close>

fun op_ok :: "string \<Rightarrow> apiop \<Rightarrow> bool" where
  "op_ok n (ApiCreateTask t) \<longleftrightarrow> taskQueueOf (t_Name t) = n \<and> parseTaskName (t_Name t) \<noteq> None"
| "op_ok n _ \<longleftrightarrow> True"

lemma good_stop:
  assumes "good n qs" shows "good n (stop qs)"
proof (rule good_shrinks [OF assms])
  have q: "qinv qs" using assms by (simp add: good_def)
  then show "qinv (stop qs)" by (rule inv_intros)
  show "q_Name (qs_q (stop qs)) = q_Name (qs_q qs)"
    using retiring_stop [OF qinv_qbase [OF q]] by (simp add: stop_def retiring_def)
qed (simp add: stop_def)

lemma good_apiExec: "good n qs \<Longrightarrow> op_ok n op \<Longrightarrow> good n (fst (apiExec env now op qs))"
  by (cases op) (auto simp: split_beta good_nextTaskID good_createTaskLocked good_deleteTaskLocked
      good_runTaskLocked good_purge good_setStateLocked good_updateQueueLocked good_stop)

lemma good_advance:
  assumes "good n qs" "thread_ok qs th" "advance env limOk resp now th qs = Some (qs', new)"
  shows "good n qs'"
proof (rule good_shrinks [OF assms(1)])
  have q: "qinv qs" using assms(1) by (simp add: good_def)
  show "qinv qs'" using advance_queue(1) [OF q assms(2,3)] .
  show "q_Name (qs_q qs') = q_Name (qs_q qs)"
    using assms(3) applyAttempt_tasks(1)
    by (cases th) (auto simp: split_beta Let_def fire_unfold setUsed_def expire_def tombstoneExpire_def
        split: if_splits option.splits)
  show "gget (qs_tasks qs) tn \<noteq> None" if "gget (qs_tasks qs') tn = Some r" for tn r
  proof (cases th)
    case (TApply x att dt rc hc msg h)
    with that assms(3) show ?thesis
      using applyAttempt_tasks(2) [of "me_oob env" "me_eng env" now x att dt rc hc msg qs]
      by (auto simp: gm.get_del split: if_splits)
  next
    case (TExpire x)
    with that assms(2,3) q show ?thesis by (auto simp: expire_def gm.get_del split: if_splits)
  qed (use that assms(3) in \<open>auto simp: split_beta Let_def fire_unfold setUsed_def tombstoneExpire_def
        split: if_splits option.splits\<close>)
qed

lemma wellnamed_background:
  assumes "minv m" "wellnamed m" "background ev" "mexec env ev m = Some m'"
  shows "wellnamed m'" "qname m' = qname m" "m_now m' = m_now m"
proof -
  have "good (qname m) (m_qs m') \<and> m_now m' = m_now m"
  proof (cases ev)
    case (TimerFires i)
    with assms show ?thesis by (auto simp: good_def qinv_stopTimer split: option.splits if_splits)
  next
    case (Advance k limOk resp)
    with assms(4) obtain qs' new where k: "k < length (m_threads m)"
      and adv: "advance env limOk resp (m_now m) (m_threads m ! k) (m_qs m) = Some (qs', new)"
      and m': "m_qs m' = qs'" "m_now m' = m_now m"
      by (auto split: option.splits if_splits)
    have "thread_ok (m_qs m) (m_threads m ! k)" using assms(1) k by (simp add: minv_def)
    from good_advance [OF assms(2) this adv] m' show ?thesis by simp
  qed (use assms(3) in auto)
  then show "wellnamed m'" "qname m' = qname m" "m_now m' = m_now m" by (auto simp: good_def)
qed

lemma wellnamed_api:
  assumes "wellnamed m" "op_ok (qname m) op"
  shows "\<exists>m'. mexec env (Api op) m = Some m' \<and> wellnamed m' \<and> qname m' = qname m \<and> m_now m' = m_now m \<and>
    m_qs m' = fst (apiExec env (m_now m) op (m_qs m))"
  using good_apiExec [OF assms, of env "m_now m"] by (auto simp: split_beta good_def)

text \<open>Replacing one queue's machine by a later one of the same name keeps everything else as it is.\<close>

lemma pend_ok_mono:
  "length h \<le> length h' \<Longrightarrow> (\<And>a. a < length h \<Longrightarrow> qname (h' ! a) = qname (h ! a)) \<Longrightarrow> pend_ok h p \<Longrightarrow> pend_ok h' p"
  by (cases p) auto

lemma sysinv_heap:
  assumes "sysinv env s" "a < length (sy_heap s)" "reachable env m'" "wellnamed m'" "qname m' = qname (sy_heap s ! a)"
    and "m_now m' = sy_now s"
  shows "sysinv env (s\<lparr>sy_heap := (sy_heap s)[a := m']\<rparr>)"
proof -
  have "qname ((sy_heap s)[a := m'] ! b) = qname (sy_heap s ! b)" for b
    using assms(2,5) by (cases "b = a") simp_all
  with assms show ?thesis
    by (auto simp: sysinv_def dest!: set_update_subset_insert [THEN subsetD] intro: pend_ok_mono [rotated 2])
qed

lemma sysinv_machine:
  assumes "sysinv env s" "a < length (sy_heap s)"
  shows "reachable env (sy_heap s ! a)" "wellnamed (sy_heap s ! a)" "m_now (sy_heap s ! a) = sy_now s"
    "minv (sy_heap s ! a)"
  using assms by (auto simp: sysinv_def intro: reachable_minv)

lemma sysinv_apiOn:
  assumes "sysinv env s" "a < length (sy_heap s)" "op_ok (qname (sy_heap s ! a)) op"
  shows "sysinv env (apiOn env op a s)"
proof -
  note m = sysinv_machine [OF assms(1,2)]
  obtain m' where m': "mexec env (Api op) (sy_heap s ! a) = Some m'" "wellnamed m'"
    "qname m' = qname (sy_heap s ! a)" "m_now m' = sy_now s"
    using wellnamed_api [OF m(2) assms(3), of env] m(3) by auto
  show ?thesis
    using sysinv_heap [OF assms(1,2) reach_step [OF m(1) m'(1)] m'(2,3,4)] m'(1) by (simp add: apiOn_def)
qed

lemma apiOn_frame [simp]:
  "sy_queues (apiOn env op a s) = sy_queues s" "sy_calls (apiOn env op a s) = sy_calls s"
  "sy_now (apiOn env op a s) = sy_now s" "sy_policies (apiOn env op a s) = sy_policies s"
  "length (sy_heap (apiOn env op a s)) = length (sy_heap s)"
  by (simp_all add: apiOn_def)

lemma qname_apiOn: "a < length (sy_heap s) \<Longrightarrow> wellnamed (sy_heap s ! a) \<Longrightarrow> op_ok (qname (sy_heap s ! a)) op \<Longrightarrow>
    qname (sy_heap (apiOn env op a s) ! b) = qname (sy_heap s ! b)"
  using wellnamed_api [of "sy_heap s ! a" op env] by (cases "b = a") (auto simp: apiOn_def simp del: mexec.simps)

lemma sysinv_newQueue:
  assumes "sysinv env s" "parseQueueName (q_Name q) \<noteq> None" "queueIDRe (queueID (q_Name q))"
    "gget (sy_queues s) (q_Name q) = None"
  shows "sysinv env (newQueue q s)"
proof -
  have "wellnamed (minit (applyQueueDefaults q) now) \<and> qname (minit (applyQueueDefaults q) now) = q_Name q" for now
    using good_new [OF assms(2,3)] by (auto simp: minit_def good_def)
  then show ?thesis using assms
    by (auto simp: sysinv_def newQueue_def gm.wf_set gm.get_set nth_append minit_def less_Suc_eq
        intro: reach_init [unfolded minit_def] pend_ok_mono [rotated 2] split: if_splits)
qed

lemma sysinv_later: "sysinv env s \<Longrightarrow> pend_ok (sy_heap s) p \<Longrightarrow> sysinv env (later p s)"
  by (auto simp: sysinv_def later_def)

lemma engineOf_simps [simp]:
  "gget (e_queues (engineOf env s)) n = map_option (\<lambda>a. m_qs (sy_heap s ! a)) (gget (sy_queues s) n)"
  "e_policies (engineOf env s) = sy_policies s" "e_conf (engineOf env s) = me_eng env"
  "gwf (e_queues (engineOf env s)) = gwf (sy_queues s)"
  by (simp_all add: engineOf_def gwf_def gget_map_values)

lemma sysinv_queue:
  assumes "sysinv env s" "gget (sy_queues s) n = Some a"
  shows "a < length (sy_heap s)" "qname (sy_heap s ! a) = n" "good n (m_qs (sy_heap s ! a))"
proof -
  show a: "a < length (sy_heap s)" "qname (sy_heap s ! a) = n" using assms by (auto simp: sysinv_def)
  show "good n (m_qs (sy_heap s ! a))" using sysinv_machine(2) [OF assms(1) a(1)] a(2) by simp
qed

lemma sysinv_einv: "sysinv env s \<Longrightarrow> einv (engineOf env s)"
  using sysinv_queue(3) by (auto simp: einv_def sysinv_def)

lemma CreateQueue_ok:
  "is_ok (snd (CreateQueue parent (Some q) e)) \<Longrightarrow>
     parseQueueName (q_Name q) \<noteq> None \<and> queueIDRe (queueID (q_Name q)) \<and> gget (e_queues e) (q_Name q) = None"
  by (auto simp: CreateQueue_def Let_def split: if_splits)

lemma sysinv_arrive:
  assumes "sysinv env s" shows "sysinv env (arrive env req s)"
proof (cases req)
  case (ReqCreateQueue parent qp)
  then show ?thesis
    using assms CreateQueue_ok [of parent _ "engineOf env s"] by (auto intro: sysinv_newQueue split: option.split)
next
  case (ReqUpdateQueue qp flds)
  have "gget (sy_queues s) n = Some a \<Longrightarrow> a < length (sy_heap s)" for n a using assms by (simp add: sysinv_def)
  with ReqUpdateQueue assms show ?thesis
    by (auto intro: sysinv_newQueue sysinv_apiOn split: option.split)
next
  case (ReqDeleteQueue n)
  show ?thesis
  proof (cases "gget (sy_queues s) n")
    case (Some a)
    then have "a < length (sy_heap s)" using assms by (simp add: sysinv_def)
    then have "sysinv env (apiOn env ApiStop a s)" by (simp add: sysinv_apiOn assms)
    with ReqDeleteQueue Some show ?thesis
      by (auto simp: sysinv_def gm.wf_del gm.get_del split: if_splits)
  qed (simp add: ReqDeleteQueue assms)
next
  case (ReqSetIamPolicy ep n p)
  have "einv (fst (SetIamPolicy ep n p (engineOf env s)))"
    using sysinv_einv [OF assms] by (rule einv_SetIamPolicy)
  moreover have "e_queues (fst (SetIamPolicy ep n p (engineOf env s))) = e_queues (engineOf env s)"
    by (simp add: SetIamPolicy_def Let_def split: sum.split)
  ultimately show ?thesis using ReqSetIamPolicy assms by (auto simp: sysinv_def einv_def)
qed (use assms in \<open>auto intro!: sysinv_later simp: lookupTask_def sysinv_def [of env s] split: option.splits\<close>)

lemma sysinv_resume:
  assumes "sysinv env s" "pend_ok (sy_heap s) p"
  shows "sysinv env (fst (resume env p s)) \<and> (\<forall>p' \<in> set (snd (resume env p s)). pend_ok (sy_heap (fst (resume env p s))) p')"
proof (cases p)
  case (PCreateTask a parent t)
  let ?gen = "if t_Name t = [] then snd (nextTaskID (sy_now s) (m_qs (sy_heap s ! a))) else []"
  let ?s1 = "if t_Name t = [] then apiOn env ApiNextTaskID a s else s"
  have a: "a < length (sy_heap s)" "parseQueueName parent \<noteq> None" "qname (sy_heap s ! a) = parent"
    using assms(2) PCreateTask by auto
  have "sysinv env ?s1" using assms(1) a(1) by (simp add: sysinv_apiOn)
  moreover have "qname (sy_heap ?s1 ! a) = parent" "length (sy_heap ?s1) = length (sy_heap s)"
    using a qname_apiOn [OF a(1) sysinv_machine(2) [OF assms(1) a(1)]] by simp_all
  moreover have "taskQueueOf n = parent \<and> parseTaskName n \<noteq> None" if "resolveTaskName parent (t_Name t) ?gen = Inr n" for n
    using resolved_name [OF a(2), of t "sy_now s" "m_qs (sy_heap s ! a)" n] that by (simp add: generated_def split: if_splits)
  ultimately show ?thesis using PCreateTask a(1) by (auto simp: Let_def split: sum.split)
qed (use assms in \<open>simp_all add: sysinv_apiOn\<close>)

lemma sysinv_tick:
  assumes inv: "sysinv env s" and t: "sy_now s \<le> t"
  shows "sysinv env (s\<lparr>sy_now := t, sy_heap := map (\<lambda>m. m\<lparr>m_now := t\<rparr>) (sy_heap s)\<rparr>)"
proof -
  let ?h = "map (\<lambda>m. m\<lparr>m_now := t\<rparr>) (sy_heap s)"
  have "reachable env (m\<lparr>m_now := t\<rparr>)" if "m \<in> set (sy_heap s)" for m
  proof (rule reach_step [of env m "Tick t"])
    show "reachable env m" "mexec env (Tick t) m = Some (m\<lparr>m_now := t\<rparr>)" using inv t that by (auto simp: sysinv_def)
  qed
  moreover have "pend_ok ?h p" if "pend_ok (sy_heap s) p" for p
    by (rule pend_ok_mono [OF _ _ that]) simp_all
  ultimately show ?thesis using inv by (clarsimp simp: sysinv_def)
qed

lemma resume_calls: "sy_calls (fst (resume env p s)) = sy_calls s"
  by (cases p) (auto simp: Let_def split: sum.split)

lemma sysinv_calls: "sysinv env s \<Longrightarrow> \<forall>p \<in> set ps. pend_ok (sy_heap s) p \<Longrightarrow> sysinv env (s\<lparr>sy_calls := ps\<rparr>)"
  by (simp add: sysinv_def)

lemma sysinv_step:
  assumes "sysinv env s" "sysStep env ev s = Some s'"
  shows "sysinv env s'"
proof (cases ev)
  case (SysTick t)
  with assms show ?thesis using sysinv_tick [OF assms(1)] by (auto split: if_splits)
next
  case (SysQueue a e)
  with assms(2) obtain m' where m': "a < length (sy_heap s)" "background e" "mexec env e (sy_heap s ! a) = Some m'"
    "s' = s\<lparr>sy_heap := (sy_heap s)[a := m']\<rparr>"
    by (auto split: if_splits)
  note m = sysinv_machine [OF assms(1) m'(1)]
  note w = wellnamed_background [OF m(4,2) m'(2,3)]
  show ?thesis
    unfolding m'(4) using w(3) m(3)
    by (intro sysinv_heap [OF assms(1) m'(1) reach_step [OF m(1) m'(3)] w(1,2)]) simp
next
  case (SysArrive req)
  with assms show ?thesis by (auto intro: sysinv_arrive)
next
  case (SysResume k)
  let ?r = "resume env (sy_calls s ! k) s"
  from SysResume assms(2) have k: "k < length (sy_calls s)"
    and s': "s' = fst ?r\<lparr>sy_calls := take k (sy_calls s) @ snd ?r @ drop (Suc k) (sy_calls s)\<rparr>"
    by (simp_all add: split_beta split: if_splits)
  have "pend_ok (sy_heap s) (sy_calls s ! k)" using assms(1) k by (simp add: sysinv_def)
  note r = sysinv_resume [OF assms(1) this]
  have "\<forall>p \<in> set (sy_calls s). pend_ok (sy_heap (fst ?r)) p"
    using r resume_calls [of env "sy_calls s ! k" s] by (simp add: sysinv_def)
  then show ?thesis
    unfolding s' using r by (intro sysinv_calls) (auto dest: in_set_takeD in_set_dropD)
qed

lemma sysinv_sys0: "sysinv env (sys0 now)"
  by (simp add: sysinv_def sys0_def)

interpretation sy: invariant_system "sysStep env" "sysinv env" for env
  by unfold_locales (rule sysinv_step)

end
