(* ===== verification/System_Calls.thy ===== *)
theory System_Calls
  imports System
begin

text \<open>
  The calls of \<^verbatim>\<open>System\<close> against the operations of \<^verbatim>\<open>Engine\<close>: what the sections of a call do to the tables when no
  other step comes between them.
\<close>

section \<open>The tables after a section\<close>

lemma queues_mem:
  assumes "sysinv env s"
  shows "gget (sy_queues s) n = Some a \<longleftrightarrow> (n, a) \<in> set (sy_queues s)"
    "(n, a) \<in> set (sy_queues s) \<Longrightarrow> a < length (sy_heap s)"
    "(n, a) \<in> set (sy_queues s) \<Longrightarrow> (n', a) \<in> set (sy_queues s) \<Longrightarrow> n' = n"
proof -
  show m: "gget (sy_queues s) n = Some a \<longleftrightarrow> (n, a) \<in> set (sy_queues s)" for n a
    using assms by (simp add: sysinv_def gget_iff_mem)
  show "(n, a) \<in> set (sy_queues s) \<Longrightarrow> a < length (sy_heap s)"
    using sysinv_queue(1) [OF assms] m by blast
  show "(n, a) \<in> set (sy_queues s) \<Longrightarrow> (n', a) \<in> set (sy_queues s) \<Longrightarrow> n' = n"
    using sysinv_queue(2) [OF assms] m by blast
qed

lemma engineOf_heap:
  assumes "sysinv env s" "gget (sy_queues s) n = Some a"
  shows "engineOf env (s\<lparr>sy_heap := (sy_heap s)[a := m']\<rparr>) = putQueue n (m_qs m') (engineOf env s)"
proof -
  have a: "(n, a) \<in> set (sy_queues s)" "a < length (sy_heap s)" "gwf (sy_queues s)"
    using assms queues_mem [OF assms(1)] by (auto simp: sysinv_def)
  have "(\<lambda>b. m_qs (sy_heap s ! b))(a := m_qs m') = (\<lambda>b. m_qs ((sy_heap s)[a := m'] ! b))"
    using a(2) by (auto simp: fun_eq_iff nth_list_update)
  with gset_map_values [OF a(3,1), of "m_qs m'" "\<lambda>b. m_qs (sy_heap s ! b)"] queues_mem(3) [OF assms(1) a(1)]
  show ?thesis by (simp add: engineOf_def putQueue_def)
qed

lemma engineOf_apiOn:
  assumes "sysinv env s" "gget (sy_queues s) n = Some a"
  shows "engineOf env (apiOn env op a s) =
    putQueue n (fst (apiExec env (sy_now s) op (m_qs (sy_heap s ! a)))) (engineOf env s)"
  using engineOf_heap [OF assms] sysinv_machine(3) [OF assms(1) sysinv_queue(1) [OF assms]]
  by (simp add: apiOn_def split_beta)

lemma engineOf_newQueue:
  assumes "sysinv env s" "gget (sy_queues s) (q_Name q) = None"
  shows "engineOf env (newQueue q s) = putQueue (q_Name q) (newQueueState (applyQueueDefaults q)) (engineOf env s)"
proof -
  have "gget (e_queues (engineOf env s)) (q_Name q) = None" using assms(2) by simp
  moreover have "\<forall>x \<in> set (sy_queues s). snd x < length (sy_heap s)" using queues_mem(2) [OF assms(1)] by force
  ultimately show ?thesis
    by (auto simp: engineOf_def newQueue_def putQueue_def gset_new [OF assms(2)] gset_new minit_def nth_append)
qed

lemma engineOf_delete:
  assumes "sysinv env s" "gget (sy_queues s) n = Some a"
  shows "engineOf env ((apiOn env ApiStop a s)\<lparr>sy_queues := gdel n (sy_queues s), sy_policies := gdel n (sy_policies s)\<rparr>) =
    fst (DeleteQueue n (engineOf env s))"
proof -
  let ?m = "the (mexec env (Api ApiStop) (sy_heap s ! a))"
  have "\<forall>x \<in> set (gdel n (sy_queues s)). snd x \<noteq> a"
    using queues_mem [OF assms(1)] assms(2) by (auto simp: set_gdel)
  then have "map (\<lambda>(n, b). (n, m_qs ((sy_heap s)[a := ?m] ! b))) (gdel n (sy_queues s)) =
      map (\<lambda>(n, b). (n, m_qs (sy_heap s ! b))) (gdel n (sy_queues s))" by auto
  then show ?thesis using assms(2)
    by (simp add: engineOf_def apiOn_def DeleteQueue_def queueLocked_def gget_map_values Let_def gdel_gset
        gdel_map_values putQueue_def)
qed

section \<open>Calls that nothing crosses\<close>

text \<open>The call of \<^verbatim>\<open>Engine\<close> that a request is, when all its clock readings are the same.\<close>

fun callOf :: "time \<Rightarrow> string + int \<Rightarrow> 'p request \<Rightarrow> 'p call" where
  "callOf now resp (ReqCreateQueue p q) = CallCreateQueue p q"
| "callOf now resp (ReqUpdateQueue q fs) = CallUpdateQueue q fs"
| "callOf now resp (ReqDeleteQueue n) = CallDeleteQueue n"
| "callOf now resp (ReqPurgeQueue n) = CallPurgeQueue now n"
| "callOf now resp (ReqSetQueueState n st) = CallSetQueueState n st"
| "callOf now resp (ReqCreateTask p t) = CallCreateTask (\<lambda>_. now) p t"
| "callOf now resp (ReqDeleteTask n) = CallDeleteTask now n"
| "callOf now resp (ReqRunTask n) = CallRunTask (\<lambda>_ _. resp) (\<lambda>_. now) n"
| "callOf now resp (ReqSetIamPolicy ep n p) = CallSetIamPolicy ep n p"

text \<open>The steps between the two states leave no part of a call behind.\<close>

definition completes :: "menv \<Rightarrow> 'p system \<Rightarrow> 'p sysEvent list \<Rightarrow> 'p system \<Rightarrow> bool" where
  "completes env s evs s' \<longleftrightarrow> run (sysStep env) evs s = Some s' \<and> sy_calls s' = sy_calls s \<and>
     (\<forall>a < length (sy_heap s). m_threads (sy_heap s' ! a) = m_threads (sy_heap s ! a))"

text \<open>The steps of one call and no other: its sections, and the attempt that \<^verbatim>\<open>RunTask\<close> makes.\<close>

fun ownSteps :: "'p system \<Rightarrow> 'p request \<Rightarrow> 'p sysEvent list \<Rightarrow> bool" where
  "ownSteps s (ReqRunTask n) evs \<longleftrightarrow>
     (\<exists>i k a resp. evs = replicate i (SysResume (length (sy_calls s))) @
        replicate k (SysQueue a (Advance (length (m_threads (sy_heap s ! a))) True resp)) \<and>
        (k > 0 \<longrightarrow> gget (sy_queues s) (taskQueueOf n) = Some a))"
| "ownSteps s _ evs \<longleftrightarrow> (\<exists>i. evs = replicate i (SysResume (length (sy_calls s))))"

definition refines_call :: "menv \<Rightarrow> string + int \<Rightarrow> 'p request \<Rightarrow> 'p system \<Rightarrow> bool" where
  "refines_call env resp req s \<longleftrightarrow>
     (\<exists>evs s'. ownSteps s req evs \<and> completes env s (SysArrive req # evs) s' \<and>
        exec env (callOf (sy_now s) resp req) (engineOf env s) = Some (engineOf env s'))"

lemma apiOn_threads:
  "(\<And>n. op \<noteq> ApiRunTask n) \<Longrightarrow> m_threads (sy_heap (apiOn env op a s) ! b) = m_threads (sy_heap s ! b)"
proof -
  assume "\<And>n. op \<noteq> ApiRunTask n"
  then have "m_threads (the (mexec env (Api op) m)) = m_threads m" for m by (cases op) (auto simp: split_beta)
  then show ?thesis
    by (cases "a < length (sy_heap s)"; cases "b = a") (simp_all add: apiOn_def list_update_beyond del: mexec.simps)
qed

text \<open>A call that ends with the engine's section, and one with a single section after it.\<close>

lemma refines_at_once:
  assumes "sy_calls (arrive env req s) = sy_calls s"
    and "\<And>a. a < length (sy_heap s) \<Longrightarrow> m_threads (sy_heap (arrive env req s) ! a) = m_threads (sy_heap s ! a)"
    and "exec env (callOf (sy_now s) resp req) (engineOf env s) = Some (engineOf env (arrive env req s))"
  shows "refines_call env resp req s"
proof -
  have "ownSteps s req []" by (cases req) simp_all
  with assms show ?thesis unfolding refines_call_def by (intro exI [of _ "[]"]) (simp add: completes_def)
qed

lemma resume_last:
  fixes s :: "'p system"
  assumes "\<And>s :: 'p system. resume env p s = (apiOn env op a s, [])"
  shows "run (sysStep env) [SysResume (length (sy_calls s))] (later p s) = Some (apiOn env op a s)"
  by (simp add: later_def assms) (simp add: apiOn_def)

lemma refines_one_section:
  fixes s :: "'p system"
  assumes "arrive env req s = later p s" "\<And>s :: 'p system. resume env p s = (apiOn env op a s, [])"
    and "\<And>b. m_threads (sy_heap (apiOn env op a s) ! b) = m_threads (sy_heap s ! b)"
    and "exec env (callOf (sy_now s) resp req) (engineOf env s) = Some (engineOf env (apiOn env op a s))"
  shows "refines_call env resp req s"
proof -
  have "ownSteps s req [SysResume (length (sy_calls s))]"
    by (cases req) (simp_all, (rule exI [of _ 1], simp)+)
  moreover have "completes env s (SysArrive req # [SysResume (length (sy_calls s))]) (apiOn env op a s)"
    using resume_last [OF assms(2), of s] assms(1) by (simp add: completes_def assms(3))
  ultimately show ?thesis unfolding refines_call_def using assms(4) by blast
qed

lemma newQueue_frame:
  "sy_calls (newQueue q s) = sy_calls s"
  "a < length (sy_heap s) \<Longrightarrow> m_threads (sy_heap (newQueue q s) ! a) = m_threads (sy_heap s ! a)"
  by (simp_all add: newQueue_def nth_append)

lemma CreateQueue_state:
  "fst (CreateQueue p None e) = e"
  "fst (CreateQueue p (Some q) e) = (if is_ok (snd (CreateQueue p (Some q) e))
     then putQueue (q_Name q) (newQueueState (applyQueueDefaults q)) e else e)"
  by (simp_all add: CreateQueue_def Let_def)

lemma refines_CreateQueue:
  assumes inv: "sysinv env s" shows "refines_call env resp (ReqCreateQueue p qp) s"
proof (cases "\<exists>q. qp = Some q \<and> is_ok (snd (CreateQueue p (Some q) (engineOf env s)))")
  case True
  then obtain q where q: "qp = Some q" "is_ok (snd (CreateQueue p (Some q) (engineOf env s)))" by blast
  then have "gget (sy_queues s) (q_Name q) = None" using CreateQueue_ok [OF q(2)] by simp
  then show ?thesis
    using q by (intro refines_at_once) (simp_all add: newQueue_frame engineOf_newQueue [OF inv] CreateQueue_state)
next
  case False
  then have "arrive env (ReqCreateQueue p qp) s = s" "fst (CreateQueue p qp (engineOf env s)) = engineOf env s"
    by (cases qp; simp add: CreateQueue_state)+
  then show ?thesis by (intro refines_at_once) (simp_all del: arrive.simps)
qed

lemma refines_UpdateQueue:
  assumes inv: "sysinv env s" shows "refines_call env resp (ReqUpdateQueue qp fs) s"
proof (cases "\<exists>q. qp = Some q \<and> q_Name q \<noteq> [] \<and> parseQueueName (q_Name q) \<noteq> None \<and> queueIDRe (queueID (q_Name q))")
  case True
  then obtain q x where q: "qp = Some q" "q_Name q \<noteq> []" "parseQueueName (q_Name q) = Some x" "queueIDRe (queueID (q_Name q))"
    by blast
  show ?thesis
  proof (cases "gget (sy_queues s) (q_Name q)")
    case None
    with q have "arrive env (ReqUpdateQueue qp fs) s = newQueue q s" by simp
    with q None show ?thesis
      by (intro refines_at_once) (simp_all add: newQueue_frame engineOf_newQueue [OF inv] UpdateQueue_def Let_def)
  next
    case (Some a)
    with q have "arrive env (ReqUpdateQueue qp fs) s = apiOn env (ApiUpdateQueue q fs) a s" by simp
    with q Some show ?thesis
      by (intro refines_at_once) (simp_all add: apiOn_threads engineOf_apiOn [OF inv] UpdateQueue_def split_beta)
  qed
next
  case False
  then have "arrive env (ReqUpdateQueue qp fs) s = s" "fst (UpdateQueue qp fs (engineOf env s)) = engineOf env s"
    by (auto simp: UpdateQueue_def split: option.split)
  then show ?thesis by (intro refines_at_once) (simp_all del: arrive.simps)
qed

lemma refines_DeleteQueue:
  assumes inv: "sysinv env s" shows "refines_call env resp (ReqDeleteQueue n) s"
proof (cases "gget (sy_queues s) n")
  case None
  then show ?thesis by (intro refines_at_once) (simp_all add: DeleteQueue_def queueLocked_def)
next
  case (Some a)
  then show ?thesis by (intro refines_at_once) (simp_all add: apiOn_threads engineOf_delete [OF inv])
qed

lemma refines_SetIamPolicy: "refines_call env resp (ReqSetIamPolicy ep n pol) s"
  by (rule refines_at_once) (auto simp: engineOf_def SetIamPolicy_def Let_def split: sum.split)

lemma refines_section_calls:
  assumes inv: "sysinv env s"
  shows "refines_call env resp (ReqPurgeQueue n) s" "refines_call env resp (ReqSetQueueState n st) s"
    "refines_call env resp (ReqDeleteTask n) s"
proof -
  show "refines_call env resp (ReqPurgeQueue n) s"
  proof (cases "gget (sy_queues s) n")
    case None
    then show ?thesis by (intro refines_at_once) (simp_all add: PurgeQueue_def queueLocked_def)
  next
    case (Some a)
    then show ?thesis
      by (intro refines_one_section [of _ _ _ "PPurgeQueue a" ApiPurgeQueue a])
        (simp_all add: apiOn_threads engineOf_apiOn [OF inv] PurgeQueue_def queueLocked_def Let_def)
  qed
  show "refines_call env resp (ReqSetQueueState n st) s"
  proof (cases "gget (sy_queues s) n")
    case None
    then show ?thesis by (intro refines_at_once) (simp_all add: SetQueueState_def queueLocked_def)
  next
    case (Some a)
    then show ?thesis
      by (intro refines_one_section [of _ _ _ "PSetQueueState a st" "ApiSetState st" a])
        (simp_all add: apiOn_threads engineOf_apiOn [OF inv] SetQueueState_def queueLocked_def split_beta)
  qed
  show "refines_call env resp (ReqDeleteTask n) s"
  proof (cases "lookupTask n s")
    case None
    then show ?thesis
      by (intro refines_at_once) (auto simp: DeleteTask_def taskQueue_def queueLocked_def lookupTask_def split: if_splits)
  next
    case (Some a)
    then have "parseTaskName n \<noteq> None" "gget (sy_queues s) (taskQueueOf n) = Some a"
      by (auto simp: lookupTask_def split: if_splits)
    with Some show ?thesis
      by (intro refines_one_section [of _ _ _ "PDeleteTask a n" "ApiDeleteTask n" a])
        (auto simp: apiOn_threads engineOf_apiOn [OF inv] DeleteTask_def taskQueue_def queueLocked_def split_beta)
  qed
qed

lemma putQueue_same: "gget (e_queues e) n = Some qs \<Longrightarrow> putQueue n qs e = e"
  by (simp add: putQueue_def gset_same)

lemma putQueue_twice: "putQueue n qs (putQueue n qs' e) = putQueue n qs e"
  by (simp add: putQueue_def gset_def)

lemma refines_CreateTask:
  assumes inv: "sysinv env s" shows "refines_call env resp (ReqCreateTask parent tp) s"
proof (cases "\<exists>t x a. tp = Some t \<and> parseQueueName parent = Some x \<and> validateCreateTask (sy_now s) t = None \<and>
    gget (sy_queues s) parent = Some a")
  case False
  then have "arrive env (ReqCreateTask parent tp) s = s" by (auto split: option.split)
  moreover have "fst (CreateTask (\<lambda>_. sy_now s) parent tp (engineOf env s)) = engineOf env s"
    using False by (auto simp: CreateTask_def queueLocked_def split: option.split)
  ultimately show ?thesis by (intro refines_at_once) (simp_all del: arrive.simps)
next
  case True
  then obtain t x a where t: "tp = Some t" "parseQueueName parent = Some x" "validateCreateTask (sy_now s) t = None"
    "gget (sy_queues s) parent = Some a" by blast
  let ?k = "length (sy_calls s)" and ?g = "generated (sy_now s) t (m_qs (sy_heap s ! a))"
  let ?s1 = "if t_Name t = [] then apiOn env ApiNextTaskID a s else s"
  have inv1: "sysinv env ?s1" using sysinv_apiOn [OF inv sysinv_queue(1) [OF inv t(4)]] inv by simp
  have e1: "engineOf env ?s1 = putQueue parent (fst ?g) (engineOf env s)"
    using t(4) by (simp add: engineOf_apiOn [OF inv t(4)] generated_def putQueue_same)
  have s1: "sy_calls ?s1 = sy_calls s" "sy_now ?s1 = sy_now s" "gget (sy_queues ?s1) parent = Some a"
    "m_threads (sy_heap ?s1 ! b) = m_threads (sy_heap s ! b)" for b
    using t(4) by (simp_all add: apiOn_threads)
  have q1: "m_qs (sy_heap ?s1 ! a) = fst ?g"
    using arg_cong [OF e1, of "\<lambda>e. gget (e_queues e) parent"] s1(3) by (simp split: if_splits)
  have arr: "arrive env (ReqCreateTask parent tp) s = later (PCreateTask a parent t) s" using t by simp
  have res: "resume env (PCreateTask a parent t) (s\<lparr>sy_calls := c\<rparr>) =
      (case resolveTaskName parent (t_Name t) (snd ?g) of Inl err \<Rightarrow> (?s1\<lparr>sy_calls := c\<rparr>, [])
       | Inr name \<Rightarrow> (?s1\<lparr>sy_calls := c\<rparr>, [PAddTask a (stampTask (sy_now s) name t)]))" for c
    by (simp add: generated_def Let_def apiOn_def split: sum.split)
  show ?thesis
  proof (cases "resolveTaskName parent (t_Name t) (snd ?g)")
    case (Inl err)
    have "run (sysStep env) [SysResume ?k] (later (PCreateTask a parent t) s) = Some (?s1\<lparr>sy_calls := sy_calls s\<rparr>)"
      using res Inl by (simp add: later_def)
    then have "completes env s [SysArrive (ReqCreateTask parent tp), SysResume ?k] ?s1"
      using arr s1 by (simp add: completes_def)
    moreover have "fst (CreateTask (\<lambda>_. sy_now s) parent tp (engineOf env s)) = engineOf env ?s1"
      using t Inl e1 by (simp add: CreateTask_unfold)
    ultimately show ?thesis
      unfolding refines_call_def by (intro exI [of _ "[SysResume ?k]"] exI [of _ ?s1]) (auto intro: exI [of _ 1])
  next
    case (Inr name)
    let ?s2 = "apiOn env (ApiCreateTask (stampTask (sy_now s) name t)) a ?s1"
    have "run (sysStep env) [SysResume ?k, SysResume ?k] (later (PCreateTask a parent t) s) = Some (?s2\<lparr>sy_calls := sy_calls s\<rparr>)"
      using res Inr by (simp add: later_def) (simp add: apiOn_def)
    then have "completes env s [SysArrive (ReqCreateTask parent tp), SysResume ?k, SysResume ?k] ?s2"
      using arr s1 by (simp add: completes_def apiOn_threads)
    moreover have "fst (CreateTask (\<lambda>_. sy_now s) parent tp (engineOf env s)) = engineOf env ?s2"
      using t Inr e1 q1 s1(2) by (simp add: CreateTask_unfold Let_def engineOf_apiOn [OF inv1 s1(3)] putQueue_twice)
    ultimately show ?thesis
      unfolding refines_call_def by (intro exI [of _ "[SysResume ?k, SysResume ?k]"] exI [of _ ?s2]) (auto intro: exI [of _ 2] simp: numeral_2_eq_2)
  qed
qed

text \<open>The attempt of \<^verbatim>\<open>RunTask\<close>, when no other goroutine runs in between.\<close>

lemma attempt_alone:
  assumes "m_threads m = ths @ [TAttempt r None]"
  shows "\<exists>k. mrun env (replicate k (Advance (length ths) True resp)) m =
    Some (m\<lparr>m_qs := attempt (me_oob env) (me_gl env) (me_token env) (\<lambda>_ _. resp) (me_eng env) (m_now m) (m_now m) (m_now m) r (m_qs m),
      m_threads := ths\<rparr>)"
proof (cases "snapshotAttempt r (m_qs m)")
  case None
  then show ?thesis
    by (intro exI [of _ "Suc 0"]) (simp add: assms attempt_def release_def)
next
  case (Some snap)
  then show ?thesis
    by (intro exI [of _ "Suc (Suc (Suc 0))"]) (simp add: assms attempt_def release_def split_beta Let_def)
qed

lemma run_SysQueue:
  "a < length (sy_heap s) \<Longrightarrow> list_all background es \<Longrightarrow> mrun env es (sy_heap s ! a) = Some m' \<Longrightarrow>
     run (sysStep env) (map (SysQueue a) es) s = Some (s\<lparr>sy_heap := (sy_heap s)[a := m']\<rparr>)"
proof (induction es arbitrary: s)
  case (Cons e es)
  then obtain m1 where "mexec env e (sy_heap s ! a) = Some m1" "mrun env es m1 = Some m'" by (auto split: option.splits)
  with Cons.prems Cons.IH [of "s\<lparr>sy_heap := (sy_heap s)[a := m1]\<rparr>"] show ?case by simp
next
  case Nil
  then have "m' = sy_heap s ! a" by simp
  then show ?case by simp
qed

lemma refines_RunTask:
  assumes inv: "sysinv env s" shows "refines_call env resp (ReqRunTask n) s"
proof (cases "lookupTask n s")
  case None
  then have "fst (RunTask oob gl token client clk n (engineOf env s)) = engineOf env s" for oob gl token client clk
    by (auto simp: RunTask_def taskQueue_def queueLocked_def lookupTask_def split: if_splits)
  with None show ?thesis by (intro refines_at_once) simp_all
next
  case (Some a)
  then obtain x where a: "parseTaskName n = Some x" "gget (sy_queues s) (taskQueueOf n) = Some a"
    by (auto simp: lookupTask_def split: if_splits)
  note b = sysinv_queue(1) [OF inv a(2)]
  let ?now = "sy_now s" and ?m = "sy_heap s ! a" and ?s1 = "apiOn env (ApiRunTask n) a s"
  have now: "m_now ?m = ?now" using sysinv_machine(3) [OF inv b] .
  obtain qs1 res where run: "runTaskLocked ?now n (m_qs ?m) = (qs1, res)" by fastforce
  have e1: "engineOf env ?s1 = putQueue (taskQueueOf n) qs1 (engineOf env s)"
    using engineOf_apiOn [OF inv a(2)] run by (simp add: split_beta)
  have arr: "arrive env (ReqRunTask n) s = later (PRunTask a n) s" using Some by simp
  have eng: "taskQueue n (engineOf env s) = Inr (m_qs ?m)" using a by (simp add: taskQueue_def)
  show ?thesis
  proof (cases res)
    case (Inl err)
    have "m_threads (sy_heap ?s1 ! c) = m_threads (sy_heap s ! c)" for c
      using b now run Inl by (simp add: apiOn_def nth_list_update)
    with arr e1 eng run Inl show ?thesis
      by (intro refines_one_section [of _ _ _ "PRunTask a n" "ApiRunTask n" a]) (simp_all add: RunTask_def del: arrive.simps)
  next
    case (Inr r)
    let ?ths = "m_threads ?m" and ?m1 = "?m\<lparr>m_qs := qs1, m_threads := m_threads ?m @ [TAttempt r None]\<rparr>"
    let ?qs2 = "attempt (me_oob env) (me_gl env) (me_token env) (\<lambda>_ _. resp) (me_eng env) ?now ?now ?now r qs1"
    let ?adv = "Advance (length ?ths) True resp"
    have s1: "?s1 = s\<lparr>sy_heap := (sy_heap s)[a := ?m1]\<rparr>" using now run Inr by (simp add: apiOn_def)
    obtain k where k: "mrun env (replicate k ?adv) ?m1 = Some (?m1\<lparr>m_qs := ?qs2, m_threads := ?ths\<rparr>)"
      using attempt_alone [of ?m1 ?ths r env resp] now by auto
    let ?s2 = "s\<lparr>sy_heap := (sy_heap s)[a := ?m\<lparr>m_qs := ?qs2\<rparr>]\<rparr>"
    have r2: "run (sysStep env) (replicate k (SysQueue a ?adv)) ?s1 = Some ?s2"
      using run_SysQueue [of a ?s1 "replicate k ?adv" env] k b by (simp add: s1 list_all_iff)
    have r1: "run (sysStep env) [SysResume (length (sy_calls s))] (later (PRunTask a n) s) = Some ?s1"
      by (rule resume_last) simp
    have "run (sysStep env) ([SysResume (length (sy_calls s))] @ replicate k (SysQueue a ?adv)) (later (PRunTask a n) s) = Some ?s2"
      by (simp only: run_append r1 r2 bind.simps)
    then have "completes env s (SysArrive (ReqRunTask n) # [SysResume (length (sy_calls s))] @ replicate k (SysQueue a ?adv)) ?s2"
      using arr b by (simp add: completes_def nth_list_update del: arrive.simps sysStep.simps(4))
    moreover have "engineOf env ?s2 = putQueue (taskQueueOf n) ?qs2 (engineOf env s)"
      using engineOf_heap [OF inv a(2)] by simp
    then have "exec env (callOf ?now resp (ReqRunTask n)) (engineOf env s) = Some (engineOf env ?s2)"
      using eng run Inr by (simp add: RunTask_def Let_def)
    moreover have "ownSteps s (ReqRunTask n) ([SysResume (length (sy_calls s))] @ replicate k (SysQueue a ?adv))"
      unfolding ownSteps.simps
      by (intro exI [of _ 1] exI [of _ k] exI [of _ a] exI [of _ resp]) (simp add: a(2))
    ultimately show ?thesis unfolding refines_call_def by blast
  qed
qed

lemma refines_calls:
  "sysinv env s \<Longrightarrow> refines_call env resp req s"
  by (cases req) (simp_all add: refines_CreateQueue refines_UpdateQueue refines_DeleteQueue refines_SetIamPolicy
      refines_section_calls refines_CreateTask refines_RunTask)

end
