(* ===== verification/System_Props.thy ===== *)
theory System_Props
  imports System_Calls
begin

text \<open>
  What the concurrent engine promises: each queue behaves as it does alone, the tables stay well formed
  in every interleaving, a call that nothing crosses is the operation of \<^verbatim>\<open>Engine\<close>, and a deleted queue goes
  quiet unless a call still holds it.
\<close>

section \<open>Queues that were deleted\<close>

text \<open>A queue state without tasks that no name and no pending call leads to.\<close>

fun pend_addr :: "pending \<Rightarrow> nat" where
  "pend_addr (PCreateTask a parent t) = a"
| "pend_addr (PAddTask a t) = a"
| "pend_addr (PPurgeQueue a) = a"
| "pend_addr (PSetQueueState a st) = a"
| "pend_addr (PDeleteTask a n) = a"
| "pend_addr (PRunTask a n) = a"

definition abandoned :: "'p system \<Rightarrow> nat \<Rightarrow> bool" where
  "abandoned s a \<longleftrightarrow> a < length (sy_heap s) \<and> (\<forall>n. gget (sy_queues s) n \<noteq> Some a) \<and> (\<forall>p \<in> set (sy_calls s). pend_addr p \<noteq> a)"

fun dispatchOf :: "thread \<Rightarrow> bool" where
  "dispatchOf (TDispatch r snap dt h) = True"
| "dispatchOf _ = False"

text \<open>
  What a step leaves of a drained queue: it stays drained, and the requests in flight can only get
  fewer.
\<close>

definition drained :: "machine \<Rightarrow> bool" where
  "drained m \<longleftrightarrow> (\<forall>r < length (qs_cells (m_qs m)). ts_removed (cell (m_qs m) r))"

lemma drained_iff:
  assumes "minv m" shows "drained m \<longleftrightarrow> qs_tasks (m_qs m) = []"
proof
  have q: "qinv (m_qs m)" using assms by (simp add: minv_def)
  show "qs_tasks (m_qs m) = []" if d: "drained m"
  proof (rule ccontr)
    assume "qs_tasks (m_qs m) \<noteq> []"
    then obtain n r xs where "qs_tasks (m_qs m) = (n, r) # xs" by (metis neq_Nil_conv surj_pair)
    then have "gget (qs_tasks (m_qs m)) n = Some r" by (simp add: gget_def)
    with qinv_lookup [OF q] d show False by (auto simp: drained_def live_def)
  qed
  show "drained m" if "qs_tasks (m_qs m) = []"
    using qinv_live [OF q] that by (auto simp: drained_def live_def)
qed

lemma drained_step:
  assumes "minv m" "drained m" "background ev" "mexec env ev m = Some m'"
  shows "drained m'" and "th \<in> set (m_threads m') \<Longrightarrow> dispatchOf th \<Longrightarrow> th \<in> set (m_threads m)"
proof -
  have ev: "evolves (m_qs m) (m_qs m')" using mexec_step [OF assms(1,4)] by (simp add: mlater_def)
  have len: "length (qs_cells (m_qs m')) = length (qs_cells (m_qs m))"
    using assms(3,4) by (cases ev) (auto split: option.splits if_splits dest: advance_cells)
  show "drained m'" using assms(2) ev len by (auto simp: drained_def evolves_def)
  show "th \<in> set (m_threads m)" if th: "th \<in> set (m_threads m')" "dispatchOf th"
  proof (cases ev)
    case (TimerFires i)
    then obtain f where "m_threads m' = m_threads m @ [spawn f]" using assms(4) by (auto split: option.splits if_splits)
    then show ?thesis using th by (cases f) auto
  next
    case (Advance k limOk resp)
    with assms(4) obtain qs' new where k: "k < length (m_threads m)"
      and adv: "advance env limOk resp (m_now m) (m_threads m ! k) (m_qs m) = Some (qs', new)"
      and m': "m_threads m' = take k (m_threads m) @ new @ drop (Suc k) (m_threads m)"
      by (auto split: if_splits option.splits)
    have ok: "thread_ok (m_qs m) (m_threads m ! k)" using assms(1) k by (simp add: minv_def)
    have "\<not> dispatchOf th" if "th \<in> set new" for th
    proof (cases "m_threads m ! k")
      case (TAttempt r h)
      then have "snapshotAttempt r (m_qs m) = None"
        using ok assms(2) by (simp add: snapshotAttempt_None_iff drained_def fn_ok_def)
      with TAttempt adv that show ?thesis by (auto simp: release_def split: option.splits)
    qed (use adv that in \<open>auto simp: split_beta Let_def release_def split: if_splits option.splits fireResult.splits\<close>)
    with th m' show ?thesis by (auto dest: in_set_takeD in_set_dropD)
  qed (use assms(3) in auto)
qed

lemma heap_apiOn_other: "b \<noteq> a \<Longrightarrow> sy_heap (apiOn env op b s) ! a = sy_heap s ! a"
  by (simp add: apiOn_def)

lemma abandoned_arrive:
  assumes "abandoned s a"
  shows "abandoned (arrive env req s) a \<and> sy_heap (arrive env req s) ! a = sy_heap s ! a"
proof -
  have a: "a < length (sy_heap s)" "gget (sy_queues s) n = Some b \<Longrightarrow> b \<noteq> a" for n b
    using assms by (auto simp: abandoned_def)
  have new: "abandoned (newQueue q s) a \<and> sy_heap (newQueue q s) ! a = sy_heap s ! a" for q
    using assms by (auto simp: abandoned_def newQueue_def gm.get_set nth_append)
  have api: "abandoned (apiOn env op b s) a \<and> sy_heap (apiOn env op b s) ! a = sy_heap s ! a" if "b \<noteq> a" for op b
    using assms that by (auto simp: abandoned_def heap_apiOn_other)
  have lat: "abandoned (later p s) a \<and> sy_heap (later p s) ! a = sy_heap s ! a" if "pend_addr p \<noteq> a" for p
    using assms that by (auto simp: abandoned_def later_def)
  show ?thesis
  proof (cases req)
    case (ReqDeleteQueue n)
    then show ?thesis using assms a api
      by (auto simp: abandoned_def gm.get_del heap_apiOn_other split: option.split if_splits)
  next
    case (ReqSetIamPolicy ep n p)
    then show ?thesis using assms by (simp add: abandoned_def)
  qed (use assms a new api lat in \<open>auto simp: lookupTask_def split: option.split\<close>)
qed

lemma abandoned_resume:
  assumes "pend_addr p \<noteq> a"
  shows "sy_heap (fst (resume env p s)) ! a = sy_heap s ! a \<and> (\<forall>p' \<in> set (snd (resume env p s)). pend_addr p' \<noteq> a) \<and>
    sy_queues (fst (resume env p s)) = sy_queues s \<and> length (sy_heap (fst (resume env p s))) = length (sy_heap s)"
  using assms by (cases p) (auto simp: Let_def heap_apiOn_other split: sum.split)

lemma abandoned_step:
  assumes "abandoned s a" "sysStep env ev s = Some s'"
  shows "abandoned s' a \<and> (sy_heap s' ! a = sy_heap s ! a \<or> (\<exists>t. sy_heap s' ! a = (sy_heap s ! a)\<lparr>m_now := t\<rparr>) \<or>
    (\<exists>e. background e \<and> mexec env e (sy_heap s ! a) = Some (sy_heap s' ! a)))"
proof (cases ev)
  case (SysTick t)
  with assms show ?thesis by (auto simp: abandoned_def split: if_splits)
next
  case (SysQueue b e)
  with assms show ?thesis by (cases "b = a") (auto simp: abandoned_def split: if_splits)
next
  case (SysArrive req)
  with assms abandoned_arrive [OF assms(1), of env req] show ?thesis by (simp del: arrive.simps)
next
  case (SysResume k)
  let ?r = "resume env (sy_calls s ! k) s"
  from SysResume assms(2) have k: "k < length (sy_calls s)"
    and s': "s' = fst ?r\<lparr>sy_calls := take k (sy_calls s) @ snd ?r @ drop (Suc k) (sy_calls s)\<rparr>"
    by (simp_all add: split_beta split: if_splits)
  have "pend_addr (sy_calls s ! k) \<noteq> a" using assms(1) k by (simp add: abandoned_def)
  note r = abandoned_resume [OF this, of env s]
  then have "sy_heap s' ! a = sy_heap s ! a" by (simp add: s')
  moreover have "abandoned s' a" using r assms(1) by (auto simp: s' abandoned_def dest: in_set_takeD in_set_dropD)
  ultimately show ?thesis by blast
qed

text \<open>The requests that an abandoned queue has in flight were in flight before.\<close>

interpretation ab: evolving_system "sysStep env" "\<lambda>s. sysinv env s \<and> abandoned s a \<and> drained (sy_heap s ! a)"
    "\<lambda>s s'. \<forall>th \<in> set (m_threads (sy_heap s' ! a)). dispatchOf th \<longrightarrow> th \<in> set (m_threads (sy_heap s ! a))" for env a
proof
  fix s e s'
  assume s: "sysinv env s \<and> abandoned s a \<and> drained (sy_heap s ! a)" and step: "sysStep env e s = Some s'"
  have m: "minv (sy_heap s ! a)" using s sysinv_machine(4) by (auto simp: abandoned_def)
  note st = abandoned_step [OF _ step, of a]
  from s st have "(drained (sy_heap s' ! a)) \<and>
      (\<forall>th \<in> set (m_threads (sy_heap s' ! a)). dispatchOf th \<longrightarrow> th \<in> set (m_threads (sy_heap s ! a)))"
    using drained_step [OF m] by (auto simp: drained_def)
  then show "\<forall>th \<in> set (m_threads (sy_heap s' ! a)). dispatchOf th \<longrightarrow> th \<in> set (m_threads (sy_heap s ! a))"
    and "sysinv env s' \<and> abandoned s' a \<and> drained (sy_heap s' ! a)"
    using s st sy.step_inv [OF _ step] by blast+
qed auto

section \<open>Properties\<close>

text \<open>
  A \<^verbatim>\<open>CreateTask\<close> has looked its queue up when the queue is deleted; it goes on, and the timer of the new task
  expires.
\<close>

definition crossingDelete :: "unit sysEvent list" where
  "crossingDelete =
     [SysArrive (ReqUpdateQueue (Some (zeroQueue\<lparr>q_Name := demoName\<rparr>)) []),
      SysArrive (ReqCreateTask demoName (Some (demoTask (demoName @ ''/tasks/a'')))),
      SysArrive (ReqDeleteQueue demoName), SysResume 0, SysResume 0,
      SysQueue 0 (TimerFires 1), SysQueue 0 (Advance 0 True (Inr 200)), SysQueue 0 (Advance 0 True (Inr 200)),
      SysQueue 0 (Advance 0 True (Inr 200)), SysQueue 0 (Advance 0 True (Inr 200))]"

lemma crossingDelete_runs:
  "\<exists>s. run (sysStep demoEnv) crossingDelete (sys0 5) = Some s \<and> length (sy_heap s) = 1"
proof -
  have "map_option (\<lambda>s. length (sy_heap s)) (run (sysStep demoEnv) crossingDelete (sys0 5)) = Some 1" by code_simp
  then show ?thesis by auto
qed



text \<open>
  C7. The tables stay well formed in every interleaving, not only between calls: at each moment the tables
  have distinct keys, each queue is stored under its own valid name and is internally consistent, each task is in the
  queue its name says, no name is both in use and reserved, and no policy is without a queue.
\<close>

theorem engine_invariant_holds_at_every_moment:
  assumes "run (sysStep env) es (sys0 now :: 'p system) = Some s"
  shows "gwf (sy_queues s) \<and> gwf (sy_policies s) \<and>
    (\<forall>n qs. gget (e_queues (engineOf env s)) n = Some qs \<longrightarrow>
       qinv qs \<and> q_Name (qs_q qs) = n \<and> parseQueueName n \<noteq> None \<and> queueIDRe (queueID n) \<and>
       (\<forall>tn r. gget (qs_tasks qs) tn = Some r \<longrightarrow>
          name_of qs r = tn \<and> taskQueueOf tn = n \<and> \<not> tombstoned (sy_now s) tn qs)) \<and>
    (\<forall>n. gget (sy_policies s) n \<noteq> None \<longrightarrow> gget (sy_queues s) n \<noteq> None)"
proof -
  have inv: "sysinv env s" by (rule sy.run_inv [OF sysinv_sys0 assms])
  have "qinv qs \<and> q_Name (qs_q qs) = n \<and> parseQueueName n \<noteq> None \<and> queueIDRe (queueID n) \<and>
      (\<forall>tn r. gget (qs_tasks qs) tn = Some r \<longrightarrow> name_of qs r = tn \<and> taskQueueOf tn = n \<and> \<not> tombstoned (sy_now s) tn qs)"
    if n: "gget (e_queues (engineOf env s)) n = Some qs" for n qs
  proof -
    from n obtain a where a: "gget (sy_queues s) n = Some a" "qs = m_qs (sy_heap s ! a)" by auto
    note b = sysinv_queue(1) [OF inv a(1)]
    have "apart (sy_now s) qs" using sysinv_machine(3,4) [OF inv b] a(2) by (simp add: minv_def)
    moreover have g: "good n qs" by (rule einv_good [OF sysinv_einv [OF inv] n])
    ultimately show ?thesis using qinv_lookup [of qs] by (auto simp: good_def apart_def)
  qed
  moreover have "gwf (sy_queues s)" "gwf (sy_policies s)"
    "\<forall>n. gget (sy_policies s) n \<noteq> None \<longrightarrow> gget (sy_queues s) n \<noteq> None"
    using inv by (auto simp: sysinv_def)
  ultimately show ?thesis by blast
qed

theorem engine_invariant_holds_at_every_moment_witness:
  "\<exists>s. run (sysStep demoEnv) crossingDelete (sys0 5) = Some s \<and> gwf (sy_queues s)"
  using crossingDelete_runs engine_invariant_holds_at_every_moment by blast

text \<open>
  C16. A call that nothing crosses is the operation of \<^verbatim>\<open>Engine\<close>: from any state the running engine can be in, its
  own steps bring it to its end, leave no goroutine and no pending call behind, and change the
  tables exactly as the sequential model says.
\<close>

theorem uncrossed_call_is_engine_call:
  assumes "run (sysStep env) es (sys0 now :: 'p system) = Some s"
  shows "\<exists>evs s'. ownSteps s req evs \<and> completes env s (SysArrive req # evs) s' \<and>
    exec env (callOf (sy_now s) resp req) (engineOf env s) = Some (engineOf env s')"
  using refines_calls [OF sy.run_inv [OF sysinv_sys0 assms], of resp req] by (simp add: refines_call_def)

theorem uncrossed_call_is_engine_call_witness:
  "\<exists>s evs s'. run (sysStep demoEnv) crossingDelete (sys0 5) = Some s \<and>
     completes demoEnv s (SysArrive (ReqCreateQueue ''projects/p/locations/l'' (Some (zeroQueue\<lparr>q_Name := demoName\<rparr>))) # evs) s' \<and>
     exec demoEnv (CallCreateQueue ''projects/p/locations/l'' (Some (zeroQueue\<lparr>q_Name := demoName\<rparr>))) (engineOf demoEnv s) =
       Some (engineOf demoEnv s')"
proof -
  obtain s where s: "run (sysStep demoEnv) crossingDelete (sys0 5) = Some s" using crossingDelete_runs by blast
  from uncrossed_call_is_engine_call [OF s, of "ReqCreateQueue ''projects/p/locations/l'' (Some (zeroQueue\<lparr>q_Name := demoName\<rparr>))" "Inr 0"]
    s show ?thesis unfolding callOf.simps by blast
qed

text \<open>
  C17. A queue that is deleted while no call holds it goes quiet: whatever happens afterwards, also to a
  new queue of the same name, it never has a task again, and the only requests it still waits for are those
  that were in flight when it was deleted.
\<close>

theorem deleted_queue_goes_quiet:
  assumes "run (sysStep env) es (sys0 now :: 'p system) = Some s" and "gget (sy_queues s) n = Some a"
    and "\<forall>p \<in> set (sy_calls s). pend_addr p \<noteq> a"
    and "run (sysStep env) (SysArrive (ReqDeleteQueue n) # es') s = Some s'"
  shows "qs_tasks (m_qs (sy_heap s' ! a)) = [] \<and>
    (\<forall>th \<in> set (m_threads (sy_heap s' ! a)). dispatchOf th \<longrightarrow> th \<in> set (m_threads (sy_heap s ! a)))"
proof -
  have inv: "sysinv env s" by (rule sy.run_inv [OF sysinv_sys0 assms(1)])
  note a = sysinv_queue(1) [OF inv assms(2)]
  let ?s1 = "(apiOn env ApiStop a s)\<lparr>sy_queues := gdel n (sy_queues s), sy_policies := gdel n (sy_policies s)\<rparr>"
  have s1: "arrive env (ReqDeleteQueue n) s = ?s1" using assms(2) by simp
  then have inv1: "sysinv env ?s1" using sysinv_arrive [OF inv, of "ReqDeleteQueue n"] by simp
  have "gget (sy_queues s) n' = Some a \<Longrightarrow> n' = n" for n' using sysinv_queue(2) [OF inv] assms(2) by metis
  then have ab: "abandoned ?s1 a" using a assms(3) by (auto simp: abandoned_def gm.get_del split: if_splits)
  have m: "sy_heap ?s1 ! a = (sy_heap s ! a)\<lparr>m_qs := stop (m_qs (sy_heap s ! a))\<rparr>" using a by (simp add: apiOn_def)
  have "qs_tasks (m_qs (sy_heap ?s1 ! a)) = []" unfolding m by (simp add: stop_def)
  then have "drained (sy_heap ?s1 ! a)" using drained_iff [OF sysinv_machine(4) [OF inv1, of a]] a by simp
  then have i: "sysinv env ?s1 \<and> abandoned ?s1 a \<and> drained (sy_heap ?s1 ! a)" using inv1 ab by blast
  have r: "run (sysStep env) es' ?s1 = Some s'" using assms(4) s1 by simp
  from ab.run_inv [OF i r] have s': "sysinv env s'" "a < length (sy_heap s')" "drained (sy_heap s' ! a)"
    by (auto simp: abandoned_def)
  then have "qs_tasks (m_qs (sy_heap s' ! a)) = []" using drained_iff [OF sysinv_machine(4) [OF s'(1,2)]] by simp
  then show ?thesis using ab.run_rel [OF i r] m by simp
qed

theorem deleted_queue_goes_quiet_witness:
  "\<exists>s s'. run (sysStep demoEnv) (crossingDelete ! 0 # crossingDelete ! 1 # [SysResume 0, SysResume 0]) (sys0 5) = Some s \<and>
     qs_tasks (m_qs (sy_heap s ! 0)) \<noteq> [] \<and>
     run (sysStep demoEnv) [SysArrive (ReqDeleteQueue demoName), SysTick 9] s = Some s' \<and>
     qs_tasks (m_qs (sy_heap s' ! 0)) = []"
proof -
  let ?es = "crossingDelete ! 0 # crossingDelete ! 1 # [SysResume 0, SysResume 0]"
  have "map_option (\<lambda>s. (gget (sy_queues s) demoName, sy_calls s, qs_tasks (m_qs (sy_heap s ! 0)) \<noteq> [], sy_now s))
      (run (sysStep demoEnv) ?es (sys0 5)) = Some (Some 0, [], True, 5)" by code_simp
  then obtain s where s: "run (sysStep demoEnv) ?es (sys0 5) = Some s" "gget (sy_queues s) demoName = Some 0"
    "sy_calls s = []" "qs_tasks (m_qs (sy_heap s ! 0)) \<noteq> []" "sy_now s = 5" by auto
  then obtain s' where s': "run (sysStep demoEnv) [SysArrive (ReqDeleteQueue demoName), SysTick 9] s = Some s'" by simp
  have "\<forall>p \<in> set (sy_calls s). pend_addr p \<noteq> 0" using s(3) by simp
  from deleted_queue_goes_quiet [OF s(1,2) this s'] s s' show ?thesis by blast
qed


end
