(* ===== verification/Machine_Progress.thy ===== *)
theory Machine_Progress
  imports Machine_Props
begin

text \<open>
  What the goroutines of a queue are sure to do: none of them blocks for ever, each ends after a bounded number
  of steps, and the goroutine that fires for a task sends its request.
\<close>

section \<open>The goroutines that are there\<close>

fun advances :: "event \<Rightarrow> bool" where
  "advances (Advance k limOk resp) = True"
| "advances _ = False"

fun stepsOf :: "thread \<Rightarrow> nat" where
  "stepsOf (TFire r) = 7"
| "stepsOf (TLimiter r c) = 6"
| "stepsOf (TSlot r c) = 5"
| "stepsOf (TAttempt r h) = 4"
| "stepsOf (TDispatch r snap dt h) = 3"
| "stepsOf (TApply r att dt rc hc msg h) = 2"
| "stepsOf (TRelease c) = 1"
| "stepsOf (TExpire r) = 1"
| "stepsOf (TTombstone n) = 1"

definition workLeft :: "machine \<Rightarrow> nat" where
  "workLeft m = sum_list (map stepsOf (m_threads m))"

lemma release_steps: "sum_list (map stepsOf (release h)) \<le> 1"
  by (simp add: release_def split: option.split)

lemma advance_steps:
  assumes "advance env limOk resp now th qs = Some (qs', new)"
  shows "sum_list (map stepsOf new) < stepsOf th"
proof (cases th)
  case (TAttempt r h)
  then show ?thesis using assms release_steps [of h] by (auto split: option.splits)
next
  case (TApply r att dt rc hc msg h)
  then show ?thesis using assms release_steps [of h] by auto
qed (use assms in \<open>auto simp: split_beta Let_def split: if_splits fireResult.splits\<close>)

lemma advance_workLeft:
  assumes "advances e" "mexec env e m = Some m'"
  shows "workLeft m' < workLeft m"
proof -
  from assms obtain k limOk resp qs' new where k: "k < length (m_threads m)"
    and adv: "advance env limOk resp (m_now m) (m_threads m ! k) (m_qs m) = Some (qs', new)"
    and m': "m_threads m' = take k (m_threads m) @ new @ drop (Suc k) (m_threads m)"
    by (cases e) (auto split: if_splits option.splits)
  have "workLeft m = sum_list (map stepsOf (take k (m_threads m) @ m_threads m ! k # drop (Suc k) (m_threads m)))"
    using id_take_nth_drop [OF k] by (simp add: workLeft_def)
  then show ?thesis using advance_steps [OF adv] by (simp add: workLeft_def m')
qed

lemma advances_bounded:
  "list_all advances es \<Longrightarrow> mrun env es m = Some m' \<Longrightarrow> length es + workLeft m' \<le> workLeft m"
proof (induction es arbitrary: m)
  case (Cons e es)
  then obtain m1 where "mexec env e m = Some m1" "mrun env es m1 = Some m'" by (auto split: option.splits)
  with Cons advance_workLeft [of e env m m1] show ?case by fastforce
qed simp

text \<open>Only a goroutine that waits for a slot can be blocked.\<close>

lemma advance_blocked:
  "advance env limOk resp now th qs = None \<Longrightarrow>
     \<exists>r c. th = TSlot r c \<and> ch_cap (qs_chans qs ! c) \<le> ch_used (qs_chans qs ! c)"
  by (cases th) (auto simp: split_beta Let_def not_less split: if_splits)

lemma some_goroutine_goes_on:
  assumes inv: "minv m" and "m_threads m \<noteq> []"
  shows "\<exists>k < length (m_threads m). \<forall>limOk resp. advance env limOk resp (m_now m) (m_threads m ! k) (m_qs m) \<noteq> None"
proof (rule ccontr)
  let ?ths = "m_threads m"
  assume no: "\<not> ?thesis"
  have all: "\<exists>r c. th = TSlot r c \<and> ch_cap (qs_chans (m_qs m) ! c) \<le> ch_used (qs_chans (m_qs m) ! c)" if "th \<in> set ?ths" for th
  proof -
    from that obtain k where "k < length ?ths" "th = ?ths ! k" by (auto simp: in_set_conv_nth)
    with no obtain limOk resp where "advance env limOk resp (m_now m) th (m_qs m) = None" by blast
    then show ?thesis by (rule advance_blocked)
  qed
  from assms(2) obtain th where "th \<in> set ?ths" by (cases ?ths) auto
  with all obtain r c where th: "TSlot r c \<in> set ?ths" "ch_cap (qs_chans (m_qs m) ! c) \<le> ch_used (qs_chans (m_qs m) ! c)"
    by blast
  have q: "qinv (m_qs m)" and u: "used (m_qs m) c = holders c ?ths" using inv by (simp_all add: minv_def)
  have c: "c < length (qs_chans (m_qs m))" using inv th(1) by (auto simp: minv_def)
  have "1 \<le> holders c ?ths" using qinv_chan [OF q c] th(2) u c by (simp add: used_def)
  then obtain th' where "th' \<in> set ?ths" "holding th' = Some c"
    by (auto simp: holders_def filter_empty_conv Suc_le_eq)
  with all show False by fastforce
qed

interpretation gr: progressing_system "\<lambda>e m. if advances e then mexec env e m else None" minv workLeft "\<lambda>m. m_threads m = []" for env
proof
  show "minv s' \<and> workLeft s' < workLeft s"
    if "minv s" "(if advances e then mexec env e s else None) = Some s'" for s e s'
    using that qm.step_inv advance_workLeft by (auto split: if_splits)
  fix s assume "minv s" "m_threads s \<noteq> []"
  then obtain k where "k < length (m_threads s)" "advance env True (Inr 0) (m_now s) (m_threads s ! k) (m_qs s) \<noteq> None"
    using some_goroutine_goes_on by blast
  then show "\<exists>e s'. (if advances e then mexec env e s else None) = Some s'"
    by (intro exI [of _ "Advance k True (Inr 0)"]) auto
qed

section \<open>The request of a task\<close>

fun requests :: "tref \<Rightarrow> thread \<Rightarrow> bool" where
  "requests r (TDispatch r' snap dt h) \<longleftrightarrow> r' = r"
| "requests r _ \<longleftrightarrow> False"

text \<open>The goroutines that may be about to take the task out of the queue.\<close>

fun endsTask :: "tref \<Rightarrow> thread \<Rightarrow> bool" where
  "endsTask r (TApply r' att dt rc hc msg h) \<longleftrightarrow> r' = r"
| "endsTask r (TExpire r') \<longleftrightarrow> r' = r"
| "endsTask r _ \<longleftrightarrow> False"

definition running :: "queueState \<Rightarrow> bool" where
  "running qs \<longleftrightarrow> q_State (qs_q qs) \<noteq> StatePaused \<and> q_State (qs_q qs) \<noteq> StateDisabled"

definition underway :: "tref \<Rightarrow> machine \<Rightarrow> bool" where
  "underway r m \<longleftrightarrow> live (m_qs m) r \<and> running (m_qs m) \<and> (\<forall>th \<in> set (m_threads m). \<not> endsTask r th) \<and>
     (\<exists>th \<in> set (m_threads m). working th = Some r)"

lemma advance_q:
  "advance env limOk resp now th qs = Some (qs', new) \<Longrightarrow> q_State (qs_q qs') = q_State (qs_q qs)"
  using same_limits_advance
  by (cases th) (auto simp: split_beta Let_def fire_unfold setUsed_def expire_def tombstoneExpire_def
      applyAttempt_unfold recorded_def reasoned_def postponed_def split: if_splits option.splits)

text \<open>Two live tasks have different names, so that removing one leaves the other.\<close>

lemma live_removeLocked_other:
  assumes "qinv qs" "live qs r" "live qs r'" "r' \<noteq> r"
  shows "live (removeLocked eng now r' qs) r"
proof -
  have i: "qinv (removeLocked eng now r' qs)" using assms by (auto intro: inv_intros simp: live_def)
  have "name_of qs r' \<noteq> name_of qs r" using qinv_live [OF assms(1)] assms(2-4) by (metis option.inject)
  then have "gget (qs_tasks (removeLocked eng now r' qs)) (name_of qs r) = Some r"
    using qinv_live [OF assms(1,2)] by (simp add: gm.get_del)
  then show ?thesis using qinv_lookup [OF i] by blast
qed

lemma live_applyAttempt_other:
  assumes "qinv qs" "live qs r" "r' < length (qs_cells qs)" "r' \<noteq> r"
  shows "live (applyAttempt oob eng now r' att dt rc hc msg qs) r"
proof (cases "ts_removed (cell qs r')")
  case True
  with assms show ?thesis by (simp add: applyAttempt_unfold)
next
  case False
  let ?q = "applyAttempt oob eng now r' att dt rc hc msg qs"
  have i: "qinv ?q" using assms(1,3) by (rule qinv_applyAttempt)
  have "live qs r'" using False assms(3) by (simp add: live_def)
  then have "name_of qs r' \<noteq> name_of qs r" using qinv_live [OF assms(1)] assms(2,4) by (metis option.inject)
  moreover have "qs_tasks ?q = qs_tasks qs \<or> qs_tasks ?q = gdel (name_of qs r') (qs_tasks qs)"
    using recordAttempt_name False
    by (auto simp: applyAttempt_unfold Let_def) (auto simp: recorded_def reasoned_def postponed_def cell_updCell)
  ultimately have "gget (qs_tasks ?q) (name_of qs r) = Some r"
    using qinv_live [OF assms(1,2)] by (auto simp: gm.get_del)
  then show ?thesis using qinv_lookup [OF i] by blast
qed

lemma cell_setUsed [simp]: "cell (setUsed c f qs) r = cell qs r" "qs_cells (setUsed c f qs) = qs_cells qs"
  by (simp_all add: setUsed_def cell_def)

lemma advance_live:
  assumes "qinv qs" "thread_ok qs th" "advance env limOk resp now th qs = Some (qs', new)" "live qs r" "\<not> endsTask r th"
  shows "live qs' r"
proof (cases th)
  case (TApply r' att dt rc hc msg h)
  then show ?thesis using assms live_applyAttempt_other [OF assms(1,4)] by (auto simp: fn_ok_def)
next
  case (TExpire r')
  then show ?thesis
    using assms live_removeLocked_other [OF assms(1,4), of r'] by (cases "ts_removed (cell qs r')") (auto simp: expire_def live_def)
qed (use assms in \<open>auto simp: split_beta Let_def fire_unfold live_def tombstoneExpire_def cell_updCell
      split: if_splits option.splits\<close>)

lemma underway_step:
  assumes inv: "minv m" and u: "underway r m" and no: "\<not> list_ex (requests r) (m_threads m)"
    and step: "mexec env (Advance k True resp) m = Some m'"
  shows "list_ex (requests r) (m_threads m') \<or> underway r m'"
proof -
  let ?th = "m_threads m ! k"
  from step obtain qs' new where k: "k < length (m_threads m)"
    and adv: "advance env True resp (m_now m) ?th (m_qs m) = Some (qs', new)"
    and m': "m_qs m' = qs'" "m_threads m' = take k (m_threads m) @ new @ drop (Suc k) (m_threads m)"
    by (auto split: if_splits option.splits)
  have q: "qinv (m_qs m)" and ok: "thread_ok (m_qs m) ?th" using inv k by (simp_all add: minv_def)
  have ths: "set (m_threads m) = insert ?th (set (take k (m_threads m)) \<union> set (drop (Suc k) (m_threads m)))"
    using arg_cong [OF id_take_nth_drop [OF k], of set] by simp
  have no_end: "\<not> endsTask r ?th" "\<not> requests r ?th" using u no k by (auto simp: underway_def list_ex_iff)
  have lv: "live qs' r" using advance_live [OF q ok adv _ no_end(1)] u by (simp add: underway_def)
  have run: "running qs'" using advance_q [OF adv] u by (simp add: underway_def running_def)
  have new_end: "\<not> endsTask r th" if "th \<in> set new" for th
    using adv that no_end
    by (cases ?th) (auto simp: split_beta Let_def release_def split: if_splits option.splits fireResult.splits)
  have new_work: "\<exists>th \<in> set new. working th = Some r" if "working ?th = Some r"
    using adv that no_end u
    by (cases ?th) (auto simp: split_beta Let_def underway_def running_def live_def fire_unfold snapshotAttempt_def
        split: if_splits option.splits)
  have "\<exists>th \<in> set (m_threads m'). working th = Some r"
  proof (cases "working ?th = Some r")
    case True
    then show ?thesis using new_work m'(2) by auto
  next
    case False
    then show ?thesis using u ths m'(2) by (auto simp: underway_def)
  qed
  then have "underway r m'"
    using lv run new_end u ths m' by (auto simp: underway_def)
  then show ?thesis ..
qed

fun goesOn :: "event \<Rightarrow> bool" where
  "goesOn (Advance k limOk resp) = limOk"
| "goesOn _ = False"

interpretation rq: progressing_system "\<lambda>e m. if goesOn e then mexec env e m else None"
    "\<lambda>m. minv m \<and> (list_ex (requests r) (m_threads m) \<or> underway r m)" workLeft "\<lambda>m. list_ex (requests r) (m_threads m)" for env r
proof
  fix s e s'
  assume s: "minv s \<and> (list_ex (requests r) (m_threads s) \<or> underway r s)" "\<not> list_ex (requests r) (m_threads s)"
    and e: "(if goesOn e then mexec env e s else None) = Some s'"
  then obtain k resp where k: "e = Advance k True resp" by (cases e) (auto split: if_splits)
  with e have st: "mexec env (Advance k True resp) s = Some s'" by simp
  have "minv s'" by (rule qm.step_inv [OF _ st]) (use s in blast)
  moreover have "workLeft s' < workLeft s" by (rule advance_workLeft [OF _ st]) simp
  ultimately show "(minv s' \<and> (list_ex (requests r) (m_threads s') \<or> underway r s')) \<and> workLeft s' < workLeft s"
    using underway_step [OF _ _ _ st] s by blast
next
  fix s assume s: "minv s \<and> (list_ex (requests r) (m_threads s) \<or> underway r s)" "\<not> list_ex (requests r) (m_threads s)"
  then have "m_threads s \<noteq> []" by (auto simp: underway_def)
  then obtain k where "k < length (m_threads s)" "advance env True (Inr 0) (m_now s) (m_threads s ! k) (m_qs s) \<noteq> None"
    using some_goroutine_goes_on s by blast
  then show "\<exists>e s'. (if goesOn e then mexec env e s else None) = Some s'"
    by (intro exI [of _ "Advance k True (Inr 0)"]) auto
qed

text \<open>
  A task of a running queue that nothing is about to take out has its request in flight after a wait until it is due
  and some steps of the queue's own goroutines.
\<close>

fun goroutineStep :: "event \<Rightarrow> bool" where
  "goroutineStep (TimerFires i) = True"
| "goroutineStep (Advance k limOk resp) = limOk"
| "goroutineStep _ = False"

lemma goesOn_goroutineStep: "goesOn e \<Longrightarrow> goroutineStep e"
  by (cases e) simp_all

lemma underway_requests:
  assumes "minv m" "underway r m"
  shows "\<exists>es m'. mrun env es m = Some m' \<and> list_all goesOn es \<and> list_ex (requests r) (m_threads m')"
proof -
  have i: "minv m \<and> (list_ex (requests r) (m_threads m) \<or> underway r m)" using assms by blast
  from rq.reaches_goal [OF i, of env] obtain es m' where
    r: "run (\<lambda>e m. if goesOn e then mexec env e m else None) es m = Some m'" "list_ex (requests r) (m_threads m')" by blast
  with run_restricted [OF r(1)] show ?thesis by blast
qed

lemma due_task_requests:
  assumes inv: "minv m" and cov: "covered m" and lv: "live (m_qs m) r" and fn: "fn_ok (m_qs m) (FireFn r)"
    and run: "running (m_qs m)" and no: "\<forall>th \<in> set (m_threads m). \<not> endsTask r th"
  shows "\<exists>t es m'. m_now m \<le> t \<and> (t = m_now m \<or> (\<exists>i. gget (qs_timers (m_qs m)) i = Some (t, FireFn r))) \<and>
    mrun env (Tick t # es) m = Some m' \<and> list_all goroutineStep es \<and> list_ex (requests r) (m_threads m')"
proof -
  have later: "\<exists>es m'. mrun env es m1 = Some m' \<and> list_all goroutineStep es \<and> list_ex (requests r) (m_threads m')"
    if "minv m1" "underway r m1" for m1
  proof -
    from underway_requests [OF that, of env] obtain es m' where
      "mrun env es m1 = Some m'" "list_all goesOn es" "list_ex (requests r) (m_threads m')" by blast
    then show ?thesis using goesOn_goroutineStep by (auto simp: list_all_iff)
  qed
  from cov lv fn consider "\<exists>th \<in> set (m_threads m). working th = Some r" | "armed (m_qs m) r"
    by (auto simp: covered_def)
  then show ?thesis
  proof cases
    case 1
    then have "underway r m" using lv run no by (simp add: underway_def)
    with later [OF inv] obtain es m' where
      "mrun env es m = Some m'" "list_all goroutineStep es" "list_ex (requests r) (m_threads m')" by blast
    then show ?thesis by (intro exI [of _ "m_now m"] exI [of _ es] exI [of _ m']) simp
  next
    case 2
    then obtain i due where i: "gget (qs_timers (m_qs m)) i = Some (due, FireFn r)" by (auto simp: armed_def)
    let ?t = "max (m_now m) due"
    let ?m1 = "m\<lparr>m_now := ?t, m_qs := stopTimer (Some i) (m_qs m), m_threads := m_threads m @ [TFire r]\<rparr>"
    have m1: "mrun env [Tick ?t, TimerFires i] m = Some ?m1" using i by simp
    have "underway r ?m1" using lv run no by (simp add: underway_def live_def running_def)
    with later [OF qm.run_inv [OF inv m1]] obtain es m' where
      "mrun env es ?m1 = Some m'" "list_all goroutineStep es" "list_ex (requests r) (m_threads m')" by blast
    with i m1 show ?thesis
      by (intro exI [of _ ?t] exI [of _ "TimerFires i # es"] exI [of _ m']) (auto simp: max_def)
  qed
qed

section \<open>Properties\<close>

text \<open>
  C5. The goroutines of a queue neither block each other for ever nor go on for ever: in every state a queue can
  get into, whatever the limiter and the targets answer, each step of a goroutine uses up one unit of a finite amount of
  work, as long as there is a goroutine one of them can go on, and so all of them can end.
\<close>

theorem goroutines_never_deadlock:
  assumes "mrun env es (minit q now) = Some m"
  shows "(\<forall>es' m'. list_all advances es' \<and> mrun env es' m = Some m' \<longrightarrow> length es' + workLeft m' \<le> workLeft m) \<and>
    (m_threads m \<noteq> [] \<longrightarrow> (\<exists>k. \<forall>limOk resp. mexec env (Advance k limOk resp) m \<noteq> None)) \<and>
    (\<exists>es' m'. list_all advances es' \<and> mrun env es' m = Some m' \<and> m_threads m' = [])"
proof (intro conjI allI impI)
  have inv: "minv m" by (rule run_minv [OF assms])
  show "length es' + workLeft m' \<le> workLeft m" if "list_all advances es' \<and> mrun env es' m = Some m'" for es' m'
    using that by (intro advances_bounded) auto
  show "\<exists>k. \<forall>limOk resp. mexec env (Advance k limOk resp) m \<noteq> None" if "m_threads m \<noteq> []"
    using some_goroutine_goes_on [OF inv that, of env] by (auto split: option.split)
  from gr.reaches_goal [OF inv, of env] obtain es' m' where
    r: "run (\<lambda>e m. if advances e then mexec env e m else None) es' m = Some m'" "m_threads m' = []" by blast
  with run_restricted [OF r(1)]
  show "\<exists>es' m'. list_all advances es' \<and> mrun env es' m = Some m' \<and> m_threads m' = []" by blast
qed

theorem goroutines_never_deadlock_witness:
  "\<exists>es' m'. mrun demoEnv es' (the (mrun demoEnv (take 9 crossingRun) demoStart)) = Some m' \<and> m_threads m' = [] \<and>
     length (m_threads (the (mrun demoEnv (take 9 crossingRun) demoStart))) = 2"
proof -
  let ?m = "the (mrun demoEnv (take 9 crossingRun) demoStart)"
  obtain q now where q: "demoStart = minit q now" using demoStart_init by blast
  have "mrun demoEnv (take 9 crossingRun) demoStart \<noteq> None" "length (m_threads ?m) = 2" by code_simp+
  then show ?thesis using goroutines_never_deadlock [of demoEnv "take 9 crossingRun" q now ?m] q by auto
qed

end
