(* ===== verification/System_Progress.thy ===== *)
theory System_Progress
  imports System_Props Machine_Progress
begin

text \<open>
  What the running engine is sure to do: a task that is in a running queue can always get its request sent, without
  any further call, however many other queues and clients there are.
\<close>

section \<open>From one queue to the engine\<close>

text \<open>
  Every machine of the heap after a step is a new one, one that was there, or one that made a step of its own; the
  step waits for the limiter in vain only if the step of the engine says so.
\<close>

fun sysServed :: "'p sysEvent \<Rightarrow> bool" where
  "sysServed (SysQueue a e) = served e"
| "sysServed _ = True"

definition grown :: "menv \<Rightarrow> (event \<Rightarrow> bool) \<Rightarrow> machine list \<Rightarrow> machine list \<Rightarrow> bool" where
  "grown env K h h' \<longleftrightarrow> (\<forall>a < length h'. (\<exists>q t. h' ! a = minit q t) \<or>
     (a < length h \<and> (h' ! a = h ! a \<or> (\<exists>e. K e \<and> mexec env e (h ! a) = Some (h' ! a)))))"

lemma grown_refl: "grown env K h h"
  by (simp add: grown_def)

lemma grown_update: "K e \<Longrightarrow> mexec env e (h ! a) = Some m' \<Longrightarrow> grown env K h (h[a := m'])"
  unfolding grown_def by (metis length_list_update nth_list_update_eq nth_list_update_neq)

lemma grown_apiOn: "grown env served (sy_heap s) (sy_heap (apiOn env op a s))"
  unfolding apiOn_def by (simp add: split_beta) (rule grown_update [of _ "Api op"], simp_all add: split_beta)

lemma grown_newQueue: "grown env K (sy_heap s) (sy_heap (newQueue q s))"
  by (auto simp: grown_def newQueue_def nth_append less_Suc_eq)

lemma grown_later: "grown env K (sy_heap s) (sy_heap (later p s))"
  by (simp add: later_def grown_refl)

lemma grown_arrive:
  "grown env served (sy_heap s) (sy_heap (arrive env req s))"
  by (cases req) (auto simp: grown_refl grown_newQueue grown_later grown_apiOn split: option.split)

lemma grown_resume:
  "grown env served (sy_heap s) (sy_heap (fst (resume env p s)))"
  by (cases p) (auto simp: Let_def grown_refl grown_apiOn split: sum.split)

lemma grown_step:
  assumes inv: "sysinv env s" and step: "sysStep env ev s = Some s'" and "sysServed ev"
  shows "grown env served (sy_heap s) (sy_heap s')"
proof (cases ev)
  case (SysTick t)
  have "mexec env (Tick t) (sy_heap s ! a) = Some ((sy_heap s ! a)\<lparr>m_now := t\<rparr>)" if "a < length (sy_heap s)" "sy_now s \<le> t" for a
    using sysinv_machine(3) [OF inv that(1)] that(2) by simp
  with SysTick step show ?thesis
    by (auto simp: grown_def split: if_splits simp del: mexec.simps intro!: exI [of _ "Tick t"])
next
  case (SysQueue a e)
  with assms(2,3) show ?thesis by (auto split: if_splits intro: grown_update)
next
  case (SysArrive req)
  with step have "s' = arrive env req s" by (simp del: arrive.simps)
  then show ?thesis by (simp only: grown_arrive)
next
  case (SysResume k)
  with step show ?thesis using grown_resume by (auto simp: split_beta split: if_splits)
qed

text \<open>What every step of a queue keeps, the engine keeps for all its queues.\<close>

lemma grown_all:
  assumes "grown env K h h'" "\<And>q t. J (minit q t)" "\<And>m e m'. J m \<Longrightarrow> m \<in> set h \<Longrightarrow> K e \<Longrightarrow> mexec env e m = Some m' \<Longrightarrow> J m'"
    and "\<forall>m \<in> set h. J m"
  shows "\<forall>m \<in> set h'. J m"
proof
  fix m assume "m \<in> set h'"
  then obtain a where a: "a < length h'" "m = h' ! a" by (auto simp: in_set_conv_nth)
  with assms(1) consider q t where "m = minit q t" | "a < length h" "m = h ! a" | e where "a < length h" "K e" "mexec env e (h ! a) = Some m"
    by (auto simp: grown_def)
  then show "J m"
  proof cases
    case 3
    then have "h ! a \<in> set h" by simp
    then show ?thesis using assms(3,4) 3 by blast
  qed (use assms(2,4) in auto)
qed

interpretation sc: invariant_system "\<lambda>ev s. if sysServed ev then sysStep env ev s else None"
    "\<lambda>s. sysinv env s \<and> (\<forall>m \<in> set (sy_heap s). covered m)" for env
proof
  fix s ev s' assume s: "sysinv env s \<and> (\<forall>m \<in> set (sy_heap s). covered m)"
    and step: "(if sysServed ev then sysStep env ev s else None) = Some s'"
  then have st: "sysServed ev" "sysStep env ev s = Some s'" by (auto split: if_splits)
  have inv: "minv m" if "m \<in> set (sy_heap s)" for m
    using s that reachable_minv by (auto simp: sysinv_def)
  have "\<forall>m \<in> set (sy_heap s'). covered m"
  proof (rule grown_all [OF grown_step])
    show "sysinv env s" "sysStep env ev s = Some s'" "sysServed ev" "\<forall>m \<in> set (sy_heap s). covered m" using s st by auto
    show "covered (minit q t)" for q t by (rule covered_init)
    show "covered m'" if "covered m" "m \<in> set (sy_heap s)" "served e" "mexec env e m = Some m'" for m e m'
      using covered_step [OF inv] that by blast
  qed
  with s st show "sysinv env s' \<and> (\<forall>m \<in> set (sy_heap s'). covered m)" using sy.step_inv by blast
qed

section \<open>Properties\<close>

lemma goroutineStep_background: "goroutineStep e \<Longrightarrow> background e"
  by (cases e) simp_all

lemma run_SysTick_SysQueue:
  assumes "sysinv env s" "a < length (sy_heap s)" "sy_now s \<le> t" "list_all goroutineStep es"
    and "mrun env (Tick t # es) (sy_heap s ! a) = Some m'"
  shows "\<exists>s'. run (sysStep env) (SysTick t # map (SysQueue a) es) s = Some s' \<and> sy_heap s' ! a = m'"
proof -
  let ?s1 = "s\<lparr>sy_now := t, sy_heap := map (\<lambda>m. m\<lparr>m_now := t\<rparr>) (sy_heap s)\<rparr>"
  have "mrun env es (sy_heap ?s1 ! a) = Some m'"
    using assms(2,3,5) sysinv_machine(3) [OF assms(1,2)] by simp
  moreover have "list_all background es" using assms(4) goroutineStep_background by (auto simp: list_all_iff)
  ultimately have "run (sysStep env) (map (SysQueue a) es) ?s1 = Some (?s1\<lparr>sy_heap := (sy_heap ?s1)[a := m']\<rparr>)"
    using assms(2) by (intro run_SysQueue) simp_all
  with assms(2,3) show ?thesis by simp
qed

text \<open>
  C3. Every task can get its request: as long as waiting for the limiter has not failed, in any state of the running
  engine, each push task of a running queue that no goroutine is about to take out of it gets its request sent, with no
  further call, once its dispatch timer is due, by steps of its queue's own goroutines.
\<close>

theorem every_task_gets_its_request:
  assumes "run (sysStep env) es (sys0 now :: 'p system) = Some s" and "\<forall>ev \<in> set es. sysServed ev"
    and "gget (sy_queues s) qn = Some a" and "gget (qs_tasks (m_qs (sy_heap s ! a))) n = Some r"
    and "running (m_qs (sy_heap s ! a))" and "\<not> q_Pull (qs_q (m_qs (sy_heap s ! a)))"
    and "tg_Type (t_Target (task_of (m_qs (sy_heap s ! a)) r)) \<noteq> TargetPull"
    and "\<forall>th \<in> set (m_threads (sy_heap s ! a)). \<not> endsTask r th"
  shows "\<exists>t evs s'. (t = sy_now s \<or> (\<exists>i. gget (qs_timers (m_qs (sy_heap s ! a))) i = Some (t, FireFn r))) \<and>
    list_all goroutineStep evs \<and> run (sysStep env) (SysTick t # map (SysQueue a) evs) s = Some s' \<and>
    (\<exists>snap dt h. TDispatch r snap dt h \<in> set (m_threads (sy_heap s' ! a)) \<and> t_Name (snap_task snap) = n)"
proof -
  let ?m = "sy_heap s ! a"
  have i0: "sysinv env (sys0 now :: 'p system) \<and> (\<forall>m \<in> set (sy_heap (sys0 now :: 'p system)). covered m)"
    by (simp add: sysinv_sys0) (simp add: sys0_def)
  have "run (\<lambda>ev s. if sysServed ev then sysStep env ev s else None) es (sys0 now) = Some s"
    using run_restrict [OF assms(2), of "sysStep env" "sys0 now"] assms(1) by simp
  from sc.run_inv [OF i0 this] have inv: "sysinv env s" and cov: "\<forall>m \<in> set (sy_heap s). covered m" by auto
  note a = sysinv_queue(1) [OF inv assms(3)]
  have m: "minv ?m" "covered ?m" "m_now ?m = sy_now s" using sysinv_machine [OF inv a] cov a by auto
  then have lv: "live (m_qs ?m) r" "name_of (m_qs ?m) r = n" using qinv_lookup [OF _ assms(4)] by (auto simp: minv_def)
  then have "fn_ok (m_qs ?m) (FireFn r)" using assms(6,7) by (simp add: fn_ok_def live_def)
  from due_task_requests [OF m(1,2) lv(1) this assms(5,8), of env] obtain t evs m' where
    t: "m_now ?m \<le> t" "t = m_now ?m \<or> (\<exists>i. gget (qs_timers (m_qs ?m)) i = Some (t, FireFn r))"
    and run: "mrun env (Tick t # evs) ?m = Some m'" "list_all goroutineStep evs" "list_ex (requests r) (m_threads m')" by blast
  from run_SysTick_SysQueue [OF inv a _ run(2,1)] t(1) m(3) obtain s' where
    s': "run (sysStep env) (SysTick t # map (SysQueue a) evs) s = Some s'" "sy_heap s' ! a = m'" by auto
  from run(3) obtain th where th: "th \<in> set (m_threads m')" "requests r th" by (auto simp: list_ex_iff)
  from th(2) obtain snap dt h where "th = TDispatch r snap dt h" by (cases th) auto
  with th(1) have d: "TDispatch r snap dt h \<in> set (m_threads m')" by simp
  have "thread_ok (m_qs m') (TDispatch r snap dt h)" using qm.run_inv [OF m(1) run(1)] d unfolding minv_def by blast
  moreover have "evolves (m_qs ?m) (m_qs m')" using qm.run_rel [OF m(1) run(1)] by (simp add: mlater_def)
  ultimately have "t_Name (snap_task snap) = n" using lv by (simp add: evolves_def live_def)
  with d s' t(2) m(3) run(2) show ?thesis by blast
qed

theorem every_task_gets_its_request_witness:
  "\<exists>s t evs s'. run (sysStep demoEnv) (crossingDelete ! 0 # crossingDelete ! 1 # [SysResume 0, SysResume 0]) (sys0 5) = Some s \<and>
     run (sysStep demoEnv) (SysTick t # map (SysQueue 0) evs) s = Some s' \<and>
     (\<exists>snap dt h. TDispatch 0 snap dt h \<in> set (m_threads (sy_heap s' ! 0)) \<and> t_Name (snap_task snap) = demoName @ ''/tasks/a'')"
proof -
  let ?es = "crossingDelete ! 0 # crossingDelete ! 1 # [SysResume 0, SysResume 0]"
  let ?f = "\<lambda>s. (gget (sy_queues s) demoName, gget (qs_tasks (m_qs (sy_heap s ! 0))) (demoName @ ''/tasks/a''),
      q_State (qs_q (m_qs (sy_heap s ! 0))), q_Pull (qs_q (m_qs (sy_heap s ! 0))), m_threads (sy_heap s ! 0),
      tg_Type (t_Target (task_of (m_qs (sy_heap s ! 0)) 0)) = TargetPull)"
  have "map_option ?f (run (sysStep demoEnv) ?es (sys0 5)) = Some (Some 0, Some 0, StateRunning, False, [], False)" by code_simp
  then obtain s where s: "run (sysStep demoEnv) ?es (sys0 5) = Some s" "?f s = (Some 0, Some 0, StateRunning, False, [], False)"
    unfolding map_option_eq_Some by blast
  have "list_all sysServed ?es" by code_simp
  then have sv: "\<forall>ev \<in> set ?es. sysServed ev" unfolding list_all_iff .
  have f: "gget (sy_queues s) demoName = Some 0" "gget (qs_tasks (m_qs (sy_heap s ! 0))) (demoName @ ''/tasks/a'') = Some 0"
    "running (m_qs (sy_heap s ! 0))" "\<not> q_Pull (qs_q (m_qs (sy_heap s ! 0)))"
    "tg_Type (t_Target (task_of (m_qs (sy_heap s ! 0)) 0)) \<noteq> TargetPull" "\<forall>th \<in> set (m_threads (sy_heap s ! 0)). \<not> endsTask 0 th"
    using s(2) unfolding prod.inject by (simp_all only: running_def list.set ball_simps simp_thms State.distinct)
  from every_task_gets_its_request [OF s(1) sv f] s(1) show ?thesis by blast
qed

end
