(* ===== verification/Machine_Names.thy ===== *)
theory Machine_Names
  imports Machine_Props
begin

text \<open>
  The names of tasks over time: a name that was used once is refused until its reservation has run out, counted from its
  last use, and the names generated for unnamed tasks are all different.
\<close>

section \<open>What leaves the queue is reserved\<close>

text \<open>A name that an operation takes out of the table is reserved from that moment.\<close>

definition reserves :: "EngineConf \<Rightarrow> time \<Rightarrow> queueState \<Rightarrow> queueState \<Rightarrow> bool" where
  "reserves eng now qs qs' \<longleftrightarrow> q_TombstoneTTL (qs_q qs') = q_TombstoneTTL (qs_q qs) \<and>
     (\<forall>n. gget (qs_tasks qs) n \<noteq> None \<longrightarrow> gget (qs_tasks qs') n = None \<longrightarrow>
        gget (qs_tombstones qs') n = Some (now + effectiveTombstoneTTL eng qs))"

lemma tombstoneTTL_same:
  "q_TombstoneTTL (qs_q s) = q_TombstoneTTL (qs_q qs) \<Longrightarrow> effectiveTombstoneTTL eng s = effectiveTombstoneTTL eng qs"
  by (simp add: effectiveTombstoneTTL_def)

lemma reserves_same:
  "qs_tasks qs' = qs_tasks qs \<Longrightarrow> q_TombstoneTTL (qs_q qs') = q_TombstoneTTL (qs_q qs) \<Longrightarrow> reserves eng now qs qs'"
  by (auto simp: reserves_def)

lemma reserves_removeLocked:
  "0 \<le> effectiveTombstoneTTL eng qs \<Longrightarrow> reserves eng now qs (removeLocked eng now r qs)"
  by (auto simp: reserves_def removeLocked_tombstones gm.get_del split: if_splits)

lemma reserves_frame:
  "reserves eng now s qs' \<Longrightarrow> qs_tasks s = qs_tasks qs \<Longrightarrow> qs_q s = qs_q qs \<Longrightarrow> reserves eng now qs qs'"
  by (simp add: reserves_def effectiveTombstoneTTL_def)

lemma reserves_applyAttempt:
  assumes "0 \<le> effectiveTombstoneTTL eng qs"
  shows "reserves eng now qs (applyAttempt oob eng now r att dt rc hc msg qs)"
proof -
  let ?a = "recorded r att dt hc qs" and ?b = "reasoned r hc msg (recorded r att dt hc qs)"
  have same: "qs_tasks ?a = qs_tasks qs" "qs_q ?a = qs_q qs" "qs_tasks ?b = qs_tasks qs" "qs_q ?b = qs_q qs"
    by (simp_all add: recorded_def reasoned_def)
  then have "0 \<le> effectiveTombstoneTTL eng ?a" "0 \<le> effectiveTombstoneTTL eng ?b"
    using assms tombstoneTTL_same by metis+
  then have "reserves eng now ?a (removeLocked eng now r ?a)" "reserves eng now ?b (removeLocked eng now r ?b)"
    by (intro reserves_removeLocked; simp)+
  then have "reserves eng now qs (removeLocked eng now r ?a)" "reserves eng now qs (removeLocked eng now r ?b)"
    using same reserves_frame by blast+
  moreover have "reserves eng now qs (schedule now r (postponed oob now r ?b))"
    using same by (intro reserves_same) (simp_all add: postponed_def)
  ultimately show ?thesis
    by (simp add: applyAttempt_unfold Let_def reserves_same)
qed

lemma reserves_advance:
  assumes "0 \<le> effectiveTombstoneTTL (me_eng env) qs" "advance env limOk resp now th qs = Some (qs', new)"
  shows "reserves (me_eng env) now qs qs'"
proof (cases th)
  case (TApply r att dt rc hc msg h)
  then show ?thesis using assms reserves_applyAttempt by auto
next
  case (TExpire r)
  then show ?thesis using assms reserves_removeLocked by (auto simp: expire_def reserves_same)
qed (use assms(2) in \<open>auto simp: split_beta Let_def fire_unfold setUsed_def tombstoneExpire_def
      split: if_splits option.splits intro!: reserves_same\<close>)

lemma reserves_apiExec:
  assumes inv: "qinv qs" and ttl: "0 \<le> effectiveTombstoneTTL (me_eng env) qs" and "\<not> eng_hardResetOnPurge (me_eng env)"
    and "op \<noteq> ApiStop"
  shows "reserves (me_eng env) now qs (fst (apiExec env now op qs))"
proof (cases op)
  case (ApiDeleteTask n)
  then show ?thesis
    using reserves_removeLocked [OF ttl] by (auto simp: deleteTaskLocked_def reserves_same split: option.split)
next
  case ApiPurgeQueue
  have "q_TombstoneTTL (qs_q (purge (me_eng env) now qs)) = q_TombstoneTTL (qs_q qs)"
    using retiring_purge [OF qinv_qbase [OF inv], of "me_eng env" now] by (simp add: purge_def Let_def retiring_def)
  then show ?thesis using ApiPurgeQueue assms by (auto simp: reserves_def purge_facts [OF inv] set_keys_of)
next
  case (ApiCreateTask t)
  then show ?thesis by (auto simp: createTaskLocked_def reserves_def gm.get_set split: if_splits)
next
  case (ApiUpdateQueue q fs)
  have "q_TombstoneTTL (fold (setField q) fs c) = q_TombstoneTTL c" for fs c
  proof (induction fs arbitrary: c)
    case (Cons f fs)
    then show ?case by (cases f) simp_all
  qed simp
  then show ?thesis using ApiUpdateQueue
    by (intro reserves_same) (simp_all add: updateQueueLocked_def rebuildLimits_def Let_def)
qed (use assms(4) in \<open>auto simp: split_beta runTaskLocked_def setStateLocked_def Let_def split: option.split intro!: reserves_same\<close>)

lemma reserves_step:
  assumes inv: "minv m" and ttl: "0 \<le> effectiveTombstoneTTL (me_eng env) (m_qs m)" and "\<not> eng_hardResetOnPurge (me_eng env)"
    and "e \<noteq> Api ApiStop" and step: "mexec env e m = Some m'"
  shows "reserves (me_eng env) (m_now m) (m_qs m) (m_qs m')"
proof (cases e)
  case (Api op)
  then show ?thesis using reserves_apiExec [OF _ ttl assms(3)] assms by (auto simp: minv_def split_beta)
next
  case (Advance k limOk resp)
  then show ?thesis using reserves_advance [OF ttl] step by (auto split: if_splits option.splits)
qed (use step in \<open>auto split: if_splits option.splits intro!: reserves_same\<close>)

text \<open>The name was in use at some time since \<^verbatim>\<open>t0\<close>, and is in use or reserved until the reservation time after that.\<close>

definition held :: "menv \<Rightarrow> string \<Rightarrow> time \<Rightarrow> duration \<Rightarrow> machine \<Rightarrow> bool" where
  "held env n t0 ttl m \<longleftrightarrow> minv m \<and> effectiveTombstoneTTL (me_eng env) (m_qs m) = ttl \<and> t0 \<le> m_now m \<and>
     (gget (qs_tasks (m_qs m)) n \<noteq> None \<or> (\<exists>e. gget (qs_tombstones (m_qs m)) n = Some e \<and> t0 + ttl \<le> e) \<or>
      t0 + ttl \<le> m_now m)"

lemma held_step:
  assumes h: "held env n t0 ttl m" and ttl: "0 \<le> ttl" and soft: "\<not> eng_hardResetOnPurge (me_eng env)"
    and e: "e \<noteq> Api ApiStop" and step: "mexec env e m = Some m'"
  shows "held env n t0 ttl m'"
proof -
  have inv: "minv m" and t: "effectiveTombstoneTTL (me_eng env) (m_qs m) = ttl" "t0 \<le> m_now m"
    using h by (simp_all add: held_def)
  have later: "minv m'" "m_now m \<le> m_now m'" "reserved_kept (m_now m') (m_qs m) (m_qs m')"
    using mexec_step [OF inv step] soft by (simp_all add: mlater_def)
  have res: "reserves (me_eng env) (m_now m) (m_qs m) (m_qs m')"
    using reserves_step [OF inv _ soft e step] ttl t(1) by simp
  then have t': "effectiveTombstoneTTL (me_eng env) (m_qs m') = ttl"
    using t(1) tombstoneTTL_same by (metis reserves_def)
  consider "gget (qs_tasks (m_qs m)) n \<noteq> None"
    | x where "gget (qs_tombstones (m_qs m)) n = Some x" "t0 + ttl \<le> x" | "t0 + ttl \<le> m_now m"
    using h by (auto simp: held_def)
  then show ?thesis
  proof cases
    case 1
    then have "gget (qs_tasks (m_qs m')) n \<noteq> None \<or> gget (qs_tombstones (m_qs m')) n = Some (m_now m + ttl)"
      using res t(1) by (auto simp: reserves_def)
    then show ?thesis using later t t' by (auto simp: held_def)
  next
    case 2
    then have "gget (qs_tombstones (m_qs m')) n = Some x \<or> t0 + ttl \<le> m_now m'"
      using later(3) by (auto simp: reserved_kept_def not_less)
    then show ?thesis using later t t' 2(2) by (auto simp: held_def)
  next
    case 3
    then show ?thesis using later t t' by (auto simp: held_def)
  qed
qed

interpretation nm: invariant_system "\<lambda>e m. if e \<noteq> Api ApiStop \<and> 0 \<le> ttl \<and> \<not> eng_hardResetOnPurge (me_eng env) then mexec env e m else None"
    "held env n t0 ttl" for env n t0 ttl
  by unfold_locales (auto split: if_splits intro: held_step)

section \<open>Generated identifiers\<close>


lemma idSeq_schedule [simp]: "qs_idSeq (schedule now r qs) = qs_idSeq qs"
  by (simp add: schedule_unfold)

lemma idSeq_removeLocked [simp]: "qs_idSeq (removeLocked eng now r qs) = qs_idSeq qs"
  by (simp add: removeLocked_def Let_def)

lemma idSeq_applyAttempt [simp]: "qs_idSeq (applyAttempt oob eng now r att dt rc hc msg qs) = qs_idSeq qs"
  by (simp add: applyAttempt_unfold Let_def recorded_def reasoned_def postponed_def)






section \<open>Properties\<close>

text \<open>
  C4. Task names deduplicate: after a task has been created, no second creation under its name succeeds before the
  reservation time has passed, whatever became of the first task in between: still queued, done, given up, expired,
  deleted or purged. Deleting the queue and the hard-reset option are the two exceptions.
\<close>

theorem task_names_deduplicate:
  assumes "mrun env es (minit q now) = Some m" and "\<not> eng_hardResetOnPurge (me_eng env)"
    and "0 \<le> effectiveTombstoneTTL (me_eng env) (m_qs m)"
    and "is_ok (snd (createTaskLocked (me_eng env) (m_now m) t (m_qs m)))"
    and "mrun env (Api (ApiCreateTask t) # es') m = Some m'" and "Api ApiStop \<notin> set es'"
    and "is_ok (snd (createTaskLocked (me_eng env) (m_now m') t' (m_qs m')))" and "t_Name t' = t_Name t"
  shows "m_now m + effectiveTombstoneTTL (me_eng env) (m_qs m) \<le> m_now m'"
proof -
  let ?ttl = "effectiveTombstoneTTL (me_eng env) (m_qs m)"
  let ?ok = "\<lambda>e. e \<noteq> Api ApiStop \<and> 0 \<le> ?ttl \<and> \<not> eng_hardResetOnPurge (me_eng env)"
  obtain m1 where m1: "mexec env (Api (ApiCreateTask t)) m = Some m1" "mrun env es' m1 = Some m'"
    using assms(5) by (auto split: option.splits)
  have inv: "minv m" by (rule run_minv [OF assms(1)])
  have inv1: "minv m1" by (rule qm.step_inv [OF inv m1(1)])
  have "reserves (me_eng env) (m_now m) (m_qs m) (m_qs m1)"
    by (rule reserves_step [OF inv assms(3,2) _ m1(1)]) simp
  then have "effectiveTombstoneTTL (me_eng env) (m_qs m1) = ?ttl"
    using tombstoneTTL_same by (metis reserves_def)
  moreover have "m_qs m1 = addNewTask (me_eng env) (m_now m) t (m_qs m)" "m_now m1 = m_now m"
    using m1(1) assms(4) by (auto simp: createTaskLocked_def split: if_splits)
  ultimately have h1: "held env (t_Name t) (m_now m) ?ttl m1" using inv1 by (simp add: held_def)
  have "\<forall>e \<in> set es'. ?ok e" using assms(2,3,6) by auto
  then have "run (\<lambda>e m. if ?ok e then mexec env e m else None) es' m1 = Some m'"
    using run_restrict [of es' ?ok "mexec env" m1] m1(2) by simp
  from nm.run_inv [OF h1 this] have "held env (t_Name t) (m_now m) ?ttl m'" .
  then show ?thesis
    using assms(7,8) by (auto simp: held_def createTaskLocked_def tombstoned_iff split: if_splits)
qed

theorem task_names_deduplicate_witness:
  "let m = demoStart; m' = the (mrun demoEnv [Api (ApiCreateTask (demoTask ''a'')), Api (ApiDeleteTask ''a''), Tick (24 * hour)] m)
   in is_ok (snd (createTaskLocked demoConf (m_now m') (demoTask ''a'') (m_qs m'))) \<and>
      m_now m + effectiveTombstoneTTL demoConf (m_qs m) \<le> m_now m'"
proof -
  let ?es = "[Api (ApiDeleteTask ''a''), Tick (24 * hour)]"
  let ?m' = "the (mrun demoEnv (Api (ApiCreateTask (demoTask ''a'')) # ?es) demoStart)"
  obtain q now where q: "demoStart = minit q now" using demoStart_init by blast
  have "mrun demoEnv (Api (ApiCreateTask (demoTask ''a'')) # ?es) demoStart \<noteq> None" by code_simp
  then have run: "mrun demoEnv [] (minit q now) = Some demoStart" "mrun demoEnv (Api (ApiCreateTask (demoTask ''a'')) # ?es) demoStart = Some ?m'"
    using q by simp_all
  have fs: "\<not> eng_hardResetOnPurge (me_eng demoEnv)" "0 \<le> effectiveTombstoneTTL (me_eng demoEnv) (m_qs demoStart)"
    "is_ok (snd (createTaskLocked (me_eng demoEnv) (m_now demoStart) (demoTask ''a'') (m_qs demoStart)))"
    "is_ok (snd (createTaskLocked (me_eng demoEnv) (m_now ?m') (demoTask ''a'') (m_qs ?m')))"
    by code_simp+
  have "me_eng demoEnv = demoConf" by (simp add: demoEnv_def)
  then show ?thesis using task_names_deduplicate [OF run(1) fs(1-3) run(2) _ fs(4)] fs(4) by (simp add: Let_def)
qed



end
