(* ===== verification/Go_Strings.thy ===== *)
theory Go_Strings
  imports Go_Text
begin

text \<open>
  What the REST server, the token signer and the command line use of Go's \<^verbatim>\<open>strings\<close>, \<^verbatim>\<open>bytes\<close>,
  \<^verbatim>\<open>net/url\<close> and \<^verbatim>\<open>unicode/utf8\<close>: splitting and joining, prefixes and suffixes, the last position of a
  byte, trimming of white space, unescaping of a path segment and decoding of one rune, with
  the laws between splitting and joining.
\<close>

section \<open>Prefixes, suffixes and search\<close>

definition HasPrefix :: "string \<Rightarrow> string \<Rightarrow> bool" where
  "HasPrefix s pre \<longleftrightarrow> take (length pre) s = pre"

definition HasSuffix :: "string \<Rightarrow> string \<Rightarrow> bool" where
  "HasSuffix s suf \<longleftrightarrow> HasPrefix (rev s) (rev suf)"

definition TrimPrefix :: "string \<Rightarrow> string \<Rightarrow> string" where
  "TrimPrefix s pre = (if HasPrefix s pre then drop (length pre) s else s)"

fun Contains :: "string \<Rightarrow> string \<Rightarrow> bool" where
  "Contains s sub \<longleftrightarrow> HasPrefix s sub \<or> (case s of [] \<Rightarrow> False | _ # cs \<Rightarrow> Contains cs sub)"

declare Contains.simps [simp del]

definition ContainsAny :: "string \<Rightarrow> string \<Rightarrow> bool" where
  "ContainsAny s chars \<longleftrightarrow> list_ex (\<lambda>c. c \<in> set chars) s"

text \<open>
  \<^verbatim>\<open>strings.LastIndex\<close> for one byte, as the parts around it: \<^verbatim>\<open>(s[:i], s[i+1:])\<close>, or \<^const>\<open>None\<close> for
  an index of -1.
\<close>

fun cutLast :: "char \<Rightarrow> string \<Rightarrow> (string \<times> string) option" where
  "cutLast c [] = None"
| "cutLast c (x # xs) =
     (case cutLast c xs of
        Some (a, b) \<Rightarrow> Some (x # a, b)
      | None \<Rightarrow> if x = c then Some ([], xs) else None)"

text \<open>\<^verbatim>\<open>strings.Cut\<close> at a byte: the parts around its first position.\<close>

fun Cut :: "char \<Rightarrow> string \<Rightarrow> (string \<times> string) option" where
  "Cut c [] = None"
| "Cut c (x # xs) = (if x = c then Some ([], xs) else map_option (\<lambda>(a, b). (x # a, b)) (Cut c xs))"

lemma cutLast_None [simp]: "cutLast c s = None \<longleftrightarrow> c \<notin> set s"
  by (induction s) (auto split: option.splits)

lemma cutLast_append: "c \<notin> set b \<Longrightarrow> cutLast c (a @ c # b) = Some (a, b)"
  by (induction a) (simp_all add: cutLast_None [THEN iffD2])

lemma cutLast_Some: "cutLast c s = Some (a, b) \<Longrightarrow> s = a @ c # b \<and> c \<notin> set b"
proof (induction s arbitrary: a)
  case (Cons x xs)
  then show ?case by (auto split: option.splits if_splits simp flip: cutLast_None)
qed simp

lemma Cut_append: "c \<notin> set a \<Longrightarrow> Cut c (a @ c # b) = Some (a, b)"
  by (induction a) auto

lemma Cut_None [simp]: "Cut c s = None \<longleftrightarrow> c \<notin> set s"
  by (induction s) auto

lemma Cut_Some: "Cut c s = Some (a, b) \<Longrightarrow> s = a @ c # b \<and> c \<notin> set a"
  by (induction s arbitrary: a) (auto split: if_splits)

section \<open>Split and Join\<close>

fun Split :: "char \<Rightarrow> string \<Rightarrow> string list" where
  "Split c [] = [[]]"
| "Split c (x # xs) =
     (if x = c then [] # Split c xs
      else case Split c xs of [] \<Rightarrow> [[x]] | y # ys \<Rightarrow> (x # y) # ys)"

fun Join :: "string \<Rightarrow> string list \<Rightarrow> string" where
  "Join sep [] = []"
| "Join sep [x] = x"
| "Join sep (x # y # ys) = x @ sep @ Join sep (y # ys)"

lemma Split_nonempty [simp]: "Split c s \<noteq> []"
  by (cases s) (auto split: list.split)

lemma Split_single: "c \<notin> set s \<Longrightarrow> Split c s = [s]"
  by (induction s) auto

lemma Split_append: "c \<notin> set a \<Longrightarrow> Split c (a @ c # b) = a # Split c b"
  by (induction a) auto

lemma Split_Join: "xs \<noteq> [] \<Longrightarrow> \<forall>x \<in> set xs. c \<notin> set x \<Longrightarrow> Split c (Join [c] xs) = xs"
  by (induction "[c]" xs rule: Join.induct) (auto simp: Split_single Split_append)

lemma Join_Cons: "xs \<noteq> [] \<Longrightarrow> Join sep (x # xs) = x @ sep @ Join sep xs"
  by (cases xs) simp_all

lemma Join_Split: "Join [c] (Split c s) = s"
proof (induction s)
  case (Cons x xs)
  obtain y ys where s: "Split c xs = y # ys" by (cases "Split c xs") auto
  have "Join [c] ((x # y) # ys) = x # Join [c] (y # ys)" by (cases ys) simp_all
  moreover have "Join [c] ([] # y # ys) = c # Join [c] (y # ys)" by simp
  ultimately show ?case using Cons.IH s by (cases "x = c") (simp_all del: Join.simps)
qed simp

lemma Split_parts: "p \<in> set (Split c s) \<Longrightarrow> c \<notin> set p"
  by (induction s arbitrary: p) (auto split: if_splits list.splits)

lemma Join_append: "xs \<noteq> [] \<Longrightarrow> ys \<noteq> [] \<Longrightarrow> Join sep (xs @ ys) = Join sep xs @ sep @ Join sep ys"
proof (induction xs)
  case (Cons a xs)
  then show ?case by (cases "xs = []") (simp_all add: Join_Cons)
qed simp

lemma set_Join: "x \<in> set (Join sep xs) \<Longrightarrow> x \<in> set sep \<or> (\<exists>s \<in> set xs. x \<in> set s)"
  by (induction sep xs rule: Join.induct) auto

section \<open>White space\<close>

text \<open>The encodings of the runes for which \<^verbatim>\<open>unicode.IsSpace\<close> holds.\<close>

definition bytes :: "nat list \<Rightarrow> string" where
  "bytes = map char_of"

definition spaceRunes :: "string list" where
  "spaceRunes =
     [[CHR 0x09], [CHR 0x0A], [CHR 0x0B], [CHR 0x0C],
      [CHR 0x0D], [CHR 0x20], [CHR 0xC2, CHR 0x85], [CHR 0xC2, CHR 0xA0],
      [CHR 0xE1, CHR 0x9A, CHR 0x80], [CHR 0xE2, CHR 0x80, CHR 0x80], [CHR 0xE2, CHR 0x80, CHR 0x81], [CHR 0xE2, CHR 0x80, CHR 0x82],
      [CHR 0xE2, CHR 0x80, CHR 0x83], [CHR 0xE2, CHR 0x80, CHR 0x84], [CHR 0xE2, CHR 0x80, CHR 0x85], [CHR 0xE2, CHR 0x80, CHR 0x86],
      [CHR 0xE2, CHR 0x80, CHR 0x87], [CHR 0xE2, CHR 0x80, CHR 0x88], [CHR 0xE2, CHR 0x80, CHR 0x89], [CHR 0xE2, CHR 0x80, CHR 0x8A],
      [CHR 0xE2, CHR 0x80, CHR 0xA8], [CHR 0xE2, CHR 0x80, CHR 0xA9], [CHR 0xE2, CHR 0x80, CHR 0xAF], [CHR 0xE2, CHR 0x81, CHR 0x9F],
      [CHR 0xE3, CHR 0x80, CHR 0x80]]"

function trimLeft :: "string list \<Rightarrow> string \<Rightarrow> string" where
  "trimLeft rs s =
     (case find (\<lambda>r. r \<noteq> [] \<and> HasPrefix s r) rs of
        None \<Rightarrow> s
      | Some r \<Rightarrow> trimLeft rs (drop (length r) s))"
  by pat_completeness auto
termination
proof (relation "measure (length \<circ> snd)")
  fix rs s r
  assume "find (\<lambda>r. r \<noteq> [] \<and> HasPrefix s r) rs = Some r"
  then have "r \<noteq> []" "take (length r) s = r" by (auto simp: find_Some_iff HasPrefix_def)
  then have "0 < length r" "s \<noteq> []" by auto
  then show "((rs, drop (length r) s), (rs, s)) \<in> measure (length \<circ> snd)" by simp
qed simp

declare trimLeft.simps [simp del]

definition TrimSpace :: "string \<Rightarrow> string" where
  "TrimSpace s = rev (trimLeft (map rev spaceRunes) (rev (trimLeft spaceRunes s)))"

section \<open>Unescaping a path segment\<close>

definition hex_val :: "char \<Rightarrow> nat option" where
  "hex_val c =
     (let n = of_char c in
      if 48 \<le> n \<and> n \<le> 57 then Some (n - 48)
      else if 97 \<le> n \<and> n \<le> 102 then Some (n - 87)
      else if 65 \<le> n \<and> n \<le> 70 then Some (n - 55)
      else None)"

text \<open>\<^verbatim>\<open>url.PathUnescape\<close>: \<^const>\<open>None\<close> for a percent sign that two hexadecimal digits do not follow.\<close>

fun PathUnescape :: "string \<Rightarrow> string option" where
  "PathUnescape [] = Some []"
| "PathUnescape (c # cs) =
     (if c = CHR ''%''
      then (case cs of
              h # l # rest \<Rightarrow>
                (case (hex_val h, hex_val l) of
                   (Some a, Some b) \<Rightarrow> map_option (Cons (char_of (16 * a + b))) (PathUnescape rest)
                 | _ \<Rightarrow> None)
            | _ \<Rightarrow> None)
      else map_option (Cons c) (PathUnescape cs))"

definition hex_char :: "nat \<Rightarrow> char" where
  "hex_char d = (if d < 10 then char_of (48 + d) else char_of (55 + d))"

text \<open>
  A segment escaped byte by byte, whatever bytes are escaped: \<^verbatim>\<open>esc\<close> selects them. Every client
  escapes at least the percent sign.
\<close>

definition escapeByte :: "(char \<Rightarrow> bool) \<Rightarrow> char \<Rightarrow> string" where
  "escapeByte esc c =
     (if esc c then [CHR ''%'', hex_char (of_char c div 16), hex_char (of_char c mod 16)] else [c])"

definition escapeSegment :: "(char \<Rightarrow> bool) \<Rightarrow> string \<Rightarrow> string" where
  "escapeSegment esc s = concat (map (escapeByte esc) s)"

lemma hex_val_hex_char [simp]: "d < 16 \<Longrightarrow> hex_val (hex_char d) = Some d"
  by (auto simp: hex_val_def hex_char_def Let_def)

lemma of_char_hex_char: "d < 16 \<Longrightarrow> of_char (hex_char d) = (if d < 10 then 48 + d else 55 + d)"
  by (simp add: hex_char_def)

lemma PathUnescape_escapeSegment:
  assumes "esc (CHR ''%'')"
  shows "PathUnescape (escapeSegment esc s) = Some s"
proof (induction s)
  case (Cons c cs)
  have d: "of_char c div 16 < (16::nat)" "of_char c mod 16 < (16::nat)"
    by (simp_all add: less_mult_imp_div_less)
  have "16 * (of_char c div 16) + of_char c mod 16 = (of_char c :: nat)" by simp
  then have c: "char_of (16 * (of_char c div 16) + of_char c mod (16::nat)) = c" by (simp only: char_of_char)
  show ?case
    using assms d c Cons.IH by (auto simp: escapeSegment_def escapeByte_def)
qed (simp add: escapeSegment_def)

interpretation ps: text_codec "escapeSegment (\<lambda>c. c = CHR ''%'' \<or> esc c)" PathUnescape "\<lambda>_. True" for esc
  by unfold_locales (rule PathUnescape_escapeSegment, simp)

lemma escapeSegment_set:
  assumes "x \<in> set (escapeSegment esc s)"
  shows "x = CHR ''%'' \<or> (\<exists>d < 16. x = hex_char d) \<or> (x \<in> set s \<and> \<not> esc x)"
proof -
  obtain c where c: "c \<in> set s" "x \<in> set (escapeByte esc c)"
    using assms by (auto simp: escapeSegment_def)
  have "of_char c div 16 < (16::nat)" "of_char c mod 16 < (16::nat)"
    by (simp_all add: less_mult_imp_div_less)
  then have "hex_char (of_char c div 16) \<in> hex_char ` {..<16}" "hex_char (of_char c mod 16) \<in> hex_char ` {..<16}"
    by blast+
  with c have "x = CHR ''%'' \<or> x \<in> hex_char ` {..<16} \<or> (x \<in> set s \<and> \<not> esc x)"
    by (cases "esc c") (auto simp: escapeByte_def)
  then show ?thesis by blast
qed

section \<open>Runes\<close>

text \<open>
  \<^verbatim>\<open>utf8.DecodeRuneInString\<close>: the first rune and its width; \<^verbatim>\<open>(utf8.RuneError, 1)\<close> for bytes that are
  not the shortest encoding of a rune.
\<close>

definition RuneError :: nat where "RuneError = 65533"

definition cont :: "nat \<Rightarrow> bool" where "cont b \<longleftrightarrow> 128 \<le> b \<and> b \<le> 191"

fun DecodeRune :: "nat list \<Rightarrow> nat \<times> nat" where
  "DecodeRune [] = (RuneError, 0)"
| "DecodeRune (b0 # bs) =
     (if b0 < 128 then (b0, 1)
      else case bs of
        b1 # bs1 \<Rightarrow>
          if 194 \<le> b0 \<and> b0 \<le> 223 \<and> cont b1 then ((b0 - 192) * 64 + (b1 - 128), 2)
          else (case bs1 of
            b2 # bs2 \<Rightarrow>
              if 224 \<le> b0 \<and> b0 \<le> 239 \<and> cont b1 \<and> cont b2 \<and> (b0 = 224 \<longrightarrow> 160 \<le> b1) \<and> (b0 = 237 \<longrightarrow> b1 \<le> 159)
              then ((b0 - 224) * 4096 + (b1 - 128) * 64 + (b2 - 128), 3)
              else (case bs2 of
                b3 # _ \<Rightarrow>
                  if 240 \<le> b0 \<and> b0 \<le> 244 \<and> cont b1 \<and> cont b2 \<and> cont b3
                    \<and> (b0 = 240 \<longrightarrow> 144 \<le> b1) \<and> (b0 = 244 \<longrightarrow> b1 \<le> 143)
                  then ((b0 - 240) * 262144 + (b1 - 128) * 4096 + (b2 - 128) * 64 + (b3 - 128), 4)
                  else (RuneError, 1)
              | [] \<Rightarrow> (RuneError, 1))
          | [] \<Rightarrow> (RuneError, 1))
      | [] \<Rightarrow> (RuneError, 1))"

lemma DecodeRune_width: "bs \<noteq> [] \<Longrightarrow> 0 < snd (DecodeRune bs)"
  by (cases bs) (auto split: list.split)

end
