(* ===== verification/Rest_Proto.thy ===== *)
theory Rest_Proto
  imports Go_Strings
begin

text \<open>
  What the package \<^verbatim>\<open>rest\<close> observes of the compiled protobuf files: message, field, method and
  service descriptors with their \<^verbatim>\<open>google.api.http\<close> annotations, as data. Where a descriptor
  refers to another message, it does so by its full name, and the argument \<^verbatim>\<open>types\<close> is the linked
  set of message descriptors. An error of \<^verbatim>\<open>fmt.Errorf\<close> is its text; \<^verbatim>\<open>quote\<close> is \<^verbatim>\<open>strconv.Quote\<close>, the
  \<^verbatim>\<open>%q\<close> verb. The second part is the lookup of fields of \<^verbatim>\<open>rest/decode.go\<close>, shared by the routes and
  the decoder.
\<close>

section \<open>Formatted text\<close>

text \<open>The verbs \<^verbatim>\<open>%q\<close>, \<^verbatim>\<open>%s\<close>, \<^verbatim>\<open>%v\<close>, \<^verbatim>\<open>%w\<close>, \<^verbatim>\<open>%d\<close> and \<^verbatim>\<open>%T\<close> on arguments that are given as text.\<close>

fun Sprintf :: "(string \<Rightarrow> string) \<Rightarrow> string \<Rightarrow> string list \<Rightarrow> string" where
  "Sprintf quote [] xs = []"
| "Sprintf quote (c # f) xs =
     (if c = CHR ''%''
      then (case (f, xs) of
              (v # f', x # xs') \<Rightarrow> (if v = CHR ''q'' then quote x else x) @ Sprintf quote f' xs'
            | _ \<Rightarrow> c # Sprintf quote f xs)
      else c # Sprintf quote f xs)"

section \<open>Descriptors\<close>

datatype kind =
    BoolKind | EnumKind | Int32Kind | Sint32Kind | Uint32Kind | Int64Kind | Sint64Kind | Uint64Kind
  | Sfixed32Kind | Fixed32Kind | FloatKind | Sfixed64Kind | Fixed64Kind | DoubleKind
  | StringKind | BytesKind | MessageKind | GroupKind

record fieldDesc =
  fd_Name :: string
  fd_JSONName :: string
  fd_Kind :: kind
  fd_IsList :: bool
  fd_IsMap :: bool
  fd_Message :: "string option"

record messageDesc =
  md_FullName :: string
  md_Fields :: "fieldDesc list"

datatype httpPattern =
    HttpRule_Get string | HttpRule_Post string | HttpRule_Put string | HttpRule_Patch string
  | HttpRule_Delete string | HttpRule_Custom string string | HttpRule_None

datatype httpRule = HttpRule (hr_Pattern: httpPattern) (hr_Body: string) (hr_AdditionalBindings: "httpRule list")

record methodDesc =
  mth_Name :: string
  mth_Input :: messageDesc
  mth_Http :: "httpRule option"

section \<open>Field lookup (rest/decode.go)\<close>

definition lookupField :: "messageDesc \<Rightarrow> string \<Rightarrow> fieldDesc option" where
  "lookupField md name =
     (case find (\<lambda>fd. fd_JSONName fd = name) (md_Fields md) of
        Some fd \<Rightarrow> Some fd
      | None \<Rightarrow> find (\<lambda>fd. fd_Name fd = name) (md_Fields md))"

text \<open>The step into a field on the way of a dotted path: only a singular message field will do.\<close>

definition messageField :: "messageDesc \<Rightarrow> string \<Rightarrow> (fieldDesc \<times> string) option" where
  "messageField md name =
     (case lookupField md name of
        None \<Rightarrow> None
      | Some fd \<Rightarrow>
          (case fd_Message fd of
             None \<Rightarrow> None
           | Some n \<Rightarrow> if fd_IsList fd \<or> fd_IsMap fd then None else Some (fd, n)))"

fun resolveParts :: "(string \<Rightarrow> string) \<Rightarrow> (string \<Rightarrow> messageDesc) \<Rightarrow> messageDesc \<Rightarrow> string list
    \<Rightarrow> string + fieldDesc" where
  "resolveParts quote types md [] = Inl []"
| "resolveParts quote types md [name] =
     (case lookupField md name of
        None \<Rightarrow> Inl (Sprintf quote ''unknown field %q in %s'' [name, md_FullName md])
      | Some fd \<Rightarrow> Inr fd)"
| "resolveParts quote types md (name # p # ps) =
     (case messageField md name of
        None \<Rightarrow> Inl (Sprintf quote ''%q is not a message field of %s'' [name, md_FullName md])
      | Some (fd, n) \<Rightarrow> resolveParts quote types (types n) (p # ps))"

definition resolveField :: "(string \<Rightarrow> string) \<Rightarrow> (string \<Rightarrow> messageDesc) \<Rightarrow> messageDesc \<Rightarrow> string
    \<Rightarrow> string + fieldDesc" where
  "resolveField quote types md path = resolveParts quote types md (Split (CHR ''.'') path)"

end
