(* ===== verification/Rest_Route.thy ===== *)
theory Rest_Route
  imports Rest_Proto
begin

text \<open>
  \<^verbatim>\<open>rest/route.go\<close>: the routes derived from the HTTP annotations of a service. A path template is
  parsed into segments, variables and a verb; a request path is split the same way and
  matched. The generated gRPC handlers and the implementations are of arbitrary types.
\<close>

section \<open>Routes\<close>

record routeSegment =
  sg_literal :: string
  sg_wildcard :: bool

record variable =
  va_field :: string
  va_start :: nat
  va_end :: nat

record ('i, 'h) route =
  rt_httpMethod :: string
  rt_segments :: "routeSegment list"
  rt_verb :: string
  rt_vars :: "variable list"
  rt_body :: string
  rt_bodyField :: "fieldDesc option"
  rt_input :: messageDesc
  rt_impl :: 'i
  rt_handler :: 'h

definition patternOf :: "httpRule \<Rightarrow> string + (string \<times> string)" where
  "patternOf rule =
     (case hr_Pattern rule of
        HttpRule_Get p \<Rightarrow> Inr (''GET'', p)
      | HttpRule_Post p \<Rightarrow> Inr (''POST'', p)
      | HttpRule_Put p \<Rightarrow> Inr (''PUT'', p)
      | HttpRule_Patch p \<Rightarrow> Inr (''PATCH'', p)
      | HttpRule_Delete p \<Rightarrow> Inr (''DELETE'', p)
      | HttpRule_Custom k p \<Rightarrow> Inl ''unsupported HTTP pattern *annotations.HttpRule_Custom''
      | HttpRule_None \<Rightarrow> Inl ''unsupported HTTP pattern <nil>'')"

section \<open>Path templates\<close>

text \<open>\<^verbatim>\<open>cur\<close> is \<^verbatim>\<open>s[start:i]\<close>.\<close>

fun splitTemplateFrom :: "int \<Rightarrow> string \<Rightarrow> string \<Rightarrow> string list" where
  "splitTemplateFrom depth cur [] = [cur]"
| "splitTemplateFrom depth cur (c # cs) =
     (if c = CHR ''{'' then splitTemplateFrom (depth + 1) (cur @ [c]) cs
      else if c = CHR ''}'' then splitTemplateFrom (depth - 1) (cur @ [c]) cs
      else if c = CHR ''/'' \<and> depth = 0 then cur # splitTemplateFrom depth [] cs
      else splitTemplateFrom depth (cur @ [c]) cs)"

definition splitTemplate :: "string \<Rightarrow> string list" where
  "splitTemplate s = splitTemplateFrom 0 [] s"

fun parseSubs :: "(string \<Rightarrow> string) \<Rightarrow> string \<Rightarrow> string list \<Rightarrow> routeSegment list
    \<Rightarrow> string + routeSegment list" where
  "parseSubs quote tmpl [] segments = Inr segments"
| "parseSubs quote tmpl (sub # subs) segments =
     (if sub = ''**''
      then Inl (Sprintf quote ''multi-segment wildcard in path template %q is not supported'' [tmpl])
      else parseSubs quote tmpl subs (segments @ [\<lparr>sg_literal = sub, sg_wildcard = (sub = ''*'')\<rparr>]))"

fun parseItems :: "(string \<Rightarrow> string) \<Rightarrow> string \<Rightarrow> string list \<Rightarrow> routeSegment list \<Rightarrow> variable list
    \<Rightarrow> string + (routeSegment list \<times> variable list)" where
  "parseItems quote tmpl [] segments vars = Inr (segments, vars)"
| "parseItems quote tmpl (raw # raws) segments vars =
     (if \<not> HasPrefix raw ''{''
      then parseItems quote tmpl raws (segments @ [\<lparr>sg_literal = raw, sg_wildcard = False\<rparr>]) vars
      else if \<not> HasSuffix raw ''}''
      then Inl (Sprintf quote ''unterminated variable in path template %q'' [tmpl])
      else let inner = butlast (tl raw);
               (field, pat) = (case Cut (CHR ''='') inner of Some fp \<Rightarrow> fp | None \<Rightarrow> (inner, ''*''))
           in case parseSubs quote tmpl (Split (CHR ''/'') pat) segments of
                Inl e \<Rightarrow> Inl e
              | Inr segments' \<Rightarrow>
                  parseItems quote tmpl raws segments'
                    (vars @ [\<lparr>va_field = field, va_start = length segments, va_end = length segments'\<rparr>]))"

text \<open>The custom-method suffix, which neither a slash nor a brace follows.\<close>

definition cutVerb :: "string \<Rightarrow> string \<Rightarrow> string \<times> string" where
  "cutVerb stops s =
     (case cutLast (CHR '':'') s of
        None \<Rightarrow> (s, [])
      | Some (a, b) \<Rightarrow> if ContainsAny (CHR '':'' # b) stops then (s, []) else (a, b))"

definition parseTemplate :: "(string \<Rightarrow> string) \<Rightarrow> string
    \<Rightarrow> string + (routeSegment list \<times> variable list \<times> string)" where
  "parseTemplate quote tmpl0 =
     (if \<not> HasPrefix tmpl0 ''/''
      then Inl (Sprintf quote ''path template %q must start with /'' [tmpl0])
      else let (tmpl, verb) = cutVerb ''/{}'' tmpl0
           in case parseItems quote tmpl (splitTemplate (tl tmpl)) [] [] of
                Inl e \<Rightarrow> Inl e
              | Inr (segments, vars) \<Rightarrow> Inr (segments, vars, verb))"

section \<open>Matching a request\<close>

definition unescaped :: "string \<Rightarrow> string" where
  "unescaped s = (case PathUnescape s of Some u \<Rightarrow> u | None \<Rightarrow> s)"

definition splitRequestPath :: "string \<Rightarrow> string list \<times> string" where
  "splitRequestPath path0 =
     (let (path, verb) = cutVerb ''/'' (TrimPrefix path0 ''/'')
      in (map unescaped (Split (CHR ''/'') path), verb))"

definition segmentMatches :: "routeSegment \<Rightarrow> string \<Rightarrow> bool" where
  "segmentMatches sg s \<longleftrightarrow> (if sg_wildcard sg then s \<noteq> [] else s = sg_literal sg)"

definition bindVar :: "string list \<Rightarrow> variable \<Rightarrow> string" where
  "bindVar segs v = Join ''/'' (take (va_end v - va_start v) (drop (va_start v) segs))"

definition matchRoute :: "('i, 'h) route \<Rightarrow> string \<Rightarrow> string list \<Rightarrow> string
    \<Rightarrow> (string, string) gomap option" where
  "matchRoute rt httpMethod segs verb =
     (if httpMethod \<noteq> rt_httpMethod rt \<or> verb \<noteq> rt_verb rt \<or> length segs \<noteq> length (rt_segments rt)
      then None
      else if \<not> list_all2 segmentMatches (rt_segments rt) segs then None
      else Some (fold (\<lambda>v m. gset (va_field v) (bindVar segs v) m) (rt_vars rt) []))"

section \<open>Deriving the routes of a service\<close>

fun resolveAll :: "(string \<Rightarrow> string) \<Rightarrow> (string \<Rightarrow> messageDesc) \<Rightarrow> messageDesc \<Rightarrow> variable list
    \<Rightarrow> string + unit" where
  "resolveAll quote types input [] = Inr ()"
| "resolveAll quote types input (v # vs) =
     (case resolveField quote types input (va_field v) of
        Inl e \<Rightarrow> Inl e
      | Inr _ \<Rightarrow> resolveAll quote types input vs)"

definition bodyFieldOf :: "(string \<Rightarrow> string) \<Rightarrow> (string \<Rightarrow> messageDesc) \<Rightarrow> messageDesc \<Rightarrow> string
    \<Rightarrow> string + fieldDesc option" where
  "bodyFieldOf quote types input body =
     (if body = [] \<or> body = ''*'' then Inr None
      else if Contains body ''.''
      then Inl (Sprintf quote ''body field %q must be a top-level field'' [body])
      else case resolveField quote types input body of
        Inl e \<Rightarrow> Inl e
      | Inr fd \<Rightarrow>
          if fd_Message fd = None \<or> fd_IsList fd \<or> fd_IsMap fd
          then Inl (Sprintf quote ''body field %q is not a message'' [body])
          else Inr (Some fd))"

definition newRoute :: "(string \<Rightarrow> string) \<Rightarrow> (string \<Rightarrow> messageDesc) \<Rightarrow> httpRule \<Rightarrow> methodDesc \<Rightarrow> 'i \<Rightarrow> 'h
    \<Rightarrow> string + ('i, 'h) route" where
  "newRoute quote types rule md impl handler =
     (case patternOf rule of
        Inl e \<Rightarrow> Inl e
      | Inr (httpMethod, tmpl) \<Rightarrow>
        case parseTemplate quote tmpl of
          Inl e \<Rightarrow> Inl e
        | Inr (segments, vars, verb) \<Rightarrow>
          let input = mth_Input md in
          case resolveAll quote types input vars of
            Inl e \<Rightarrow> Inl e
          | Inr _ \<Rightarrow>
            case bodyFieldOf quote types input (hr_Body rule) of
              Inl e \<Rightarrow> Inl e
            | Inr bodyField \<Rightarrow>
                Inr \<lparr>rt_httpMethod = httpMethod, rt_segments = segments, rt_verb = verb, rt_vars = vars,
                  rt_body = hr_Body rule, rt_bodyField = bodyField, rt_input = input,
                  rt_impl = impl, rt_handler = handler\<rparr>)"

text \<open>
  \<^verbatim>\<open>grpc.ServiceDesc\<close> (the service's name and the generated unary handlers) and the registry of
  compiled files, which finds a service, something else, or nothing.
\<close>

record 'h serviceDesc =
  sd_ServiceName :: string
  sd_Methods :: "(string \<times> 'h) list"

record ('i, 'h) Service =
  svc_Desc :: "'h serviceDesc"
  svc_Impl :: 'i

datatype descriptor = ServiceDescriptor "methodDesc list" | OtherDescriptor

definition handlerFor :: "'h serviceDesc \<Rightarrow> string \<Rightarrow> 'h option" where
  "handlerFor desc name = map_of (sd_Methods desc) name"

fun addBindings :: "(string \<Rightarrow> string) \<Rightarrow> (string \<Rightarrow> messageDesc) \<Rightarrow> ('i, 'h) Service \<Rightarrow> methodDesc \<Rightarrow> 'h
    \<Rightarrow> httpRule list \<Rightarrow> ('i, 'h) route list \<times> string list \<Rightarrow> ('i, 'h) route list \<times> string list" where
  "addBindings quote types s md handler [] (routes, skipped) = (routes, skipped)"
| "addBindings quote types s md handler (binding # bs) (routes, skipped) =
     (case newRoute quote types binding md (svc_Impl s) handler of
        Inl e \<Rightarrow> addBindings quote types s md handler bs
          (routes, skipped @ [Sprintf quote ''%s.%s: %v'' [sd_ServiceName (svc_Desc s), mth_Name md, e]])
      | Inr rt \<Rightarrow> addBindings quote types s md handler bs (routes @ [rt], skipped))"

definition addMethod :: "(string \<Rightarrow> string) \<Rightarrow> (string \<Rightarrow> messageDesc) \<Rightarrow> ('i, 'h) Service \<Rightarrow> methodDesc
    \<Rightarrow> ('i, 'h) route list \<times> string list \<Rightarrow> ('i, 'h) route list \<times> string list" where
  "addMethod quote types s md acc =
     (case (mth_Http md, handlerFor (svc_Desc s) (mth_Name md)) of
        (Some rule, Some handler) \<Rightarrow>
          addBindings quote types s md handler (rule # hr_AdditionalBindings rule) acc
      | _ \<Rightarrow> acc)"

definition routesFor :: "(string \<Rightarrow> string) \<Rightarrow> (string \<Rightarrow> messageDesc) \<Rightarrow> (string \<Rightarrow> string + descriptor)
    \<Rightarrow> ('i, 'h) Service \<Rightarrow> string + (('i, 'h) route list \<times> string list)" where
  "routesFor quote types files s =
     (let name = sd_ServiceName (svc_Desc s) in
      case files name of
        Inl e \<Rightarrow> Inl (Sprintf quote ''no compiled descriptor for service %s: %w'' [name, e])
      | Inr OtherDescriptor \<Rightarrow> Inl (Sprintf quote ''%s is not a service'' [name])
      | Inr (ServiceDescriptor methods) \<Rightarrow>
          let (routes, skipped) = fold (addMethod quote types s) methods ([], [])
          in if routes = []
             then Inl (Sprintf quote ''service %s declares no HTTP binding this transcoder can serve'' [name])
             else Inr (routes, skipped))"

end
