(* ===== verification/Rest_Match.thy ===== *)
theory Rest_Match
  imports Rest_Route
begin

text \<open>
  Correctness of the routes: a template printed from its parts is parsed back into them, a
  request path printed from its segments is split back into them, and a request for a route
  binds each variable to exactly the segments written in its place. The other direction:
  a route only matches requests of its own shape, and the ranges of its variables lie
  inside the path.
\<close>

section \<open>Templates by their parts\<close>

datatype titem = TLit string | TVar string "string list"

definition mkSegment :: "string \<Rightarrow> routeSegment" where
  "mkSegment sub = \<lparr>sg_literal = sub, sg_wildcard = (sub = ''*'')\<rparr>"

fun renderItem :: "titem \<Rightarrow> string" where
  "renderItem (TLit s) = s"
| "renderItem (TVar f ps) = ''{'' @ f @ ''='' @ Join ''/'' ps @ ''}''"

fun itemOk :: "titem \<Rightarrow> bool" where
  "itemOk (TLit s) \<longleftrightarrow> \<not> ContainsAny s ''/{}:''"
| "itemOk (TVar f ps) \<longleftrightarrow> \<not> ContainsAny f ''{}='' \<and> ps \<noteq> [] \<and>
     list_all (\<lambda>p. \<not> ContainsAny p ''/{}'' \<and> p \<noteq> ''**'') ps"

fun itemSegs :: "titem \<Rightarrow> routeSegment list" where
  "itemSegs (TLit s) = [\<lparr>sg_literal = s, sg_wildcard = False\<rparr>]"
| "itemSegs (TVar f ps) = map mkSegment ps"

fun itemVars :: "nat \<Rightarrow> titem list \<Rightarrow> variable list" where
  "itemVars n [] = []"
| "itemVars n (TLit s # its) = itemVars (Suc n) its"
| "itemVars n (TVar f ps # its) =
     \<lparr>va_field = f, va_start = n, va_end = n + length ps\<rparr> # itemVars (n + length ps) its"

definition suffixVerb :: "string \<Rightarrow> string" where
  "suffixVerb verb = (if verb = [] then [] else CHR '':'' # verb)"

definition renderTemplate :: "titem list \<Rightarrow> string \<Rightarrow> string" where
  "renderTemplate items verb = ''/'' @ Join ''/'' (map renderItem items) @ suffixVerb verb"

definition requestPath :: "(char \<Rightarrow> bool) \<Rightarrow> string list \<Rightarrow> string \<Rightarrow> string" where
  "requestPath esc segs verb = ''/'' @ Join ''/'' (map (escapeSegment esc) segs) @ suffixVerb verb"

section \<open>Splitting\<close>

lemma ContainsAny_set: "ContainsAny s cs \<longleftrightarrow> set s \<inter> set cs \<noteq> {}"
  by (auto simp: ContainsAny_def list_ex_iff)

lemma splitTemplateFrom_plain:
  "set s \<inter> set ''{}'' = {} \<Longrightarrow> CHR ''/'' \<notin> set s \<or> depth \<noteq> 0 \<Longrightarrow>
    splitTemplateFrom depth cur (s @ rest) = splitTemplateFrom depth (cur @ s) rest"
  by (induction s arbitrary: cur) auto

lemma splitTemplateFrom_var:
  assumes "set s \<inter> set ''{}'' = {}"
  shows "splitTemplateFrom 0 cur (''{'' @ s @ ''}'' @ rest) = splitTemplateFrom 0 (cur @ ''{'' @ s @ ''}'') rest"
  using assms by (simp add: splitTemplateFrom_plain)

lemma Join_chars: "\<forall>p \<in> set ps. set p \<inter> set ''{}'' = {} \<Longrightarrow> set (Join ''/'' ps) \<inter> set ''{}'' = {}"
  using set_Join by fastforce

lemma splitTemplateFrom_item:
  assumes "itemOk it"
  shows "splitTemplateFrom 0 cur (renderItem it @ rest) = splitTemplateFrom 0 (cur @ renderItem it) rest"
proof (cases it)
  case (TLit s)
  with assms have "set s \<inter> set ''{}'' = {}" "CHR ''/'' \<notin> set s" by (auto simp: ContainsAny_set)
  with TLit show ?thesis by (simp add: splitTemplateFrom_plain)
next
  case (TVar f ps)
  with assms have "set (f @ ''='' @ Join ''/'' ps) \<inter> set ''{}'' = {}"
    using Join_chars [of ps] by (auto simp: ContainsAny_set list_all_iff)
  from splitTemplateFrom_var [OF this] TVar show ?thesis by simp
qed

lemma splitTemplate_render:
  "items \<noteq> [] \<Longrightarrow> list_all itemOk items \<Longrightarrow>
    splitTemplateFrom 0 cur (Join ''/'' (map renderItem items)) =
      (cur @ renderItem (hd items)) # map renderItem (tl items)"
proof (induction items arbitrary: cur)
  case (Cons it its)
  show ?case
  proof (cases "its = []")
    case True
    with Cons.prems show ?thesis using splitTemplateFrom_item [of it cur "[]"] by simp
  next
    case False
    with Cons.prems Cons.IH [of "[]"] show ?thesis
      by (cases its) (simp_all add: Join_Cons splitTemplateFrom_item)
  qed
qed simp

lemma splitTemplate_items:
  "items \<noteq> [] \<Longrightarrow> list_all itemOk items \<Longrightarrow>
    splitTemplate (Join ''/'' (map renderItem items)) = map renderItem items"
  using splitTemplate_render [of items "[]"] by (cases items) (auto simp: splitTemplate_def)

section \<open>Parsing\<close>

lemma parseSubs_Inr:
  "parseSubs quote tmpl subs segs = Inr segs' \<longleftrightarrow> ''**'' \<notin> set subs \<and> segs' = segs @ map mkSegment subs"
  by (induction subs arbitrary: segs) (auto simp: mkSegment_def)

lemma parseItems_TLit:
  "itemOk (TLit s) \<Longrightarrow> parseItems quote tmpl (renderItem (TLit s) # raws) segs vars =
     parseItems quote tmpl raws (segs @ itemSegs (TLit s)) vars"
  by (cases s) (auto simp: HasPrefix_def ContainsAny_def)

lemma parseItems_TVar:
  assumes "itemOk (TVar f ps)"
  shows "parseItems quote tmpl (renderItem (TVar f ps) # raws) segs vars =
     parseItems quote tmpl raws (segs @ itemSegs (TVar f ps))
       (vars @ [\<lparr>va_field = f, va_start = length segs, va_end = length segs + length ps\<rparr>])"
proof -
  let ?raw = "renderItem (TVar f ps)"
  have inner: "butlast (tl ?raw) = f @ ''='' @ Join ''/'' ps" by (simp add: butlast_append)
  have cut: "Cut (CHR ''='') (f @ ''='' @ Join ''/'' ps) = Some (f, Join ''/'' ps)"
    using assms Cut_append [of "CHR ''=''" f] by (simp add: ContainsAny_set)
  have subs: "Split (CHR ''/'') (Join ''/'' ps) = ps"
    using assms Split_Join [of ps "CHR ''/''"] by (simp add: ContainsAny_set list_all_iff)
  have seg: "parseSubs quote tmpl ps segs = Inr (segs @ map mkSegment ps)"
    using assms by (auto simp: parseSubs_Inr list_all_iff)
  have "HasPrefix ?raw ''{''" "HasSuffix ?raw ''}''" by (simp_all add: HasPrefix_def HasSuffix_def)
  then show ?thesis
    unfolding parseItems.simps(2) Let_def inner cut by (simp add: subs seg)
qed

lemma parseItems_render:
  "list_all itemOk items \<Longrightarrow> parseItems quote tmpl (map renderItem items) segs vars =
     Inr (segs @ concat (map itemSegs items), vars @ itemVars (length segs) items)"
proof (induction items arbitrary: segs vars)
  case (Cons it its)
  then show ?case
    by (cases it) (simp_all add: parseItems_TLit parseItems_TVar del: parseItems.simps renderItem.simps)
qed simp

lemma cutVerb_suffix:
  assumes "\<not> ContainsAny verb (CHR '':'' # stops)" "CHR '':'' \<notin> set stops"
    and "verb = [] \<Longrightarrow> fst (cutVerb stops s) = s \<and> snd (cutVerb stops s) = []"
  shows "cutVerb stops (s @ suffixVerb verb) = (s, verb)"
proof (cases "verb = []")
  case True
  with assms(3) show ?thesis by (simp add: suffixVerb_def prod_eq_iff)
next
  case False
  have "CHR '':'' \<notin> set verb" "\<not> ContainsAny (CHR '':'' # verb) stops"
    using assms(1,2) by (auto simp: ContainsAny_set)
  with False show ?thesis by (simp add: suffixVerb_def cutVerb_def cutLast_append)
qed

lemma after_last_slash:
  assumes "a @ c # b = pre @ CHR ''/'' # r" "c \<noteq> CHR ''/''" "c \<notin> set r"
  shows "CHR ''/'' \<in> set b"
proof -
  from assms(1) obtain us where
    "a = pre @ us \<and> us @ c # b = CHR ''/'' # r \<or> a @ us = pre \<and> c # b = us @ CHR ''/'' # r"
    by (auto simp: append_eq_append_conv2)
  with assms(2,3) show ?thesis by (cases us) auto
qed

text \<open>Without a verb, a colon of a template can only stand inside a variable.\<close>

lemma cutVerb_items:
  assumes "list_all itemOk items" "items \<noteq> []"
  shows "cutVerb ''/{}'' (''/'' @ Join ''/'' (map renderItem items)) =
    (''/'' @ Join ''/'' (map renderItem items), [])"
proof -
  let ?s = "''/'' @ Join ''/'' (map renderItem items)"
  obtain its it where it: "items = its @ [it]" using assms(2) by (metis rev_exhaust)
  then have ok: "itemOk it" using assms(1) by simp
  obtain pre where pre: "?s = pre @ CHR ''/'' # renderItem it"
    using it by (cases "its = []") (simp_all add: Join_append)
  have "ContainsAny (CHR '':'' # b) ''/{}''" if "cutLast (CHR '':'') ?s = Some (a, b)" for a b
  proof (cases it)
    case (TLit s)
    have "?s = a @ CHR '':'' # b" using cutLast_Some [OF that] by blast
    then have "a @ CHR '':'' # b = pre @ CHR ''/'' # s" using pre TLit by simp
    then have "CHR ''/'' \<in> set b" by (rule after_last_slash) (use ok TLit in \<open>auto simp: ContainsAny_set\<close>)
    then show ?thesis by (simp add: ContainsAny_set)
  next
    case (TVar f ps)
    have "?s = a @ CHR '':'' # b" using cutLast_Some [OF that] by blast
    then have "last (a @ CHR '':'' # b) = CHR ''}''" using pre TVar by (simp del: Join.simps)
    then have "CHR ''}'' \<in> set b" by (cases "b = []") (simp_all, metis last_in_set)
    then show ?thesis by (simp add: ContainsAny_set)
  qed
  then show ?thesis by (auto simp: cutVerb_def simp del: append.simps split: option.split)
qed

lemma parseTemplate_render:
  assumes "list_all itemOk items" "items \<noteq> []" "\<not> ContainsAny verb '':/{}''"
  shows "parseTemplate quote (renderTemplate items verb) =
    Inr (concat (map itemSegs items), itemVars 0 items, verb)"
proof -
  let ?s = "''/'' @ Join ''/'' (map renderItem items)"
  have "cutVerb ''/{}'' (?s @ suffixVerb verb) = (?s, verb)"
    using assms(3) cutVerb_items [OF assms(1,2)] by (intro cutVerb_suffix) simp_all
  moreover have "renderTemplate items verb = ?s @ suffixVerb verb" by (simp add: renderTemplate_def)
  ultimately have cut: "cutVerb ''/{}'' (renderTemplate items verb) = (?s, verb)" by simp
  have "HasPrefix (renderTemplate items verb) ''/''" by (simp add: renderTemplate_def HasPrefix_def)
  then show ?thesis
    unfolding parseTemplate_def cut
    by (simp add: splitTemplate_items [OF assms(2,1)] parseItems_render [OF assms(1)])
qed

section \<open>Splitting a request path\<close>

lemma escaped_away:
  assumes "esc x" "x \<noteq> CHR ''%''" "\<And>d. d < 16 \<Longrightarrow> x \<noteq> hex_char d"
  shows "x \<notin> set (escapeSegment esc s)"
  using escapeSegment_set [of x esc s] assms by blast

lemma separators_escaped:
  assumes "esc (CHR ''/'')" "esc (CHR '':'')"
  shows "CHR ''/'' \<notin> set (escapeSegment esc s)" "CHR '':'' \<notin> set (escapeSegment esc s)"
proof -
  have "of_char (CHR ''/'') \<noteq> (of_char (hex_char d) :: nat)" "of_char (CHR '':'') \<noteq> (of_char (hex_char d) :: nat)"
    if "d < 16" for d
    unfolding of_char_hex_char [OF that] by auto
  then have "CHR ''/'' \<noteq> hex_char d" "CHR '':'' \<noteq> hex_char d" if "d < 16" for d
    using that by metis+
  then show "CHR ''/'' \<notin> set (escapeSegment esc s)" "CHR '':'' \<notin> set (escapeSegment esc s)"
    using assms by (simp_all add: escaped_away)
qed

lemma splitRequestPath_requestPath:
  assumes esc: "esc (CHR ''%'')" "esc (CHR ''/'')" "esc (CHR '':'')"
    and "segs \<noteq> []" and verb: "\<not> ContainsAny verb '':/''"
  shows "splitRequestPath (requestPath esc segs verb) = (segs, verb)"
proof -
  let ?ss = "map (escapeSegment esc) segs"
  let ?p = "Join ''/'' ?ss"
  have "CHR '':'' \<notin> set ?p" using set_Join [of "CHR '':''" "''/''" ?ss] separators_escaped [OF esc(2,3)] by auto
  then have "cutVerb ''/'' ?p = (?p, [])" by (simp add: cutVerb_def cutLast_None [THEN iffD2])
  then have "cutVerb ''/'' (?p @ suffixVerb verb) = (?p, verb)"
    using verb by (intro cutVerb_suffix) simp_all
  moreover have "TrimPrefix (requestPath esc segs verb) ''/'' = ?p @ suffixVerb verb"
    by (simp add: requestPath_def TrimPrefix_def HasPrefix_def)
  moreover have "Split (CHR ''/'') ?p = ?ss"
    using assms(4) separators_escaped [OF esc(2,3)] Split_Join [of ?ss "CHR ''/''"] by auto
  moreover have "map unescaped ?ss = segs"
    by (simp add: map_idI unescaped_def PathUnescape_escapeSegment [of esc, OF esc(1)])
  ultimately show ?thesis by (simp add: splitRequestPath_def)
qed

section \<open>Bindings\<close>

lemma gget_fold_bind:
  "gget (fold (\<lambda>v m. gset (va_field v) (g v) m) vs m) k =
     (case filter (\<lambda>v. va_field v = k) vs of [] \<Rightarrow> gget m k | xs \<Rightarrow> Some (g (last xs)))"
proof (induction vs arbitrary: m)
  case (Cons v vs)
  then show ?case by (cases "filter (\<lambda>v. va_field v = k) vs") (auto simp: gm.get_set_other)
qed simp

lemma gget_bind_distinct:
  assumes "distinct (map va_field vs)" "v \<in> set vs"
  shows "gget (fold (\<lambda>v m. gset (va_field v) (g v) m) vs m) (va_field v) = Some (g v)"
proof -
  have "filter (\<lambda>w. va_field w = va_field v) vs = [v]"
    using assms by (induction vs) (auto simp: filter_empty_conv, metis image_eqI)
  then show ?thesis by (simp add: gget_fold_bind)
qed

definition itemField :: "titem \<Rightarrow> string list" where
  "itemField it = (case it of TLit s \<Rightarrow> [] | TVar f ps \<Rightarrow> [f])"

lemma itemVars_fields: "map va_field (itemVars n items) = concat (map itemField items)"
  by (induction n items rule: itemVars.induct) (simp_all add: itemField_def)

lemma itemVars_slice:
  assumes "list_all2 (\<lambda>it vs. list_all2 segmentMatches (itemSegs it) vs) items vals"
    and "(TVar f ps, vs) \<in> set (zip items vals)"
  shows "\<exists>v \<in> set (itemVars (length before) items). va_field v = f \<and> bindVar (before @ concat vals) v = Join ''/'' vs"
  using assms
proof (induction items vals arbitrary: before rule: list_all2_induct)
  case (Cons it its vs0 vals)
  have len: "length vs0 = length (itemSegs it)" using Cons.hyps(1) by (simp add: list_all2_lengthD)
  show ?case
  proof (cases "(TVar f ps, vs) = (it, vs0)")
    case True
    with len have "bindVar (before @ vs0 @ concat vals)
        \<lparr>va_field = f, va_start = length before, va_end = length before + length ps\<rparr> = Join ''/'' vs"
      by (auto simp: bindVar_def)
    with True show ?thesis by auto
  next
    case False
    with Cons.prems Cons.IH [of "before @ vs0"] have
      "\<exists>v \<in> set (itemVars (length before + length vs0) its). va_field v = f \<and>
         bindVar (before @ vs0 @ concat vals) v = Join ''/'' vs" by auto
    with len show ?thesis by (cases it) auto
  qed
qed simp

lemma list_all2_concat:
  "list_all2 (\<lambda>it vs. list_all2 P (f it) vs) its vals \<Longrightarrow> list_all2 P (concat (map f its)) (concat vals)"
  by (induction its vals rule: list_all2_induct) (auto intro: list_all2_appendI)

lemma matchRoute_built:
  assumes rt: "rt_segments rt = concat (map itemSegs items)" "rt_vars rt = itemVars 0 items"
    and vals: "list_all2 (\<lambda>it vs. list_all2 segmentMatches (itemSegs it) vs) items vals"
    and dist: "distinct (concat (map itemField items))"
  shows "\<exists>b. matchRoute rt (rt_httpMethod rt) (concat vals) (rt_verb rt) = Some b \<and>
    (\<forall>f ps vs. (TVar f ps, vs) \<in> set (zip items vals) \<longrightarrow> gget b f = Some (Join ''/'' vs))"
proof -
  have m: "list_all2 segmentMatches (rt_segments rt) (concat vals)"
    unfolding rt(1) by (rule list_all2_concat [OF vals])
  let ?b = "fold (\<lambda>v m. gset (va_field v) (bindVar (concat vals) v) m) (rt_vars rt) []"
  have "matchRoute rt (rt_httpMethod rt) (concat vals) (rt_verb rt) = Some ?b"
    using m list_all2_lengthD [OF m] by (simp add: matchRoute_def)
  moreover have "gget ?b f = Some (Join ''/'' vs)" if z: "(TVar f ps, vs) \<in> set (zip items vals)" for f ps vs
  proof -
    obtain v where "v \<in> set (rt_vars rt)" "va_field v = f" "bindVar (concat vals) v = Join ''/'' vs"
      using itemVars_slice [OF vals z, where before = "[]"] rt(2) by auto
    then show ?thesis
      using dist gget_bind_distinct [of "rt_vars rt" v] itemVars_fields [of 0 items] rt(2) by metis
  qed
  ultimately show ?thesis by blast
qed

section \<open>Properties\<close>

text \<open>
  C25. A REST path names what it spells: for a template made of literals and variables, the
  route parsed from its text matches the request path printed from any values for its
  segments, however a client escapes them, and binds each variable to the values
  in its place, joined by slashes; escaped slashes and colons stay inside their segment.
\<close>

theorem rest_path_roundtrip:
  assumes "list_all itemOk items" and "items \<noteq> []" and "\<not> ContainsAny verb '':/{}''"
    and "parseTemplate quote (renderTemplate items verb) = Inr (rt_segments rt, rt_vars rt, rt_verb rt)"
    and "list_all2 (\<lambda>it vs. list_all2 segmentMatches (itemSegs it) vs) items vals"
    and "distinct (concat (map itemField items))"
    and "esc (CHR ''%'')" and "esc (CHR ''/'')" and "esc (CHR '':'')"
  shows "\<exists>b. (case splitRequestPath (requestPath esc (concat vals) verb) of
        (segs, vb) \<Rightarrow> matchRoute rt (rt_httpMethod rt) segs vb) = Some b \<and>
    (\<forall>f ps vs. (TVar f ps, vs) \<in> set (zip items vals) \<longrightarrow> gget b f = Some (Join ''/'' vs))"
proof -
  have rt: "rt_segments rt = concat (map itemSegs items)" "rt_vars rt = itemVars 0 items" "rt_verb rt = verb"
    using assms(4) parseTemplate_render [OF assms(1-3)] by auto
  have "concat vals \<noteq> []"
  proof -
    have "itemSegs it \<noteq> []" if "it \<in> set items" for it
      using assms(1) that by (cases it) (auto simp: list_all_iff)
    then have "concat (map itemSegs items) \<noteq> []" using assms(2) by (cases items) auto
    then show ?thesis using list_all2_concat [OF assms(5)] by (cases "concat vals") auto
  qed
  moreover have "\<not> ContainsAny verb '':/''" using assms(3) by (auto simp: ContainsAny_set)
  ultimately have "splitRequestPath (requestPath esc (concat vals) verb) = (concat vals, verb)"
    by (intro splitRequestPath_requestPath assms(7-9))
  with matchRoute_built [OF rt(1,2) assms(5,6)] rt(3) show ?thesis by simp
qed

definition demoItems :: "titem list" where
  "demoItems = [TLit ''v2'', TVar ''name'' [''projects'', ''*'', ''locations'', ''*'', ''queues'', ''*'']]"

definition demoEsc :: "char \<Rightarrow> bool" where
  "demoEsc c \<longleftrightarrow> c \<in> set ''%/: ''"

definition demoRoute :: "(unit, unit) route" where
  "demoRoute = \<lparr>rt_httpMethod = ''POST'', rt_segments = concat (map itemSegs demoItems), rt_verb = ''purge'',
     rt_vars = itemVars 0 demoItems, rt_body = ''*'', rt_bodyField = None,
     rt_input = \<lparr>md_FullName = ''PurgeQueueRequest'', md_Fields = []\<rparr>, rt_impl = (), rt_handler = ()\<rparr>"

theorem rest_path_roundtrip_witness:
  "renderTemplate demoItems ''purge'' = ''/v2/{name=projects/*/locations/*/queues/*}:purge'' \<and>
   requestPath demoEsc [''v2'', ''projects'', ''a:b'', ''locations'', ''x/y'', ''queues'', ''q''] ''purge''
     = ''/v2/projects/a%3Ab/locations/x%2Fy/queues/q:purge'' \<and>
   (\<exists>b. (case splitRequestPath ''/v2/projects/a%3Ab/locations/x%2Fy/queues/q:purge'' of
        (segs, vb) \<Rightarrow> matchRoute demoRoute ''POST'' segs vb) = Some b \<and>
      gget b ''name'' = Some ''projects/a:b/locations/x/y/queues/q'')"
proof -
  let ?vals = "[[''v2''], [''projects'', ''a:b'', ''locations'', ''x/y'', ''queues'', ''q'']]"
  let ?path = "''/v2/projects/a%3Ab/locations/x%2Fy/queues/q:purge''"
  have t: "renderTemplate demoItems ''purge'' = ''/v2/{name=projects/*/locations/*/queues/*}:purge''"
    by code_simp
  have p: "requestPath demoEsc (concat ?vals) ''purge'' = ?path" by code_simp
  have ok: "list_all itemOk demoItems" "demoItems \<noteq> []" "\<not> ContainsAny ''purge'' '':/{}''"
    "distinct (concat (map itemField demoItems))" "demoEsc (CHR ''%'')" "demoEsc (CHR ''/'')" "demoEsc (CHR '':'')"
    by code_simp+
  have vals: "list_all2 (\<lambda>it vs. list_all2 segmentMatches (itemSegs it) vs) demoItems ?vals"
    by (simp add: demoItems_def mkSegment_def segmentMatches_def)
  have rt: "parseTemplate (\<lambda>s. s) (renderTemplate demoItems ''purge'') =
      Inr (rt_segments demoRoute, rt_vars demoRoute, rt_verb demoRoute)"
    using parseTemplate_render [OF ok(1-3)] by (simp add: demoRoute_def)
  have "\<exists>b. (case splitRequestPath ?path of (segs, vb) \<Rightarrow> matchRoute demoRoute (rt_httpMethod demoRoute) segs vb) = Some b \<and>
      (\<forall>f ps vs. (TVar f ps, vs) \<in> set (zip demoItems ?vals) \<longrightarrow> gget b f = Some (Join ''/'' vs))"
    using rest_path_roundtrip [OF ok(1-3) rt vals ok(4-7)] unfolding p .
  then have "\<exists>b. (case splitRequestPath ?path of (segs, vb) \<Rightarrow> matchRoute demoRoute ''POST'' segs vb) = Some b \<and>
      gget b ''name'' = Some ''projects/a:b/locations/x/y/queues/q''"
    by (fastforce simp: demoItems_def demoRoute_def)
  with t p show ?thesis by simp
qed

end
