(* ===== verification/Rest_Decode.thy ===== *)
theory Rest_Decode
  imports Rest_Route
begin

text \<open>
  \<^verbatim>\<open>rest/decode.go\<close>: the request message of a route from the JSON body, the query string and the
  variables of the path. The protobuf runtime is the argument \<^verbatim>\<open>lib\<close>: messages of an arbitrary
  type \<^typ>\<open>'m\<close>, the reflective operations on them and \<^verbatim>\<open>protojson\<close>. A sub-message obtained by \<^verbatim>\<open>Mutable\<close>
  is an alias into its parent; \<^verbatim>\<open>rf_Store\<close> is the parent after that sub-message has changed.
  A request is what \<^verbatim>\<open>net/http\<close> and \<^verbatim>\<open>net/url\<close> make of it: the escaped path, the parsed query (a Go map of
  non-empty lists of values) and the body, or the error its transfer ends with.
\<close>

record 'm reflect =
  rf_New :: "string \<Rightarrow> string + 'm"
  rf_Descriptor :: "'m \<Rightarrow> messageDesc"
  rf_Mutable :: "'m \<Rightarrow> fieldDesc \<Rightarrow> 'm"
  rf_Store :: "'m \<Rightarrow> fieldDesc \<Rightarrow> 'm \<Rightarrow> 'm"
  rf_Fresh :: "'m \<Rightarrow> 'm"
  rf_Copy :: "'m \<Rightarrow> fieldDesc \<Rightarrow> 'm \<Rightarrow> 'm"
  rf_Unmarshal :: "string \<Rightarrow> 'm \<Rightarrow> string + 'm"
  rf_Marshal :: "bool \<Rightarrow> 'm \<Rightarrow> string + string"

record restRequest =
  rq_Method :: string
  rq_EscapedPath :: string
  rq_Path :: string
  rq_Query :: "(string, string list) gomap"
  rq_Body :: "string + string"

section \<open>Setting a field from text\<close>

definition jsonLiteral :: "(string \<Rightarrow> string) \<Rightarrow> fieldDesc \<Rightarrow> string \<Rightarrow> string" where
  "jsonLiteral quote fd v =
     (if fd_Kind fd \<in> {BoolKind, Int32Kind, Sint32Kind, Sfixed32Kind, Int64Kind, Sint64Kind, Sfixed64Kind,
           Uint32Kind, Fixed32Kind, Uint64Kind, Fixed64Kind, FloatKind, DoubleKind}
      then v
      else if fd_Kind fd = EnumKind then (if Atoi v \<noteq> None then v else quote v)
      else quote v)"

definition fieldDocument :: "(string \<Rightarrow> string) \<Rightarrow> fieldDesc \<Rightarrow> string list \<Rightarrow> string" where
  "fieldDocument quote fd vs =
     (let literal = (if fd_IsList fd then ''['' @ Join '','' (map (jsonLiteral quote fd) vs) @ '']''
                     else jsonLiteral quote fd (last vs))
      in ''{'' @ quote (fd_JSONName fd) @ '':'' @ literal @ ''}'')"

definition assign :: "'m reflect \<Rightarrow> (string \<Rightarrow> string) \<Rightarrow> 'm \<Rightarrow> fieldDesc \<Rightarrow> string list \<Rightarrow> string + 'm" where
  "assign lib quote msg fd vs =
     (case rf_Unmarshal lib (fieldDocument quote fd vs) (rf_Fresh lib msg) of
        Inl e \<Rightarrow> Inl e
      | Inr tmp \<Rightarrow> Inr (rf_Copy lib msg fd tmp))"

fun setParts :: "'m reflect \<Rightarrow> (string \<Rightarrow> string) \<Rightarrow> 'm \<Rightarrow> string list \<Rightarrow> string list \<Rightarrow> string + 'm" where
  "setParts lib quote msg [] vs = Inl []"
| "setParts lib quote msg [name] vs =
     (case lookupField (rf_Descriptor lib msg) name of
        None \<Rightarrow> Inl (Sprintf quote ''unknown field %q in %s'' [name, md_FullName (rf_Descriptor lib msg)])
      | Some fd \<Rightarrow>
          if fd_IsMap fd then Inl (Sprintf quote ''map field %q cannot be set from the URL'' [name])
          else assign lib quote msg fd vs)"
| "setParts lib quote msg (name # p # ps) vs =
     (case messageField (rf_Descriptor lib msg) name of
        None \<Rightarrow> Inl (Sprintf quote ''%q is not a message field of %s'' [name, md_FullName (rf_Descriptor lib msg)])
      | Some (fd, n) \<Rightarrow>
          (case setParts lib quote (rf_Mutable lib msg fd) (p # ps) vs of
             Inl e \<Rightarrow> Inl e
           | Inr sub \<Rightarrow> Inr (rf_Store lib msg fd sub)))"

definition setFieldPath :: "'m reflect \<Rightarrow> (string \<Rightarrow> string) \<Rightarrow> 'm \<Rightarrow> string \<Rightarrow> string list \<Rightarrow> string + 'm" where
  "setFieldPath lib quote msg path vs = setParts lib quote msg (Split (CHR ''.'') path) vs"

section \<open>The request message\<close>

definition systemParams :: "string list" where
  "systemParams = [''alt'', ''access_token'', ''bearer_token'', ''callback'', ''fields'', ''key'', ''oauth_token'',
     ''pp'', ''prettyPrint'', ''quotaUser'', ''upload_protocol'', ''uploadType'', ''userIp'']"

definition isSystemParam :: "string \<Rightarrow> bool" where
  "isSystemParam key \<longleftrightarrow> HasPrefix key ''$'' \<or> key \<in> set systemParams"

definition maxRequestBody :: int where
  "maxRequestBody = 33554432"

text \<open>\<^verbatim>\<open>io.ReadAll\<close> of the body under \<^verbatim>\<open>http.MaxBytesReader\<close>.\<close>

definition readBody :: "restRequest \<Rightarrow> string + string" where
  "readBody r =
     (case rq_Body r of
        Inl e \<Rightarrow> Inl e
      | Inr raw \<Rightarrow> if int (length raw) > maxRequestBody then Inl ''http: request body too large'' else Inr raw)"

definition newMessage :: "'m reflect \<Rightarrow> messageDesc \<Rightarrow> 'm result" where
  "newMessage lib md =
     (case rf_New lib (md_FullName md) of
        Inl e \<Rightarrow> Inl (Errorf Internal ''no Go type registered for %s: %v'' [md_FullName md, e])
      | Inr m \<Rightarrow> Inr m)"

definition decodeBody :: "'m reflect \<Rightarrow> ('i, 'h) route \<Rightarrow> restRequest \<Rightarrow> 'm \<Rightarrow> 'm result" where
  "decodeBody lib rt r msg =
     (if rt_body rt = [] then Inr msg
      else case readBody r of
        Inl e \<Rightarrow> Inl (Errorf InvalidArgument ''read request body: %v'' [e])
      | Inr raw \<Rightarrow>
          if TrimSpace raw = [] then Inr msg
          else case rf_Unmarshal lib raw (case rt_bodyField rt of None \<Rightarrow> msg | Some fd \<Rightarrow> rf_Mutable lib msg fd) of
            Inl e \<Rightarrow> Inl (Errorf InvalidArgument ''invalid JSON body: %v'' [e])
          | Inr target \<Rightarrow> Inr (case rt_bodyField rt of None \<Rightarrow> target | Some fd \<Rightarrow> rf_Store lib msg fd target))"

fun decodeQuery :: "'m reflect \<Rightarrow> (string \<Rightarrow> string) \<Rightarrow> (string, string list) gomap \<Rightarrow> 'm \<Rightarrow> 'm result" where
  "decodeQuery lib quote [] msg = Inr msg"
| "decodeQuery lib quote ((key, vs) # q) msg =
     (if isSystemParam key then decodeQuery lib quote q msg
      else case setFieldPath lib quote msg key vs of
        Inl e \<Rightarrow> Inl (Errorf InvalidArgument ''query parameter %q: %v'' [key, e])
      | Inr msg' \<Rightarrow> decodeQuery lib quote q msg')"

fun decodeVars :: "'m reflect \<Rightarrow> (string \<Rightarrow> string) \<Rightarrow> (string, string) gomap \<Rightarrow> 'm \<Rightarrow> 'm result" where
  "decodeVars lib quote [] msg = Inr msg"
| "decodeVars lib quote ((field, v) # vars) msg =
     (case setFieldPath lib quote msg field [v] of
        Inl e \<Rightarrow> Inl (Errorf InvalidArgument ''path variable %q: %v'' [field, e])
      | Inr msg' \<Rightarrow> decodeVars lib quote vars msg')"

definition decode :: "'m reflect \<Rightarrow> (string \<Rightarrow> string) \<Rightarrow> ('i, 'h) route \<Rightarrow> restRequest
    \<Rightarrow> (string, string) gomap \<Rightarrow> 'm result" where
  "decode lib quote rt r vars =
     (case newMessage lib (rt_input rt) of
        Inl e \<Rightarrow> Inl e
      | Inr m0 \<Rightarrow>
        case decodeBody lib rt r m0 of
          Inl e \<Rightarrow> Inl e
        | Inr m1 \<Rightarrow>
          case decodeQuery lib quote (rq_Query r) m1 of
            Inl e \<Rightarrow> Inl e
          | Inr m2 \<Rightarrow> decodeVars lib quote vars m2)"

section \<open>What the runtime promises\<close>

text \<open>
  The documented behaviour of the protobuf runtime the decoder relies on. \<^verbatim>\<open>get\<close> is the value of a
  field. Messages keep their type, a fresh sub-message has the type its field declares,
  setting a field from another message makes it read as there, and a change through
  an alias is seen in the parent.
\<close>

definition reflect_ok :: "'m reflect \<Rightarrow> (string \<Rightarrow> messageDesc) \<Rightarrow> ('m \<Rightarrow> fieldDesc \<Rightarrow> 'v) \<Rightarrow> bool" where
  "reflect_ok lib types get \<longleftrightarrow>
     (\<forall>n m. rf_New lib n = Inr m \<longrightarrow> rf_Descriptor lib m = types n) \<and>
     (\<forall>d m m'. rf_Unmarshal lib d m = Inr m' \<longrightarrow> rf_Descriptor lib m' = rf_Descriptor lib m) \<and>
     (\<forall>m fd n. fd_Message fd = Some n \<longrightarrow> rf_Descriptor lib (rf_Mutable lib m fd) = types n) \<and>
     (\<forall>m fd t. rf_Descriptor lib (rf_Copy lib m fd t) = rf_Descriptor lib m) \<and>
     (\<forall>m fd s. rf_Descriptor lib (rf_Store lib m fd s) = rf_Descriptor lib m) \<and>
     (\<forall>m fd t. get (rf_Copy lib m fd t) fd = get t fd) \<and>
     (\<forall>m fd s. rf_Descriptor lib s = rf_Descriptor lib (rf_Mutable lib m fd) \<longrightarrow>
        rf_Mutable lib (rf_Store lib m fd s) fd = s)"

text \<open>Reading a dotted path.\<close>

fun getParts :: "'m reflect \<Rightarrow> ('m \<Rightarrow> fieldDesc \<Rightarrow> 'v) \<Rightarrow> 'm \<Rightarrow> string list \<Rightarrow> 'v option" where
  "getParts lib get msg [] = None"
| "getParts lib get msg [name] = map_option (get msg) (lookupField (rf_Descriptor lib msg) name)"
| "getParts lib get msg (name # p # ps) =
     (case messageField (rf_Descriptor lib msg) name of
        None \<Rightarrow> None
      | Some (fd, n) \<Rightarrow> getParts lib get (rf_Mutable lib msg fd) (p # ps))"

lemma messageField_Message: "messageField md name = Some (fd, n) \<Longrightarrow> fd_Message fd = Some n"
  by (auto simp: messageField_def split: option.splits if_splits)

lemma setParts_Descriptor:
  "reflect_ok lib types get \<Longrightarrow> setParts lib quote msg ps vs = Inr msg' \<Longrightarrow>
    rf_Descriptor lib msg' = rf_Descriptor lib msg"
  by (induction lib quote msg ps vs arbitrary: msg' rule: setParts.induct)
    (auto simp: reflect_ok_def assign_def split: option.splits sum.splits if_splits)

lemma setParts_get:
  "reflect_ok lib types get \<Longrightarrow> setParts lib quote msg ps vs = Inr msg' \<Longrightarrow>
    \<exists>fd tmp fresh. resolveParts quote types (rf_Descriptor lib msg) ps = Inr fd \<and>
      rf_Unmarshal lib (fieldDocument quote fd vs) fresh = Inr tmp \<and> getParts lib get msg' ps = Some (get tmp fd)"
proof (induction lib quote msg ps vs arbitrary: msg' rule: setParts.induct)
  case (2 lib quote msg name vs)
  then obtain fd tmp where fd: "lookupField (rf_Descriptor lib msg) name = Some fd"
    and tmp: "rf_Unmarshal lib (fieldDocument quote fd vs) (rf_Fresh lib msg) = Inr tmp"
    and msg': "msg' = rf_Copy lib msg fd tmp"
    by (auto simp: assign_def split: option.splits sum.splits if_splits)
  have "rf_Descriptor lib msg' = rf_Descriptor lib msg" "get msg' fd = get tmp fd"
    using "2.prems"(1) unfolding msg' reflect_ok_def by blast+
  with fd have "getParts lib get msg' [name] = Some (get tmp fd)" by simp
  with fd tmp show ?case by auto
next
  case (3 lib quote msg name p ps vs)
  then obtain fd n sub where fd: "messageField (rf_Descriptor lib msg) name = Some (fd, n)"
    and sub: "setParts lib quote (rf_Mutable lib msg fd) (p # ps) vs = Inr sub"
    and msg': "msg' = rf_Store lib msg fd sub"
    by (auto split: option.splits sum.splits)
  have d: "rf_Descriptor lib sub = rf_Descriptor lib (rf_Mutable lib msg fd)"
    using "3.prems"(1) sub by (rule setParts_Descriptor)
  have t: "rf_Descriptor lib (rf_Mutable lib msg fd) = types n"
    using "3.prems"(1) messageField_Message [OF fd] unfolding reflect_ok_def by blast
  have "rf_Descriptor lib msg' = rf_Descriptor lib msg" "rf_Mutable lib msg' fd = sub"
    using "3.prems"(1) d unfolding msg' reflect_ok_def by blast+
  with fd have "getParts lib get msg' (name # p # ps) = getParts lib get sub (p # ps)" by simp
  moreover from "3.IH" [OF fd refl "3.prems"(1) sub] t fd have
    "\<exists>fd tmp fresh. resolveParts quote types (rf_Descriptor lib msg) (name # p # ps) = Inr fd \<and>
      rf_Unmarshal lib (fieldDocument quote fd vs) fresh = Inr tmp \<and> getParts lib get sub (p # ps) = Some (get tmp fd)"
    by simp
  ultimately show ?case by simp
qed simp

text \<open>What the check at start-up accepts does not fail on its way to the field.\<close>

lemma setParts_resolved:
  "reflect_ok lib types get \<Longrightarrow> resolveParts quote types (rf_Descriptor lib msg) ps = Inr fd \<Longrightarrow>
    setParts lib quote msg ps vs = Inl e \<Longrightarrow>
    fd_IsMap fd \<or> (\<exists>fresh. rf_Unmarshal lib (fieldDocument quote fd vs) fresh = Inl e)"
proof (induction lib quote msg ps vs rule: setParts.induct)
  case (2 lib quote msg name vs)
  then show ?case by (auto simp: assign_def split: option.splits sum.splits if_splits)
next
  case (3 lib quote msg name p ps vs)
  then obtain fd' n where fd: "messageField (rf_Descriptor lib msg) name = Some (fd', n)"
    by (auto split: option.splits)
  have "rf_Descriptor lib (rf_Mutable lib msg fd') = types n"
    using "3.prems"(1) messageField_Message [OF fd] unfolding reflect_ok_def by blast
  with "3.IH" [OF fd refl "3.prems"(1)] "3.prems"(2,3) fd show ?case by (auto split: sum.splits)
qed simp

lemma decodeBody_Descriptor:
  assumes "reflect_ok lib types get" "decodeBody lib rt r m = Inr m'"
  shows "rf_Descriptor lib m' = rf_Descriptor lib m"
  using assms(2) assms(1) [unfolded reflect_ok_def]
  by (auto simp: decodeBody_def split: if_splits sum.splits option.splits)

lemma decodeQuery_Descriptor:
  assumes "reflect_ok lib types get"
  shows "decodeQuery lib quote q m = Inr m' \<Longrightarrow> rf_Descriptor lib m' = rf_Descriptor lib m"
  by (induction q arbitrary: m)
    (auto simp: setFieldPath_def dest: setParts_Descriptor [OF assms] split: if_splits sum.splits)

lemma decodeVars_Descriptor:
  assumes "reflect_ok lib types get"
  shows "decodeVars lib quote vs m = Inr m' \<Longrightarrow> rf_Descriptor lib m' = rf_Descriptor lib m"
  by (induction vs arbitrary: m)
    (auto simp: setFieldPath_def dest: setParts_Descriptor [OF assms] split: sum.splits)

lemma decodeVars_append:
  "decodeVars lib quote (xs @ ys) m = (case decodeVars lib quote xs m of Inl e \<Rightarrow> Inl e | Inr m' \<Rightarrow> decodeVars lib quote ys m')"
  by (induction xs arbitrary: m) (auto split: sum.split)

lemma decode_phases:
  assumes "reflect_ok lib types get" "rt_input rt = types (md_FullName (rt_input rt))"
    and "decode lib quote rt r vars = res" "decode lib quote rt r [] = Inr m2"
  shows "rf_Descriptor lib m2 = rt_input rt" "decodeVars lib quote vars m2 = res"
proof -
  from assms(4) obtain m0 m1 where m: "newMessage lib (rt_input rt) = Inr m0" "decodeBody lib rt r m0 = Inr m1"
    "decodeQuery lib quote (rq_Query r) m1 = Inr m2"
    by (auto simp: decode_def split: sum.splits)
  have "rf_Descriptor lib m0 = rt_input rt"
    using m(1) assms(1,2) by (auto simp: newMessage_def reflect_ok_def split: sum.splits)
  with m show "rf_Descriptor lib m2 = rt_input rt"
    using decodeBody_Descriptor [OF assms(1)] decodeQuery_Descriptor [OF assms(1)] by metis
  show "decodeVars lib quote vars m2 = res" using m assms(3) by (simp add: decode_def)
qed

lemma decodeQuery_system:
  "decodeQuery lib quote (filter (\<lambda>(k, _). \<not> isSystemParam k) q) m = decodeQuery lib quote q m"
  by (induction q arbitrary: m) (auto split: sum.split)

section \<open>A runtime with dynamic messages\<close>

text \<open>
  An instance of the runtime: a message is its type and the fields that are set, and the JSON
  reader takes documents with one string member, which is what \<^verbatim>\<open>assign\<close> builds for a string field.
\<close>

datatype dyn = Dyn string "(string \<times> dval) list" and dval = DStr string | DMsg dyn

definition demoMessages :: "(string \<times> messageDesc) list" where
  "demoMessages =
    [(''UpdateQueueRequest'', \<lparr>md_FullName = ''UpdateQueueRequest'', md_Fields =
       [\<lparr>fd_Name = ''queue'', fd_JSONName = ''queue'', fd_Kind = MessageKind, fd_IsList = False, fd_IsMap = False,
          fd_Message = Some ''Queue''\<rparr>,
        \<lparr>fd_Name = ''update_mask'', fd_JSONName = ''updateMask'', fd_Kind = StringKind, fd_IsList = False,
          fd_IsMap = False, fd_Message = None\<rparr>]\<rparr>),
     (''Queue'', \<lparr>md_FullName = ''Queue'', md_Fields =
       [\<lparr>fd_Name = ''name'', fd_JSONName = ''name'', fd_Kind = StringKind, fd_IsList = False, fd_IsMap = False,
          fd_Message = None\<rparr>]\<rparr>)]"

definition demoTypes :: "string \<Rightarrow> messageDesc" where
  "demoTypes n = (case map_of demoMessages n of Some d \<Rightarrow> d | None \<Rightarrow> \<lparr>md_FullName = n, md_Fields = []\<rparr>)"

fun dynGet :: "dyn \<Rightarrow> fieldDesc \<Rightarrow> dval option" where
  "dynGet (Dyn n fs) fd = gget fs (fd_Name fd)"

fun dynMutable :: "dyn \<Rightarrow> fieldDesc \<Rightarrow> dyn" where
  "dynMutable (Dyn n fs) fd =
     (let ty = (case fd_Message fd of Some t \<Rightarrow> t | None \<Rightarrow> [])
      in case gget fs (fd_Name fd) of
           Some (DMsg (Dyn t gs)) \<Rightarrow> if t = ty then Dyn t gs else Dyn ty []
         | _ \<Rightarrow> Dyn ty [])"

fun dynPut :: "dyn \<Rightarrow> fieldDesc \<Rightarrow> dval option \<Rightarrow> dyn" where
  "dynPut (Dyn n fs) fd v =
     Dyn n (case v of None \<Rightarrow> gdel (fd_Name fd) fs | Some x \<Rightarrow> gset (fd_Name fd) x fs)"

fun dynType :: "dyn \<Rightarrow> string" where
  "dynType (Dyn n fs) = n"

text \<open>Reads \<^verbatim>\<open>{"name":"value"}\<close>.\<close>

definition dynUnmarshal :: "string \<Rightarrow> dyn \<Rightarrow> string + dyn" where
  "dynUnmarshal doc m =
     (case Split (CHR 0x22) doc of
        [a, k, b, v, c] \<Rightarrow>
          if a = ''{'' \<and> b = '':'' \<and> c = ''}'' then Inr (Dyn (dynType m) [(k, DStr v)])
          else Inl ''syntax error''
      | _ \<Rightarrow> Inl ''syntax error'')"

definition demoQuote :: "string \<Rightarrow> string" where
  "demoQuote s = CHR 0x22 # s @ [CHR 0x22]"

definition demoReflect :: "dyn reflect" where
  "demoReflect = \<lparr>rf_New = (\<lambda>n. Inr (Dyn n [])), rf_Descriptor = (\<lambda>m. demoTypes (dynType m)),
     rf_Mutable = dynMutable, rf_Store = (\<lambda>m fd s. dynPut m fd (Some (DMsg s))), rf_Fresh = (\<lambda>m. Dyn (dynType m) []),
     rf_Copy = (\<lambda>m fd t. dynPut m fd (dynGet t fd)), rf_Unmarshal = dynUnmarshal,
     rf_Marshal = (\<lambda>_ m. Inr (demoQuote (dynType m)))\<rparr>"

lemma md_FullName_demoTypes: "md_FullName (demoTypes n) = n"
  by (auto simp: demoTypes_def demoMessages_def)

lemma demoTypes_eq: "demoTypes a = demoTypes b \<longleftrightarrow> a = b"
  using md_FullName_demoTypes by metis

lemma dynPut_facts: "dynType (dynPut m fd v) = dynType m" "dynGet (dynPut m fd v) fd = v"
  by (cases m; cases v; simp)+

lemma dynMutable_type: "fd_Message fd = Some n \<Longrightarrow> dynType (dynMutable m fd) = n"
  by (cases m) (auto simp: Let_def split: option.split dval.split dyn.split)

lemma dynMutable_put: "dynType s = dynType (dynMutable m fd) \<Longrightarrow> dynMutable (dynPut m fd (Some (DMsg s))) fd = s"
  by (cases m; cases s) (auto simp: Let_def split: option.splits dval.splits dyn.splits if_splits)

lemma demoReflect_ok: "reflect_ok demoReflect demoTypes dynGet"
  by (auto simp: reflect_ok_def demoReflect_def demoTypes_eq dynPut_facts dynMutable_type dynMutable_put dynUnmarshal_def
      split: list.splits if_splits)

end
