(* ===== verification/Go_Json.thy ===== *)
theory Go_Json
  imports Go_Strings
begin

text \<open>
  The output of Go's \<^verbatim>\<open>encoding/json\<close> for the values the sources marshal: strings with the
  escapes of the default encoder (HTML-safe, invalid UTF-8 replaced), booleans, integers,
  slices, structs and maps with string keys, which are written in the order of their keys.
  Also \<^verbatim>\<open>strconv.Quote\<close>, by which \<^verbatim>\<open>rest/decode.go\<close> writes JSON strings.
\<close>

datatype json = JStr string | JBool bool | JInt int | JArr "json list" | JObj "(string \<times> json) list"

definition hexLower :: "nat \<Rightarrow> char" where
  "hexLower d = (if d < 10 then char_of (48 + d) else char_of (87 + d))"

definition dquote :: char where "dquote = CHR 0x22"
definition bslash :: char where "bslash = CHR 0x5C"

text \<open>One ASCII byte inside a JSON string.\<close>

definition jsonAscii :: "nat \<Rightarrow> string" where
  "jsonAscii b =
     (if b = 34 \<or> b = 92 then [bslash, char_of b]
      else if b = 8 then [bslash, CHR ''b'']
      else if b = 12 then [bslash, CHR ''f'']
      else if b = 10 then [bslash, CHR ''n'']
      else if b = 13 then [bslash, CHR ''r'']
      else if b = 9 then [bslash, CHR ''t'']
      else if b < 32 \<or> b = 60 \<or> b = 62 \<or> b = 38
      then [bslash, CHR ''u'', CHR ''0'', CHR ''0'', hexLower (b div 16), hexLower (b mod 16)]
      else [char_of b])"

function jsonBytes :: "nat list \<Rightarrow> string" where
  "jsonBytes [] = []"
| "jsonBytes (b # bs) =
     (if b < 128 then jsonAscii b @ jsonBytes bs
      else let (r, w) = DecodeRune (b # bs)
           in (if r = RuneError \<and> w = 1 then bslash # ''ufffd''
               else if r = 8232 \<or> r = 8233 then bslash # ''u202'' @ [hexLower (r mod 16)]
               else bytes (take w (b # bs))) @ jsonBytes (drop (w - 1) bs))"
  by pat_completeness auto
termination by (relation "measure length") auto

declare jsonBytes.simps(2) [simp del]

definition jsonString :: "string \<Rightarrow> string" where
  "jsonString s = dquote # jsonBytes (map of_char s) @ [dquote]"

fun jsonText :: "json \<Rightarrow> string" where
  "jsonText (JStr s) = jsonString s"
| "jsonText (JBool b) = (if b then ''true'' else ''false'')"
| "jsonText (JInt i) = Itoa i"
| "jsonText (JArr xs) = ''['' @ Join '','' (map jsonText xs) @ '']''"
| "jsonText (JObj ms) = ''{'' @ Join '','' (map (\<lambda>(k, v). jsonString k @ '':'' @ jsonText v) ms) @ ''}''"

text \<open>A Go map, whose members the encoder sorts by key.\<close>

definition jsonMap :: "(string \<times> json) list \<Rightarrow> json" where
  "jsonMap ms = JObj (sort_key fst ms)"

end
