(* ===== verification/Conv.thy ===== *)
theory Conv
  imports Engine_Inv
begin

text \<open>
  \<^verbatim>\<open>emulator/conv.go\<close> and the messages the two gRPC adapters convert. A message of the
  generated \<^verbatim>\<open>cloudtaskspb\<close> packages is a record of the fields the adapters read or write; a
  message field that may be absent is an option, and a oneof a datatype. The two API versions have
  the same messages for requests, routing, tokens, attempts, limits and retry settings, which
  are shared here. Timestamps and durations are protobuf's, whose conversions
  (\<^verbatim>\<open>AsTime\<close>, \<^verbatim>\<open>timestamppb.New\<close>, \<^verbatim>\<open>AsDuration\<close>, \<^verbatim>\<open>durationpb.New\<close>) are the parameter
  \<^verbatim>\<open>pblib\<close>.
\<close>

section \<open>Messages\<close>

record pbTimestamp =
  pts_Seconds :: int64
  pts_Nanos :: int32

record pbDuration =
  pdu_Seconds :: int64
  pdu_Nanos :: int32

record pblib =
  pb_AsTime :: "pbTimestamp \<Rightarrow> time"
  pb_NewTs :: "time \<Rightarrow> pbTimestamp"
  pb_AsDuration :: "pbDuration \<Rightarrow> duration"
  pb_NewDur :: "duration \<Rightarrow> pbDuration"

text \<open>What the adapters rely on: a value that was put into a message is read back.\<close>

definition pb_exact :: "pblib \<Rightarrow> bool" where
  "pb_exact pb \<longleftrightarrow> (\<forall>t. pb_AsTime pb (pb_NewTs pb t) = t) \<and>
     (\<forall>d. in_int64 d \<longrightarrow> pb_AsDuration pb (pb_NewDur pb d) = d)"

datatype pbQueueState = Queue_STATE_UNSPECIFIED | Queue_RUNNING | Queue_PAUSED | Queue_DISABLED

datatype pbView = Task_VIEW_UNSPECIFIED | Task_BASIC | Task_FULL

datatype pbAuth = OidcToken (pba_email: string) (pba_audience: string) | OauthToken string string

record pbRouting =
  prt_Service :: string
  prt_Version :: string
  prt_Instance :: string
  prt_Host :: string

record pbHttpRequest =
  phr_Url :: string
  phr_HttpMethod :: int32
  phr_Headers :: "(string, string) gomap"
  phr_Body :: string
  phr_AuthorizationHeader :: "pbAuth option"

record pbAppEngineHttpRequest =
  par_HttpMethod :: int32
  par_AppEngineRouting :: "pbRouting option"
  par_RelativeUri :: string
  par_Headers :: "(string, string) gomap"
  par_Body :: string

record pbStatus =
  pst_Code :: int32
  pst_Message :: string

record pbAttempt =
  pat_ScheduleTime :: "pbTimestamp option"
  pat_DispatchTime :: "pbTimestamp option"
  pat_ResponseTime :: "pbTimestamp option"
  pat_ResponseStatus :: "pbStatus option"

record pbRateLimits =
  prl_MaxDispatchesPerSecond :: float64
  prl_MaxBurstSize :: int32
  prl_MaxConcurrentDispatches :: int32

record pbRetryConfig =
  prc_MaxAttempts :: int32
  prc_MaxRetryDuration :: "pbDuration option"
  prc_MinBackoff :: "pbDuration option"
  prc_MaxBackoff :: "pbDuration option"
  prc_MaxDoublings :: int32

section \<open>Conversions\<close>

definition httpMethodName :: "int32 \<Rightarrow> string" where
  "httpMethodName m =
     (if m = 2 then ''GET'' else if m = 3 then ''HEAD'' else if m = 4 then ''PUT''
      else if m = 5 then ''DELETE'' else if m = 6 then ''PATCH'' else if m = 7 then ''OPTIONS''
      else ''POST'')"

definition httpMethodEnum :: "string \<Rightarrow> int32" where
  "httpMethodEnum name =
     (if name = ''GET'' then 2 else if name = ''HEAD'' then 3 else if name = ''PUT'' then 4
      else if name = ''DELETE'' then 5 else if name = ''PATCH'' then 6 else if name = ''OPTIONS'' then 7
      else 1)"

definition rpcStatus :: "int32 \<Rightarrow> string \<Rightarrow> pbStatus" where
  "rpcStatus code message =
     (if code = 0 then \<lparr>pst_Code = 0, pst_Message = []\<rparr> else \<lparr>pst_Code = code, pst_Message = message\<rparr>)"

definition tsToTime :: "pblib \<Rightarrow> pbTimestamp option \<Rightarrow> time" where
  "tsToTime pb ts = (case ts of None \<Rightarrow> zeroTime | Some x \<Rightarrow> pb_AsTime pb x)"

definition timeToTs :: "pblib \<Rightarrow> time \<Rightarrow> pbTimestamp option" where
  "timeToTs pb t = (if IsZero t then None else Some (pb_NewTs pb t))"

definition durToDuration :: "pblib \<Rightarrow> pbDuration option \<Rightarrow> duration" where
  "durToDuration pb d = (case d of None \<Rightarrow> 0 | Some x \<Rightarrow> pb_AsDuration pb x)"

definition durationToDur :: "pblib \<Rightarrow> duration \<Rightarrow> pbDuration option" where
  "durationToDur pb d = (if d = 0 then None else Some (pb_NewDur pb d))"

section \<open>Round trips\<close>

lemma time_roundtrip: "pb_exact pb \<Longrightarrow> tsToTime pb (timeToTs pb t) = t"
  by (simp add: tsToTime_def timeToTs_def pb_exact_def IsZero_def)

lemma duration_roundtrip: "pb_exact pb \<Longrightarrow> in_int64 d \<Longrightarrow> durToDuration pb (durationToDur pb d) = d"
  by (simp add: durToDuration_def durationToDur_def pb_exact_def)

lemma httpMethodName_Enum [simp]: "httpMethodName (httpMethodEnum (httpMethodName m)) = httpMethodName m"
  by (simp add: httpMethodName_def httpMethodEnum_def)

lemma httpMethodEnum_Name: "httpMethodEnum (httpMethodName m) = (if 1 \<le> m \<and> m \<le> 7 then m else 1)"
  by (auto simp: httpMethodName_def httpMethodEnum_def)

text \<open>A library whose conversions are exact, for concrete instances.\<close>

definition demoPb :: pblib where
  "demoPb = \<lparr>pb_AsTime = (\<lambda>x. pts_Seconds x * 1000000000 + pts_Nanos x),
     pb_NewTs = (\<lambda>t. \<lparr>pts_Seconds = t div 1000000000, pts_Nanos = t mod 1000000000\<rparr>),
     pb_AsDuration = (\<lambda>x. pdu_Seconds x * 1000000000 + pdu_Nanos x),
     pb_NewDur = (\<lambda>d. \<lparr>pdu_Seconds = d div 1000000000, pdu_Nanos = d mod 1000000000\<rparr>)\<rparr>"

lemma demoPb_exact: "pb_exact demoPb"
  by (simp add: pb_exact_def demoPb_def)

end
