(* ===== verification/V2.thy ===== *)
theory V2
  imports Conv
begin

text \<open>
  \<^verbatim>\<open>emulator/v2.go\<close>: the \<^verbatim>\<open>google.cloud.tasks.v2\<close> adapter. Every handler converts the request,
  calls one engine operation and converts its result; a request message is passed as the
  fields the handler reads from it.
\<close>

section \<open>Messages\<close>

datatype v2MessageType =
    Task_HttpRequest pbHttpRequest
  | Task_AppEngineHttpRequest pbAppEngineHttpRequest

record v2Task =
  v2t_Name :: string
  v2t_MessageType :: "v2MessageType option"
  v2t_ScheduleTime :: "pbTimestamp option"
  v2t_CreateTime :: "pbTimestamp option"
  v2t_DispatchDeadline :: "pbDuration option"
  v2t_DispatchCount :: int32
  v2t_ResponseCount :: int32
  v2t_FirstAttempt :: "pbAttempt option"
  v2t_LastAttempt :: "pbAttempt option"
  v2t_View :: pbView

record v2Queue =
  v2q_Name :: string
  v2q_AppEngineRoutingOverride :: "pbRouting option"
  v2q_RateLimits :: "pbRateLimits option"
  v2q_RetryConfig :: "pbRetryConfig option"
  v2q_State :: pbQueueState
  v2q_PurgeTime :: "pbTimestamp option"

section \<open>Conversions\<close>

fun v2StateToCore :: "pbQueueState \<Rightarrow> State" where
  "v2StateToCore Queue_PAUSED = StatePaused"
| "v2StateToCore Queue_DISABLED = StateDisabled"
| "v2StateToCore _ = StateRunning"

fun v2StateFromCore :: "State \<Rightarrow> pbQueueState" where
  "v2StateFromCore StatePaused = Queue_PAUSED"
| "v2StateFromCore StateDisabled = Queue_DISABLED"
| "v2StateFromCore StateRunning = Queue_RUNNING"

definition v2RoutingToCore :: "pbRouting option \<Rightarrow> AppEngineRouting option" where
  "v2RoutingToCore rp =
     (case rp of None \<Rightarrow> None
      | Some r \<Rightarrow> Some \<lparr>aer_Service = prt_Service r, aer_Version = prt_Version r,
                      aer_Instance = prt_Instance r, aer_Host = prt_Host r\<rparr>)"

definition v2RoutingFromCore :: "AppEngineRouting option \<Rightarrow> pbRouting option" where
  "v2RoutingFromCore rp =
     (case rp of None \<Rightarrow> None
      | Some r \<Rightarrow> Some \<lparr>prt_Service = aer_Service r, prt_Version = aer_Version r,
                      prt_Instance = aer_Instance r, prt_Host = aer_Host r\<rparr>)"

definition v2AuthFromHTTP :: "pbHttpRequest \<Rightarrow> Auth option" where
  "v2AuthFromHTTP r =
     (case phr_AuthorizationHeader r of
        Some (OidcToken email aud) \<Rightarrow>
          Some \<lparr>auth_Kind = AuthOIDC, auth_ServiceAccountEmail = email, auth_Audience = aud, auth_Scope = []\<rparr>
      | Some (OauthToken email scope) \<Rightarrow>
          Some \<lparr>auth_Kind = AuthOAuth, auth_ServiceAccountEmail = email, auth_Audience = [], auth_Scope = scope\<rparr>
      | None \<Rightarrow> None)"

definition v2ApplyAuth :: "pbHttpRequest \<Rightarrow> Auth option \<Rightarrow> pbHttpRequest" where
  "v2ApplyAuth r ap =
     (case ap of None \<Rightarrow> r
      | Some a \<Rightarrow>
          (case auth_Kind a of
             AuthOIDC \<Rightarrow> r\<lparr>phr_AuthorizationHeader :=
                 Some (OidcToken (auth_ServiceAccountEmail a) (auth_Audience a))\<rparr>
           | AuthOAuth \<Rightarrow> r\<lparr>phr_AuthorizationHeader :=
                 Some (OauthToken (auth_ServiceAccountEmail a) (auth_Scope a))\<rparr>
           | AuthNone \<Rightarrow> r))"

definition v2MethodName :: "int32 \<Rightarrow> string" where
  "v2MethodName m = httpMethodName m"

definition v2Method :: "string \<Rightarrow> int32" where
  "v2Method name = httpMethodEnum name"

definition v2QueueToCore :: "pblib \<Rightarrow> v2Queue option \<Rightarrow> Queue option" where
  "v2QueueToCore pb qp =
     (case qp of None \<Rightarrow> None
      | Some q \<Rightarrow>
          let c = zeroQueue\<lparr>q_Name := v2q_Name q, q_State := v2StateToCore (v2q_State q),
                    q_AppEngineRoutingOverride := v2RoutingToCore (v2q_AppEngineRoutingOverride q)\<rparr>;
              c1 = (case v2q_RateLimits q of None \<Rightarrow> c
                    | Some rl \<Rightarrow> c\<lparr>q_RateLimits := zeroRateLimits\<lparr>
                        rl_MaxDispatchesPerSecond := prl_MaxDispatchesPerSecond rl,
                        rl_MaxConcurrentDispatches := prl_MaxConcurrentDispatches rl\<rparr>\<rparr>)
          in Some (case v2q_RetryConfig q of None \<Rightarrow> c1
                   | Some rc \<Rightarrow> c1\<lparr>q_RetryConfig := \<lparr>rc_MaxAttempts = prc_MaxAttempts rc,
                       rc_MaxRetryDuration = durToDuration pb (prc_MaxRetryDuration rc),
                       rc_MinBackoff = durToDuration pb (prc_MinBackoff rc),
                       rc_MaxBackoff = durToDuration pb (prc_MaxBackoff rc),
                       rc_MaxDoublings = prc_MaxDoublings rc\<rparr>\<rparr>))"

definition v2QueueFromCore :: "pblib \<Rightarrow> Queue \<Rightarrow> v2Queue" where
  "v2QueueFromCore pb q =
     \<lparr>v2q_Name = q_Name q,
      v2q_AppEngineRoutingOverride = v2RoutingFromCore (q_AppEngineRoutingOverride q),
      v2q_RateLimits = Some \<lparr>prl_MaxDispatchesPerSecond = rl_MaxDispatchesPerSecond (q_RateLimits q),
         prl_MaxBurstSize = rl_MaxBurstSize (q_RateLimits q),
         prl_MaxConcurrentDispatches = rl_MaxConcurrentDispatches (q_RateLimits q)\<rparr>,
      v2q_RetryConfig = Some \<lparr>prc_MaxAttempts = rc_MaxAttempts (q_RetryConfig q),
         prc_MaxRetryDuration = durationToDur pb (rc_MaxRetryDuration (q_RetryConfig q)),
         prc_MinBackoff = durationToDur pb (rc_MinBackoff (q_RetryConfig q)),
         prc_MaxBackoff = durationToDur pb (rc_MaxBackoff (q_RetryConfig q)),
         prc_MaxDoublings = rc_MaxDoublings (q_RetryConfig q)\<rparr>,
      v2q_State = v2StateFromCore (q_State q),
      v2q_PurgeTime = timeToTs pb (q_PurgeTime q)\<rparr>"

definition v2QueueFields :: "string list \<Rightarrow> QueueField list" where
  "v2QueueFields paths =
     List.map_filter (\<lambda>p. if p = ''rate_limits'' then Some FieldRateLimits
        else if p = ''retry_config'' then Some FieldRetryConfig
        else if p = ''app_engine_routing_override'' then Some FieldAppEngineRoutingOverride
        else None) paths"

definition v2TaskToCore :: "pblib \<Rightarrow> v2Task option \<Rightarrow> Task option" where
  "v2TaskToCore pb tp =
     (case tp of None \<Rightarrow> None
      | Some t \<Rightarrow>
          let ct = zeroTask\<lparr>t_Name := v2t_Name t, t_ScheduleTime := tsToTime pb (v2t_ScheduleTime t),
                     t_DispatchDeadline := durToDuration pb (v2t_DispatchDeadline t)\<rparr>
          in Some (case v2t_MessageType t of
               Some (Task_HttpRequest r) \<Rightarrow>
                 ct\<lparr>t_Target := zeroTarget\<lparr>tg_Type := TargetHTTP, tg_Method := v2MethodName (phr_HttpMethod r),
                      tg_URL := phr_Url r, tg_Headers := phr_Headers r, tg_Body := phr_Body r,
                      tg_Auth := v2AuthFromHTTP r\<rparr>\<rparr>
             | Some (Task_AppEngineHttpRequest r) \<Rightarrow>
                 ct\<lparr>t_Target := zeroTarget\<lparr>tg_Type := TargetAppEngine, tg_Method := v2MethodName (par_HttpMethod r),
                      tg_RelativeURI := par_RelativeUri r, tg_Headers := par_Headers r, tg_Body := par_Body r,
                      tg_AppEngineRouting := v2RoutingToCore (par_AppEngineRouting r)\<rparr>\<rparr>
             | None \<Rightarrow> ct))"

definition viewOrBasic :: "pbView \<Rightarrow> pbView" where
  "viewOrBasic v = (if v = Task_FULL then Task_FULL else Task_BASIC)"

definition v2AttemptFromCore :: "pblib \<Rightarrow> Attempt option \<Rightarrow> pbAttempt option" where
  "v2AttemptFromCore pb ap =
     (case ap of None \<Rightarrow> None
      | Some a \<Rightarrow> Some \<lparr>pat_ScheduleTime = timeToTs pb (att_ScheduleTime a),
          pat_DispatchTime = timeToTs pb (att_DispatchTime a),
          pat_ResponseTime = timeToTs pb (att_ResponseTime a),
          pat_ResponseStatus = (if \<not> IsZero (att_ResponseTime a)
             then Some (rpcStatus (att_Code a) (att_Message a)) else None)\<rparr>)"

definition v2TaskFromCore :: "pblib \<Rightarrow> Task \<Rightarrow> pbView \<Rightarrow> v2Task" where
  "v2TaskFromCore pb t view =
     \<lparr>v2t_Name = t_Name t,
      v2t_MessageType =
        (let tg = t_Target t; full = (view = Task_FULL) in
         case tg_Type tg of
           TargetHTTP \<Rightarrow>
             Some (Task_HttpRequest (v2ApplyAuth
               \<lparr>phr_Url = tg_URL tg, phr_HttpMethod = v2Method (tg_Method tg), phr_Headers = tg_Headers tg,
                phr_Body = tg_Body tg, phr_AuthorizationHeader = None\<rparr> (tg_Auth tg)))
         | TargetAppEngine \<Rightarrow>
             Some (Task_AppEngineHttpRequest
               \<lparr>par_HttpMethod = v2Method (tg_Method tg),
                par_AppEngineRouting = v2RoutingFromCore (tg_AppEngineRouting tg),
                par_RelativeUri = tg_RelativeURI tg, par_Headers = tg_Headers tg,
                par_Body = (if \<not> full then [] else tg_Body tg)\<rparr>)
         | _ \<Rightarrow> None),
      v2t_ScheduleTime = timeToTs pb (t_ScheduleTime t),
      v2t_CreateTime = timeToTs pb (t_CreateTime t),
      v2t_DispatchDeadline = durationToDur pb (t_DispatchDeadline t),
      v2t_DispatchCount = t_DispatchCount t, v2t_ResponseCount = t_ResponseCount t,
      v2t_FirstAttempt = v2AttemptFromCore pb (t_FirstAttempt t),
      v2t_LastAttempt = v2AttemptFromCore pb (t_LastAttempt t),
      v2t_View = viewOrBasic view\<rparr>"

section \<open>Handlers\<close>

definition mapResult :: "('a \<Rightarrow> 'b) \<Rightarrow> 'a result \<Rightarrow> 'b result" where
  "mapResult f r = (case r of Inl err \<Rightarrow> Inl err | Inr x \<Rightarrow> Inr (f x))"

definition v2ListQueues :: "pblib \<Rightarrow> string \<Rightarrow> int32 \<Rightarrow> string \<Rightarrow> 'p Engine \<Rightarrow> (v2Queue list \<times> string) result" where
  "v2ListQueues pb parent pageSize pageToken e =
     mapResult (\<lambda>(qs, next). (map (v2QueueFromCore pb) qs, next)) (ListQueues parent pageSize pageToken e)"

definition v2GetQueue :: "pblib \<Rightarrow> string \<Rightarrow> 'p Engine \<Rightarrow> v2Queue result" where
  "v2GetQueue pb name e = mapResult (v2QueueFromCore pb) (GetQueue name e)"

definition v2CreateQueue :: "pblib \<Rightarrow> string \<Rightarrow> v2Queue option \<Rightarrow> 'p Engine \<Rightarrow> 'p Engine \<times> v2Queue result" where
  "v2CreateQueue pb parent q e =
     (let (e', r) = CreateQueue parent (v2QueueToCore pb q) e in (e', mapResult (v2QueueFromCore pb) r))"

definition v2UpdateQueue :: "pblib \<Rightarrow> v2Queue option \<Rightarrow> string list \<Rightarrow> 'p Engine \<Rightarrow> 'p Engine \<times> v2Queue result" where
  "v2UpdateQueue pb q paths e =
     (let (e', r) = UpdateQueue (v2QueueToCore pb q) (v2QueueFields paths) e
      in (e', mapResult (v2QueueFromCore pb) r))"

definition v2DeleteQueue :: "string \<Rightarrow> 'p Engine \<Rightarrow> 'p Engine \<times> unit result" where
  "v2DeleteQueue name e = DeleteQueue name e"

definition v2PurgeQueue :: "pblib \<Rightarrow> time \<Rightarrow> string \<Rightarrow> 'p Engine \<Rightarrow> 'p Engine \<times> v2Queue result" where
  "v2PurgeQueue pb now name e =
     (let (e', r) = PurgeQueue now name e in (e', mapResult (v2QueueFromCore pb) r))"

definition v2PauseQueue :: "pblib \<Rightarrow> string \<Rightarrow> 'p Engine \<Rightarrow> 'p Engine \<times> v2Queue result" where
  "v2PauseQueue pb name e =
     (let (e', r) = SetQueueState name StatePaused e in (e', mapResult (v2QueueFromCore pb) r))"

definition v2ResumeQueue :: "pblib \<Rightarrow> string \<Rightarrow> 'p Engine \<Rightarrow> 'p Engine \<times> v2Queue result" where
  "v2ResumeQueue pb name e =
     (let (e', r) = SetQueueState name StateRunning e in (e', mapResult (v2QueueFromCore pb) r))"

definition v2ListTasks ::
  "pblib \<Rightarrow> string \<Rightarrow> int32 \<Rightarrow> string \<Rightarrow> pbView \<Rightarrow> 'p Engine \<Rightarrow> (v2Task list \<times> string) result" where
  "v2ListTasks pb parent pageSize pageToken view e =
     mapResult (\<lambda>(ts, next). (map (\<lambda>t. v2TaskFromCore pb t view) ts, next)) (ListTasks parent pageSize pageToken e)"

definition v2GetTask :: "pblib \<Rightarrow> string \<Rightarrow> pbView \<Rightarrow> 'p Engine \<Rightarrow> v2Task result" where
  "v2GetTask pb name view e = mapResult (\<lambda>t. v2TaskFromCore pb t view) (GetTask name e)"

definition v2CreateTask ::
  "pblib \<Rightarrow> (nat \<Rightarrow> time) \<Rightarrow> string \<Rightarrow> v2Task option \<Rightarrow> pbView \<Rightarrow> 'p Engine \<Rightarrow> 'p Engine \<times> v2Task result" where
  "v2CreateTask pb clk parent t view e =
     (let (e', r) = CreateTask clk parent (v2TaskToCore pb t) e
      in (e', mapResult (\<lambda>t. v2TaskFromCore pb t view) r))"

definition v2DeleteTask :: "time \<Rightarrow> string \<Rightarrow> 'p Engine \<Rightarrow> 'p Engine \<times> unit result" where
  "v2DeleteTask now name e = DeleteTask now name e"

definition v2RunTask ::
  "pblib \<Rightarrow> menv \<Rightarrow> client \<Rightarrow> (nat \<Rightarrow> time) \<Rightarrow> string \<Rightarrow> pbView \<Rightarrow> 'p Engine \<Rightarrow> 'p Engine \<times> v2Task result" where
  "v2RunTask pb env client clk name view e =
     (let (e', r) = RunTask (me_oob env) (me_gl env) (me_token env) client clk name e
      in (e', mapResult (\<lambda>t. v2TaskFromCore pb t view) r))"

definition v2GetIamPolicy :: "'p \<Rightarrow> string \<Rightarrow> 'p Engine \<Rightarrow> 'p result" where
  "v2GetIamPolicy emptyPolicy resource e = GetIamPolicy emptyPolicy resource e"

definition v2SetIamPolicy :: "'p \<Rightarrow> string \<Rightarrow> 'p option \<Rightarrow> 'p Engine \<Rightarrow> 'p Engine \<times> 'p result" where
  "v2SetIamPolicy emptyPolicy resource policy e = SetIamPolicy emptyPolicy resource policy e"

definition v2TestIamPermissions :: "string \<Rightarrow> string list \<Rightarrow> 'p Engine \<Rightarrow> string list result" where
  "v2TestIamPermissions resource permissions e = TestIamPermissions resource permissions e"

end
