(* ===== verification/V2beta3.thy ===== *)
theory V2beta3
  imports V2
begin

text \<open>
  \<^verbatim>\<open>emulator/v2beta3.go\<close>: the \<^verbatim>\<open>google.cloud.tasks.v2beta3\<close> adapter, which adds pull queues
  and pull tasks, queue lifetimes and the queue-level HTTP target override.
\<close>

section \<open>Messages\<close>

datatype v2beta3PayloadType =
    Beta_HttpRequest pbHttpRequest
  | Beta_AppEngineHttpRequest pbAppEngineHttpRequest
  | Beta_PullMessage (pm_Payload: string) (pm_Tag: string)

record v2beta3Task =
  b3t_Name :: string
  b3t_PayloadType :: "v2beta3PayloadType option"
  b3t_ScheduleTime :: "pbTimestamp option"
  b3t_CreateTime :: "pbTimestamp option"
  b3t_DispatchDeadline :: "pbDuration option"
  b3t_DispatchCount :: int32
  b3t_ResponseCount :: int32
  b3t_FirstAttempt :: "pbAttempt option"
  b3t_LastAttempt :: "pbAttempt option"
  b3t_View :: pbView

datatype pbScheme = UriOverride_SCHEME_UNSPECIFIED | UriOverride_HTTP | UriOverride_HTTPS

datatype pbEnforceMode = UriOverride_MODE_UNSPECIFIED | UriOverride_IF_NOT_EXISTS | UriOverride_ALWAYS

text \<open>\<^verbatim>\<open>Scheme\<close>, \<^verbatim>\<open>Host\<close> and \<^verbatim>\<open>Port\<close> are optional fields; the path and query overrides are messages.\<close>

record pbUriOverride =
  puo_Scheme :: "pbScheme option"
  puo_Host :: "string option"
  puo_Port :: "int64 option"
  puo_PathOverride :: "string option"
  puo_QueryOverride :: "string option"
  puo_UriOverrideEnforceMode :: pbEnforceMode

record pbHttpTarget =
  pht_UriOverride :: "pbUriOverride option"
  pht_HttpMethod :: int32
  pht_HeaderOverrides :: "(string \<times> string) list"
  pht_AuthorizationHeader :: "pbAuth option"

datatype pbQueueType = Queue_TYPE_UNSPECIFIED | Queue_PULL | Queue_PUSH

text \<open>The \<^verbatim>\<open>AppEngineHttpQueue\<close> message holds only its routing override.\<close>

record v2beta3Queue =
  b3q_Name :: string
  b3q_AppEngineHttpQueue :: "pbRouting option option"
  b3q_HttpTarget :: "pbHttpTarget option"
  b3q_RateLimits :: "pbRateLimits option"
  b3q_RetryConfig :: "pbRetryConfig option"
  b3q_State :: pbQueueState
  b3q_PurgeTime :: "pbTimestamp option"
  b3q_TaskTtl :: "pbDuration option"
  b3q_TombstoneTtl :: "pbDuration option"
  b3q_Type :: pbQueueType
  b3q_StatsTasksCount :: "int64 option"

section \<open>Conversions\<close>

fun v2beta3StateToCore :: "pbQueueState \<Rightarrow> State" where
  "v2beta3StateToCore Queue_PAUSED = StatePaused"
| "v2beta3StateToCore Queue_DISABLED = StateDisabled"
| "v2beta3StateToCore _ = StateRunning"

fun v2beta3StateFromCore :: "State \<Rightarrow> pbQueueState" where
  "v2beta3StateFromCore StatePaused = Queue_PAUSED"
| "v2beta3StateFromCore StateDisabled = Queue_DISABLED"
| "v2beta3StateFromCore StateRunning = Queue_RUNNING"

definition v2beta3RoutingToCore :: "pbRouting option \<Rightarrow> AppEngineRouting option" where
  "v2beta3RoutingToCore rp =
     (case rp of None \<Rightarrow> None
      | Some r \<Rightarrow> Some \<lparr>aer_Service = prt_Service r, aer_Version = prt_Version r,
                      aer_Instance = prt_Instance r, aer_Host = prt_Host r\<rparr>)"

definition v2beta3RoutingFromCore :: "AppEngineRouting option \<Rightarrow> pbRouting option" where
  "v2beta3RoutingFromCore rp =
     (case rp of None \<Rightarrow> None
      | Some r \<Rightarrow> Some \<lparr>prt_Service = aer_Service r, prt_Version = aer_Version r,
                      prt_Instance = aer_Instance r, prt_Host = aer_Host r\<rparr>)"

definition v2beta3AuthFromHTTP :: "pbHttpRequest \<Rightarrow> Auth option" where
  "v2beta3AuthFromHTTP r =
     (case phr_AuthorizationHeader r of
        Some (OidcToken email aud) \<Rightarrow>
          Some \<lparr>auth_Kind = AuthOIDC, auth_ServiceAccountEmail = email, auth_Audience = aud, auth_Scope = []\<rparr>
      | Some (OauthToken email scope) \<Rightarrow>
          Some \<lparr>auth_Kind = AuthOAuth, auth_ServiceAccountEmail = email, auth_Audience = [], auth_Scope = scope\<rparr>
      | None \<Rightarrow> None)"

definition v2beta3AuthFromHTTPTarget :: "pbHttpTarget \<Rightarrow> Auth option" where
  "v2beta3AuthFromHTTPTarget h =
     (case pht_AuthorizationHeader h of
        Some (OidcToken email aud) \<Rightarrow>
          Some \<lparr>auth_Kind = AuthOIDC, auth_ServiceAccountEmail = email, auth_Audience = aud, auth_Scope = []\<rparr>
      | Some (OauthToken email scope) \<Rightarrow>
          Some \<lparr>auth_Kind = AuthOAuth, auth_ServiceAccountEmail = email, auth_Audience = [], auth_Scope = scope\<rparr>
      | None \<Rightarrow> None)"

definition v2beta3ApplyAuth :: "pbHttpRequest \<Rightarrow> Auth option \<Rightarrow> pbHttpRequest" where
  "v2beta3ApplyAuth r ap =
     (case ap of None \<Rightarrow> r
      | Some a \<Rightarrow>
          (case auth_Kind a of
             AuthOIDC \<Rightarrow> r\<lparr>phr_AuthorizationHeader :=
                 Some (OidcToken (auth_ServiceAccountEmail a) (auth_Audience a))\<rparr>
           | AuthOAuth \<Rightarrow> r\<lparr>phr_AuthorizationHeader :=
                 Some (OauthToken (auth_ServiceAccountEmail a) (auth_Scope a))\<rparr>
           | AuthNone \<Rightarrow> r))"

definition v2beta3ViewOrBasic :: "pbView \<Rightarrow> pbView" where
  "v2beta3ViewOrBasic v = (if v = Task_FULL then Task_FULL else Task_BASIC)"

definition v2beta3AttemptFromCore :: "pblib \<Rightarrow> Attempt option \<Rightarrow> pbAttempt option" where
  "v2beta3AttemptFromCore pb ap =
     (case ap of None \<Rightarrow> None
      | Some a \<Rightarrow> Some \<lparr>pat_ScheduleTime = timeToTs pb (att_ScheduleTime a),
          pat_DispatchTime = timeToTs pb (att_DispatchTime a),
          pat_ResponseTime = timeToTs pb (att_ResponseTime a),
          pat_ResponseStatus = (if \<not> IsZero (att_ResponseTime a)
             then Some (rpcStatus (att_Code a) (att_Message a)) else None)\<rparr>)"

definition v2beta3HTTPOverrideToCore :: "pbHttpTarget option \<Rightarrow> HTTPOverride option" where
  "v2beta3HTTPOverrideToCore hp =
     (case hp of None \<Rightarrow> None
      | Some h \<Rightarrow>
          let o0 = (if pht_HttpMethod h \<noteq> 0
                    then zeroHTTPOverride\<lparr>ov_Method := httpMethodName (pht_HttpMethod h)\<rparr> else zeroHTTPOverride);
              o1 = (case pht_UriOverride h of None \<Rightarrow> o0
                    | Some uo \<Rightarrow>
                        o0\<lparr>ov_Scheme := (case puo_Scheme uo of
                               Some UriOverride_HTTP \<Rightarrow> ''http'' | Some UriOverride_HTTPS \<Rightarrow> ''https'' | _ \<Rightarrow> []),
                           ov_Host := (case puo_Host uo of Some x \<Rightarrow> x | None \<Rightarrow> []),
                           ov_Port := (case puo_Port uo of Some p \<Rightarrow> Itoa p | None \<Rightarrow> []),
                           ov_Path := (case puo_PathOverride uo of Some x \<Rightarrow> x | None \<Rightarrow> []),
                           ov_Query := (case puo_QueryOverride uo of Some x \<Rightarrow> x | None \<Rightarrow> []),
                           ov_AlwaysEnforce := (puo_UriOverrideEnforceMode uo = UriOverride_ALWAYS)\<rparr>)
          in Some (o1\<lparr>ov_Headers := fold (\<lambda>(k, v) m. gset k v m) (pht_HeaderOverrides h) [],
                      ov_Auth := v2beta3AuthFromHTTPTarget h\<rparr>))"

text \<open>
  The URI override is only sent when some part of it is set or it is always enforced. A port
  that is not a decimal \<^verbatim>\<open>int64\<close> is dropped.
\<close>

definition uriOverrideFromCore :: "HTTPOverride \<Rightarrow> pbUriOverride" where
  "uriOverrideFromCore ov =
     \<lparr>puo_Scheme = (if ov_Scheme ov = ''http'' then Some UriOverride_HTTP
                   else if ov_Scheme ov = ''https'' then Some UriOverride_HTTPS else None),
      puo_Host = (if ov_Host ov \<noteq> [] then Some (ov_Host ov) else None),
      puo_Port = (if ov_Port ov \<noteq> [] then Atoi (ov_Port ov) else None),
      puo_PathOverride = (if ov_Path ov \<noteq> [] then Some (ov_Path ov) else None),
      puo_QueryOverride = (if ov_Query ov \<noteq> [] then Some (ov_Query ov) else None),
      puo_UriOverrideEnforceMode =
        (if ov_AlwaysEnforce ov then UriOverride_ALWAYS else UriOverride_MODE_UNSPECIFIED)\<rparr>"

definition v2beta3HTTPOverrideFromCore :: "HTTPOverride \<Rightarrow> pbHttpTarget" where
  "v2beta3HTTPOverrideFromCore ov =
     (let uo = uriOverrideFromCore ov;
          hasURI = (puo_Scheme uo \<noteq> None \<or> puo_Host uo \<noteq> None \<or> puo_Port uo \<noteq> None \<or>
                    puo_PathOverride uo \<noteq> None \<or> puo_QueryOverride uo \<noteq> None)
      in \<lparr>pht_UriOverride = (if hasURI \<or> ov_AlwaysEnforce ov then Some uo else None),
          pht_HttpMethod = (if ov_Method ov \<noteq> [] then httpMethodEnum (ov_Method ov) else 0),
          pht_HeaderOverrides = ov_Headers ov,
          pht_AuthorizationHeader =
            (case ov_Auth ov of None \<Rightarrow> None
             | Some a \<Rightarrow>
                 (case auth_Kind a of
                    AuthOIDC \<Rightarrow> Some (OidcToken (auth_ServiceAccountEmail a) (auth_Audience a))
                  | AuthOAuth \<Rightarrow> Some (OauthToken (auth_ServiceAccountEmail a) (auth_Scope a))
                  | AuthNone \<Rightarrow> None))\<rparr>)"

definition v2beta3QueueToCore :: "pblib \<Rightarrow> v2beta3Queue option \<Rightarrow> Queue option" where
  "v2beta3QueueToCore pb qp =
     (case qp of None \<Rightarrow> None
      | Some q \<Rightarrow>
          let c = zeroQueue\<lparr>q_Name := b3q_Name q, q_State := v2beta3StateToCore (b3q_State q),
                    q_TaskTTL := durToDuration pb (b3q_TaskTtl q),
                    q_TombstoneTTL := durToDuration pb (b3q_TombstoneTtl q),
                    q_Pull := (b3q_Type q = Queue_PULL)\<rparr>;
              c1 = (case b3q_RateLimits q of None \<Rightarrow> c
                    | Some rl \<Rightarrow> c\<lparr>q_RateLimits := zeroRateLimits\<lparr>
                        rl_MaxDispatchesPerSecond := prl_MaxDispatchesPerSecond rl,
                        rl_MaxConcurrentDispatches := prl_MaxConcurrentDispatches rl\<rparr>\<rparr>);
              c2 = (case b3q_RetryConfig q of None \<Rightarrow> c1
                    | Some rc \<Rightarrow> c1\<lparr>q_RetryConfig := \<lparr>rc_MaxAttempts = prc_MaxAttempts rc,
                        rc_MaxRetryDuration = durToDuration pb (prc_MaxRetryDuration rc),
                        rc_MinBackoff = durToDuration pb (prc_MinBackoff rc),
                        rc_MaxBackoff = durToDuration pb (prc_MaxBackoff rc),
                        rc_MaxDoublings = prc_MaxDoublings rc\<rparr>\<rparr>);
              c3 = (case b3q_AppEngineHttpQueue q of None \<Rightarrow> c2
                    | Some aeq \<Rightarrow> c2\<lparr>q_AppEngineRoutingOverride := v2beta3RoutingToCore aeq\<rparr>)
          in Some (c3\<lparr>q_HTTPOverride := v2beta3HTTPOverrideToCore (b3q_HttpTarget q)\<rparr>))"

definition v2beta3QueueFromCore :: "pblib \<Rightarrow> Queue \<Rightarrow> v2beta3Queue" where
  "v2beta3QueueFromCore pb q =
     \<lparr>b3q_Name = q_Name q,
      b3q_AppEngineHttpQueue = (case q_AppEngineRoutingOverride q of None \<Rightarrow> None
         | Some r \<Rightarrow> Some (v2beta3RoutingFromCore (Some r))),
      b3q_HttpTarget = (case q_HTTPOverride q of None \<Rightarrow> None
         | Some ov \<Rightarrow> Some (v2beta3HTTPOverrideFromCore ov)),
      b3q_RateLimits = Some \<lparr>prl_MaxDispatchesPerSecond = rl_MaxDispatchesPerSecond (q_RateLimits q),
         prl_MaxBurstSize = rl_MaxBurstSize (q_RateLimits q),
         prl_MaxConcurrentDispatches = rl_MaxConcurrentDispatches (q_RateLimits q)\<rparr>,
      b3q_RetryConfig = Some \<lparr>prc_MaxAttempts = rc_MaxAttempts (q_RetryConfig q),
         prc_MaxRetryDuration = durationToDur pb (rc_MaxRetryDuration (q_RetryConfig q)),
         prc_MinBackoff = durationToDur pb (rc_MinBackoff (q_RetryConfig q)),
         prc_MaxBackoff = durationToDur pb (rc_MaxBackoff (q_RetryConfig q)),
         prc_MaxDoublings = rc_MaxDoublings (q_RetryConfig q)\<rparr>,
      b3q_State = v2beta3StateFromCore (q_State q),
      b3q_PurgeTime = timeToTs pb (q_PurgeTime q),
      b3q_TaskTtl = durationToDur pb (q_TaskTTL q),
      b3q_TombstoneTtl = durationToDur pb (q_TombstoneTTL q),
      b3q_Type = (if q_Pull q then Queue_PULL else Queue_PUSH),
      b3q_StatsTasksCount = Some (q_TasksCount q)\<rparr>"

fun substring :: "string \<Rightarrow> string \<Rightarrow> bool" where
  "substring pat [] \<longleftrightarrow> pat = []"
| "substring pat (c # cs) \<longleftrightarrow> take (length pat) (c # cs) = pat \<or> substring pat cs"

definition v2beta3QueueFields :: "string list \<Rightarrow> QueueField list" where
  "v2beta3QueueFields paths =
     List.map_filter (\<lambda>p. if p = ''rate_limits'' then Some FieldRateLimits
        else if p = ''retry_config'' then Some FieldRetryConfig
        else if p = ''http_target'' then Some FieldHTTPOverride
        else if substring ''app_engine'' p then Some FieldAppEngineRoutingOverride
        else None) paths"

definition v2beta3TaskToCore :: "pblib \<Rightarrow> v2beta3Task option \<Rightarrow> Task option" where
  "v2beta3TaskToCore pb tp =
     (case tp of None \<Rightarrow> None
      | Some t \<Rightarrow>
          let ct = zeroTask\<lparr>t_Name := b3t_Name t, t_ScheduleTime := tsToTime pb (b3t_ScheduleTime t),
                     t_DispatchDeadline := durToDuration pb (b3t_DispatchDeadline t)\<rparr>
          in Some (case b3t_PayloadType t of
               Some (Beta_HttpRequest r) \<Rightarrow>
                 ct\<lparr>t_Target := zeroTarget\<lparr>tg_Type := TargetHTTP, tg_Method := httpMethodName (phr_HttpMethod r),
                      tg_URL := phr_Url r, tg_Headers := phr_Headers r, tg_Body := phr_Body r,
                      tg_Auth := v2beta3AuthFromHTTP r\<rparr>\<rparr>
             | Some (Beta_AppEngineHttpRequest r) \<Rightarrow>
                 ct\<lparr>t_Target := zeroTarget\<lparr>tg_Type := TargetAppEngine, tg_Method := httpMethodName (par_HttpMethod r),
                      tg_RelativeURI := par_RelativeUri r, tg_Headers := par_Headers r, tg_Body := par_Body r,
                      tg_AppEngineRouting := v2beta3RoutingToCore (par_AppEngineRouting r)\<rparr>\<rparr>
             | Some (Beta_PullMessage payload tag) \<Rightarrow>
                 ct\<lparr>t_Target := zeroTarget\<lparr>tg_Type := TargetPull, tg_Body := payload, tg_Tag := tag\<rparr>\<rparr>
             | None \<Rightarrow> ct))"

definition v2beta3TaskFromCore :: "pblib \<Rightarrow> Task \<Rightarrow> pbView \<Rightarrow> v2beta3Task" where
  "v2beta3TaskFromCore pb t view =
     \<lparr>b3t_Name = t_Name t,
      b3t_PayloadType =
        (let tg = t_Target t; full = (view = Task_FULL) in
         case tg_Type tg of
           TargetHTTP \<Rightarrow>
             Some (Beta_HttpRequest (v2beta3ApplyAuth
               \<lparr>phr_Url = tg_URL tg, phr_HttpMethod = httpMethodEnum (tg_Method tg), phr_Headers = tg_Headers tg,
                phr_Body = tg_Body tg, phr_AuthorizationHeader = None\<rparr> (tg_Auth tg)))
         | TargetAppEngine \<Rightarrow>
             Some (Beta_AppEngineHttpRequest
               \<lparr>par_HttpMethod = httpMethodEnum (tg_Method tg),
                par_AppEngineRouting = v2beta3RoutingFromCore (tg_AppEngineRouting tg),
                par_RelativeUri = tg_RelativeURI tg, par_Headers = tg_Headers tg,
                par_Body = (if \<not> full then [] else tg_Body tg)\<rparr>)
         | TargetPull \<Rightarrow> Some (Beta_PullMessage (tg_Body tg) (tg_Tag tg))
         | TargetNone \<Rightarrow> None),
      b3t_ScheduleTime = timeToTs pb (t_ScheduleTime t),
      b3t_CreateTime = timeToTs pb (t_CreateTime t),
      b3t_DispatchDeadline = durationToDur pb (t_DispatchDeadline t),
      b3t_DispatchCount = t_DispatchCount t, b3t_ResponseCount = t_ResponseCount t,
      b3t_FirstAttempt = v2beta3AttemptFromCore pb (t_FirstAttempt t),
      b3t_LastAttempt = v2beta3AttemptFromCore pb (t_LastAttempt t),
      b3t_View = v2beta3ViewOrBasic view\<rparr>"

section \<open>Handlers\<close>

definition v2beta3ListQueues :: "pblib \<Rightarrow> string \<Rightarrow> int32 \<Rightarrow> string \<Rightarrow> 'p Engine \<Rightarrow> (v2beta3Queue list \<times> string) result" where
  "v2beta3ListQueues pb parent pageSize pageToken e =
     mapResult (\<lambda>(qs, next). (map (v2beta3QueueFromCore pb) qs, next)) (ListQueues parent pageSize pageToken e)"

definition v2beta3GetQueue :: "pblib \<Rightarrow> string \<Rightarrow> 'p Engine \<Rightarrow> v2beta3Queue result" where
  "v2beta3GetQueue pb name e = mapResult (v2beta3QueueFromCore pb) (GetQueue name e)"

definition v2beta3CreateQueue :: "pblib \<Rightarrow> string \<Rightarrow> v2beta3Queue option \<Rightarrow> 'p Engine \<Rightarrow> 'p Engine \<times> v2beta3Queue result" where
  "v2beta3CreateQueue pb parent q e =
     (let (e', r) = CreateQueue parent (v2beta3QueueToCore pb q) e in (e', mapResult (v2beta3QueueFromCore pb) r))"

definition v2beta3UpdateQueue :: "pblib \<Rightarrow> v2beta3Queue option \<Rightarrow> string list \<Rightarrow> 'p Engine \<Rightarrow> 'p Engine \<times> v2beta3Queue result" where
  "v2beta3UpdateQueue pb q paths e =
     (let (e', r) = UpdateQueue (v2beta3QueueToCore pb q) (v2beta3QueueFields paths) e
      in (e', mapResult (v2beta3QueueFromCore pb) r))"

definition v2beta3DeleteQueue :: "string \<Rightarrow> 'p Engine \<Rightarrow> 'p Engine \<times> unit result" where
  "v2beta3DeleteQueue name e = DeleteQueue name e"

definition v2beta3PurgeQueue :: "pblib \<Rightarrow> time \<Rightarrow> string \<Rightarrow> 'p Engine \<Rightarrow> 'p Engine \<times> v2beta3Queue result" where
  "v2beta3PurgeQueue pb now name e =
     (let (e', r) = PurgeQueue now name e in (e', mapResult (v2beta3QueueFromCore pb) r))"

definition v2beta3PauseQueue :: "pblib \<Rightarrow> string \<Rightarrow> 'p Engine \<Rightarrow> 'p Engine \<times> v2beta3Queue result" where
  "v2beta3PauseQueue pb name e =
     (let (e', r) = SetQueueState name StatePaused e in (e', mapResult (v2beta3QueueFromCore pb) r))"

definition v2beta3ResumeQueue :: "pblib \<Rightarrow> string \<Rightarrow> 'p Engine \<Rightarrow> 'p Engine \<times> v2beta3Queue result" where
  "v2beta3ResumeQueue pb name e =
     (let (e', r) = SetQueueState name StateRunning e in (e', mapResult (v2beta3QueueFromCore pb) r))"

definition v2beta3ListTasks ::
  "pblib \<Rightarrow> string \<Rightarrow> int32 \<Rightarrow> string \<Rightarrow> pbView \<Rightarrow> 'p Engine \<Rightarrow> (v2beta3Task list \<times> string) result" where
  "v2beta3ListTasks pb parent pageSize pageToken view e =
     mapResult (\<lambda>(ts, next). (map (\<lambda>t. v2beta3TaskFromCore pb t view) ts, next)) (ListTasks parent pageSize pageToken e)"

definition v2beta3GetTask :: "pblib \<Rightarrow> string \<Rightarrow> pbView \<Rightarrow> 'p Engine \<Rightarrow> v2beta3Task result" where
  "v2beta3GetTask pb name view e = mapResult (\<lambda>t. v2beta3TaskFromCore pb t view) (GetTask name e)"

definition v2beta3CreateTask ::
  "pblib \<Rightarrow> (nat \<Rightarrow> time) \<Rightarrow> string \<Rightarrow> v2beta3Task option \<Rightarrow> pbView \<Rightarrow> 'p Engine \<Rightarrow> 'p Engine \<times> v2beta3Task result" where
  "v2beta3CreateTask pb clk parent t view e =
     (let (e', r) = CreateTask clk parent (v2beta3TaskToCore pb t) e
      in (e', mapResult (\<lambda>t. v2beta3TaskFromCore pb t view) r))"

definition v2beta3DeleteTask :: "time \<Rightarrow> string \<Rightarrow> 'p Engine \<Rightarrow> 'p Engine \<times> unit result" where
  "v2beta3DeleteTask now name e = DeleteTask now name e"

definition v2beta3RunTask ::
  "pblib \<Rightarrow> menv \<Rightarrow> client \<Rightarrow> (nat \<Rightarrow> time) \<Rightarrow> string \<Rightarrow> pbView \<Rightarrow> 'p Engine \<Rightarrow> 'p Engine \<times> v2beta3Task result" where
  "v2beta3RunTask pb env client clk name view e =
     (let (e', r) = RunTask (me_oob env) (me_gl env) (me_token env) client clk name e
      in (e', mapResult (\<lambda>t. v2beta3TaskFromCore pb t view) r))"

definition v2beta3GetIamPolicy :: "'p \<Rightarrow> string \<Rightarrow> 'p Engine \<Rightarrow> 'p result" where
  "v2beta3GetIamPolicy emptyPolicy resource e = GetIamPolicy emptyPolicy resource e"

definition v2beta3SetIamPolicy :: "'p \<Rightarrow> string \<Rightarrow> 'p option \<Rightarrow> 'p Engine \<Rightarrow> 'p Engine \<times> 'p result" where
  "v2beta3SetIamPolicy emptyPolicy resource policy e = SetIamPolicy emptyPolicy resource policy e"

definition v2beta3TestIamPermissions :: "string \<Rightarrow> string list \<Rightarrow> 'p Engine \<Rightarrow> string list result" where
  "v2beta3TestIamPermissions resource permissions e = TestIamPermissions resource permissions e"

end
