(* ===== verification/Adapters.thy ===== *)
theory Adapters
  imports V2beta3 Engine_Props
begin

text \<open>
  What the two adapters promise: what a client writes is what it reads back, both API versions
  mean the same by the same message, every RPC is one engine call, and what an update mask
  does that names no known field.
\<close>

section \<open>Codecs\<close>



lemma v2Auth_reread: "v2AuthFromHTTP (v2ApplyAuth (r\<lparr>phr_AuthorizationHeader := None\<rparr>) (v2AuthFromHTTP r)) = v2AuthFromHTTP r"
  by (simp add: v2AuthFromHTTP_def v2ApplyAuth_def split: option.split pbAuth.split)

lemma v2ApplyAuth_fields [simp]:
  "phr_Url (v2ApplyAuth r a) = phr_Url r" "phr_HttpMethod (v2ApplyAuth r a) = phr_HttpMethod r"
  "phr_Headers (v2ApplyAuth r a) = phr_Headers r" "phr_Body (v2ApplyAuth r a) = phr_Body r"
  by (simp_all add: v2ApplyAuth_def split: option.split AuthKind.split)

lemma v2Routing_reread [simp]: "v2RoutingToCore (v2RoutingFromCore r) = r"
  by (simp add: v2RoutingToCore_def v2RoutingFromCore_def split: option.split)




section \<open>The two versions\<close>

text \<open>A v2 message as a v2beta3 message with the same fields.\<close>

fun upgradePayload :: "v2MessageType \<Rightarrow> v2beta3PayloadType" where
  "upgradePayload (Task_HttpRequest r) = Beta_HttpRequest r"
| "upgradePayload (Task_AppEngineHttpRequest r) = Beta_AppEngineHttpRequest r"

definition upgradeTask :: "v2Task \<Rightarrow> v2beta3Task" where
  "upgradeTask t = \<lparr>b3t_Name = v2t_Name t, b3t_PayloadType = map_option upgradePayload (v2t_MessageType t),
     b3t_ScheduleTime = v2t_ScheduleTime t, b3t_CreateTime = v2t_CreateTime t,
     b3t_DispatchDeadline = v2t_DispatchDeadline t, b3t_DispatchCount = v2t_DispatchCount t,
     b3t_ResponseCount = v2t_ResponseCount t, b3t_FirstAttempt = v2t_FirstAttempt t,
     b3t_LastAttempt = v2t_LastAttempt t, b3t_View = v2t_View t\<rparr>"

definition upgradeQueue :: "v2Queue \<Rightarrow> v2beta3Queue" where
  "upgradeQueue q = \<lparr>b3q_Name = v2q_Name q,
     b3q_AppEngineHttpQueue = map_option Some (v2q_AppEngineRoutingOverride q), b3q_HttpTarget = None,
     b3q_RateLimits = v2q_RateLimits q, b3q_RetryConfig = v2q_RetryConfig q, b3q_State = v2q_State q,
     b3q_PurgeTime = v2q_PurgeTime q, b3q_TaskTtl = None, b3q_TombstoneTtl = None,
     b3q_Type = Queue_TYPE_UNSPECIFIED, b3q_StatsTasksCount = None\<rparr>"

lemma same_helpers:
  "v2beta3StateToCore = v2StateToCore" "v2beta3StateFromCore = v2StateFromCore"
  "v2beta3RoutingToCore = v2RoutingToCore" "v2beta3RoutingFromCore = v2RoutingFromCore"
  "v2beta3AuthFromHTTP = v2AuthFromHTTP" "v2beta3ApplyAuth = v2ApplyAuth"
  "v2beta3ViewOrBasic = viewOrBasic" "v2beta3AttemptFromCore = v2AttemptFromCore"
proof -
  have "v2beta3StateToCore s = v2StateToCore s" for s by (cases s) simp_all
  then show "v2beta3StateToCore = v2StateToCore" by blast
  have "v2beta3StateFromCore s = v2StateFromCore s" for s by (cases s) simp_all
  then show "v2beta3StateFromCore = v2StateFromCore" by blast
  show "v2beta3RoutingToCore = v2RoutingToCore" "v2beta3RoutingFromCore = v2RoutingFromCore"
    "v2beta3AuthFromHTTP = v2AuthFromHTTP" "v2beta3ApplyAuth = v2ApplyAuth"
    "v2beta3ViewOrBasic = viewOrBasic" "v2beta3AttemptFromCore = v2AttemptFromCore"
    by (intro ext, simp add: v2beta3RoutingToCore_def v2RoutingToCore_def v2beta3RoutingFromCore_def
        v2RoutingFromCore_def v2beta3AuthFromHTTP_def v2AuthFromHTTP_def v2beta3ApplyAuth_def v2ApplyAuth_def
        v2beta3ViewOrBasic_def viewOrBasic_def v2beta3AttemptFromCore_def v2AttemptFromCore_def)+
qed

lemma upgradeTask_toCore: "v2beta3TaskToCore pb (map_option upgradeTask m) = v2TaskToCore pb m"
proof (cases m)
  case None
  then show ?thesis by (simp add: v2beta3TaskToCore_def v2TaskToCore_def)
next
  case (Some t)
  show ?thesis
  proof (cases "v2t_MessageType t")
    case None
    then show ?thesis by (simp add: Some v2beta3TaskToCore_def v2TaskToCore_def upgradeTask_def Let_def)
  next
    case mt: (Some mt)
    then show ?thesis
      by (cases mt) (simp_all add: Some v2beta3TaskToCore_def v2TaskToCore_def upgradeTask_def same_helpers
          v2MethodName_def Let_def)
  qed
qed

lemma upgradeTask_fromCore:
  "tg_Type (t_Target t) \<noteq> TargetPull \<Longrightarrow> v2beta3TaskFromCore pb t view = upgradeTask (v2TaskFromCore pb t view)"
  by (simp add: v2beta3TaskFromCore_def v2TaskFromCore_def upgradeTask_def same_helpers v2Method_def Let_def
      split: TargetType.split)

lemma v2RoutingToCore_None [simp]: "v2RoutingToCore None = None"
  by (simp add: v2RoutingToCore_def)

lemma upgradeQueue_toCore: "v2beta3QueueToCore pb (map_option upgradeQueue m) = v2QueueToCore pb m"
  by (cases m) (auto simp: v2beta3QueueToCore_def v2QueueToCore_def upgradeQueue_def same_helpers Let_def
      durToDuration_def zeroQueue_def v2beta3HTTPOverrideToCore_def split: option.split)

section \<open>RPCs are engine calls\<close>

text \<open>The RPCs that can change the engine, over the messages of either version.\<close>

datatype ('q, 't, 'p) rpc =
    RpcCreateQueue string "'q option"
  | RpcUpdateQueue "'q option" "string list"
  | RpcDeleteQueue string
  | RpcPurgeQueue time string
  | RpcPauseQueue string
  | RpcResumeQueue string
  | RpcCreateTask "nat \<Rightarrow> time" string "'t option" pbView
  | RpcDeleteTask time string
  | RpcRunTask client "nat \<Rightarrow> time" string pbView
  | RpcSetIamPolicy 'p string "'p option"

fun v2Serve :: "pblib \<Rightarrow> menv \<Rightarrow> (v2Queue, v2Task, 'p) rpc \<Rightarrow> 'p Engine \<Rightarrow> 'p Engine option" where
  "v2Serve pb env (RpcCreateQueue p q) e = Some (fst (v2CreateQueue pb p q e))"
| "v2Serve pb env (RpcUpdateQueue q paths) e = Some (fst (v2UpdateQueue pb q paths e))"
| "v2Serve pb env (RpcDeleteQueue n) e = Some (fst (v2DeleteQueue n e))"
| "v2Serve pb env (RpcPurgeQueue now n) e = Some (fst (v2PurgeQueue pb now n e))"
| "v2Serve pb env (RpcPauseQueue n) e = Some (fst (v2PauseQueue pb n e))"
| "v2Serve pb env (RpcResumeQueue n) e = Some (fst (v2ResumeQueue pb n e))"
| "v2Serve pb env (RpcCreateTask clk p t view) e = Some (fst (v2CreateTask pb clk p t view e))"
| "v2Serve pb env (RpcDeleteTask now n) e = Some (fst (v2DeleteTask now n e))"
| "v2Serve pb env (RpcRunTask client clk n view) e = Some (fst (v2RunTask pb env client clk n view e))"
| "v2Serve pb env (RpcSetIamPolicy ep n p) e = Some (fst (v2SetIamPolicy ep n p e))"

fun v2beta3Serve :: "pblib \<Rightarrow> menv \<Rightarrow> (v2beta3Queue, v2beta3Task, 'p) rpc \<Rightarrow> 'p Engine \<Rightarrow> 'p Engine option" where
  "v2beta3Serve pb env (RpcCreateQueue p q) e = Some (fst (v2beta3CreateQueue pb p q e))"
| "v2beta3Serve pb env (RpcUpdateQueue q paths) e = Some (fst (v2beta3UpdateQueue pb q paths e))"
| "v2beta3Serve pb env (RpcDeleteQueue n) e = Some (fst (v2beta3DeleteQueue n e))"
| "v2beta3Serve pb env (RpcPurgeQueue now n) e = Some (fst (v2beta3PurgeQueue pb now n e))"
| "v2beta3Serve pb env (RpcPauseQueue n) e = Some (fst (v2beta3PauseQueue pb n e))"
| "v2beta3Serve pb env (RpcResumeQueue n) e = Some (fst (v2beta3ResumeQueue pb n e))"
| "v2beta3Serve pb env (RpcCreateTask clk p t view) e = Some (fst (v2beta3CreateTask pb clk p t view e))"
| "v2beta3Serve pb env (RpcDeleteTask now n) e = Some (fst (v2beta3DeleteTask now n e))"
| "v2beta3Serve pb env (RpcRunTask client clk n view) e = Some (fst (v2beta3RunTask pb env client clk n view e))"
| "v2beta3Serve pb env (RpcSetIamPolicy ep n p) e = Some (fst (v2beta3SetIamPolicy ep n p e))"

fun rpcCall :: "('q option \<Rightarrow> Queue option) \<Rightarrow> ('t option \<Rightarrow> Task option) \<Rightarrow> (string list \<Rightarrow> QueueField list)
    \<Rightarrow> ('q, 't, 'p) rpc \<Rightarrow> 'p call" where
  "rpcCall qc tc flds (RpcCreateQueue p q) = CallCreateQueue p (qc q)"
| "rpcCall qc tc flds (RpcUpdateQueue q paths) = CallUpdateQueue (qc q) (flds paths)"
| "rpcCall qc tc flds (RpcDeleteQueue n) = CallDeleteQueue n"
| "rpcCall qc tc flds (RpcPurgeQueue now n) = CallPurgeQueue now n"
| "rpcCall qc tc flds (RpcPauseQueue n) = CallSetQueueState n StatePaused"
| "rpcCall qc tc flds (RpcResumeQueue n) = CallSetQueueState n StateRunning"
| "rpcCall qc tc flds (RpcCreateTask clk p t view) = CallCreateTask clk p (tc t)"
| "rpcCall qc tc flds (RpcDeleteTask now n) = CallDeleteTask now n"
| "rpcCall qc tc flds (RpcRunTask client clk n view) = CallRunTask client clk n"
| "rpcCall qc tc flds (RpcSetIamPolicy ep n p) = CallSetIamPolicy ep n p"

text \<open>What makes an adapter: each of its RPCs is one call of the engine.\<close>

locale rpc_adapter =
  fixes serve :: "'r \<Rightarrow> 'p Engine \<Rightarrow> 'p Engine option" and call :: "'r \<Rightarrow> 'p call" and env :: menv
  assumes serve_call: "serve r e = exec env (call r) e"
begin

lemma serve_einv: "einv e \<Longrightarrow> serve r e = Some e' \<Longrightarrow> einv e'"
  using exec_einv by (metis serve_call)

lemma run_serve: "run serve rs e = run (exec env) (map call rs) e"
  by (induction rs arbitrary: e) (auto simp: serve_call split: option.split)

end

lemma v2Serve_call:
  "v2Serve pb env r e = exec env (rpcCall (v2QueueToCore pb) (v2TaskToCore pb) v2QueueFields r) e"
  by (cases r) (simp_all add: v2CreateQueue_def v2UpdateQueue_def v2DeleteQueue_def v2PurgeQueue_def
      v2PauseQueue_def v2ResumeQueue_def v2CreateTask_def v2DeleteTask_def v2RunTask_def v2SetIamPolicy_def
      split_beta)

lemma v2beta3Serve_call:
  "v2beta3Serve pb env r e =
     exec env (rpcCall (v2beta3QueueToCore pb) (v2beta3TaskToCore pb) v2beta3QueueFields r) e"
  by (cases r) (simp_all add: v2beta3CreateQueue_def v2beta3UpdateQueue_def v2beta3DeleteQueue_def
      v2beta3PurgeQueue_def v2beta3PauseQueue_def v2beta3ResumeQueue_def v2beta3CreateTask_def
      v2beta3DeleteTask_def v2beta3RunTask_def v2beta3SetIamPolicy_def split_beta)

interpretation v2s: rpc_adapter "v2Serve pb env" "rpcCall (v2QueueToCore pb) (v2TaskToCore pb) v2QueueFields" env
  for pb env by unfold_locales (rule v2Serve_call)

interpretation b3s: rpc_adapter "v2beta3Serve pb env"
    "rpcCall (v2beta3QueueToCore pb) (v2beta3TaskToCore pb) v2beta3QueueFields" env
  for pb env by unfold_locales (rule v2beta3Serve_call)

text \<open>The server that both services are registered on.\<close>

fun serveBoth :: "pblib \<Rightarrow> menv \<Rightarrow> (v2Queue, v2Task, 'p) rpc + (v2beta3Queue, v2beta3Task, 'p) rpc
    \<Rightarrow> 'p Engine \<Rightarrow> 'p Engine option" where
  "serveBoth pb env (Inl r) e = v2Serve pb env r e"
| "serveBoth pb env (Inr r) e = v2beta3Serve pb env r e"

fun bothCall :: "pblib \<Rightarrow> (v2Queue, v2Task, 'p) rpc + (v2beta3Queue, v2beta3Task, 'p) rpc \<Rightarrow> 'p call" where
  "bothCall pb (Inl r) = rpcCall (v2QueueToCore pb) (v2TaskToCore pb) v2QueueFields r"
| "bothCall pb (Inr r) = rpcCall (v2beta3QueueToCore pb) (v2beta3TaskToCore pb) v2beta3QueueFields r"

interpretation bs: rpc_adapter "serveBoth pb env" "bothCall pb" env for pb env
proof
  show "serveBoth pb env r e = exec env (bothCall pb r) e" for r e
    by (cases r) (simp_all add: v2s.serve_call b3s.serve_call)
qed

interpretation both: invariant_system "serveBoth pb env" einv for pb env
  by unfold_locales (rule bs.serve_einv)

section \<open>The HTTP target override\<close>











section \<open>Properties\<close>










text \<open>
  C24. Both API versions mean the same by the same message: creating a task or a queue through
  v2beta3 with the fields of a v2 message has the effect of doing it through v2, the known
  mask paths select the same fields, and a task that is not a pull task looks the same in both.
\<close>

theorem versions_agree:
  "fst (v2beta3CreateTask pb clk parent (map_option upgradeTask m) view e) = fst (v2CreateTask pb clk parent m view e) \<and>
   fst (v2beta3CreateQueue pb loc (map_option upgradeQueue q) e) = fst (v2CreateQueue pb loc q e) \<and>
   (set paths \<subseteq> {''rate_limits'', ''retry_config'', ''app_engine_routing_override''} \<longrightarrow>
      fst (v2beta3UpdateQueue pb (map_option upgradeQueue q) paths e) = fst (v2UpdateQueue pb q paths e)) \<and>
   (GetTask n e = Inr t \<and> tg_Type (t_Target t) \<noteq> TargetPull \<longrightarrow>
      v2beta3GetTask pb n view e = mapResult upgradeTask (v2GetTask pb n view e))"
proof -
  have "v2beta3QueueFields paths = v2QueueFields paths"
    if "set paths \<subseteq> {''rate_limits'', ''retry_config'', ''app_engine_routing_override''}"
  proof -
    have "substring ''app_engine'' ''app_engine_routing_override''" by code_simp
    with that show ?thesis
      by (induction paths) (auto simp: v2beta3QueueFields_def v2QueueFields_def List.map_filter_def)
  qed
  then show ?thesis
    by (auto simp: v2beta3CreateTask_def v2CreateTask_def v2beta3CreateQueue_def v2CreateQueue_def
        v2beta3UpdateQueue_def v2UpdateQueue_def v2beta3GetTask_def v2GetTask_def mapResult_def split_beta
        upgradeTask_toCore upgradeQueue_toCore upgradeTask_fromCore)
qed

definition demoQueueMsg :: v2Queue where
  "demoQueueMsg = \<lparr>v2q_Name = demoName, v2q_AppEngineRoutingOverride = None,
     v2q_RateLimits = Some \<lparr>prl_MaxDispatchesPerSecond = Fin 5, prl_MaxBurstSize = 0, prl_MaxConcurrentDispatches = 3\<rparr>,
     v2q_RetryConfig = None, v2q_State = Queue_RUNNING, v2q_PurgeTime = None\<rparr>"

theorem versions_agree_witness:
  "fst (v2beta3UpdateQueue demoPb (Some (upgradeQueue demoQueueMsg)) [''rate_limits''] demoEngine) =
     fst (v2UpdateQueue demoPb (Some demoQueueMsg) [''rate_limits''] demoEngine)"
  using versions_agree [of demoPb _ _ None _ demoEngine _ "Some demoQueueMsg" "[''rate_limits'']"] by simp

text \<open>
  C40. An update mask whose paths are all unknown to the adapter, such as a path into
  \<^verbatim>\<open>rate_limits\<close>, is passed to the engine as an empty mask and replaces every field: the
  retry settings, the routing override and the HTTP override of the queue are lost, the last one even
  though a v2 message cannot carry it.
\<close>

theorem unknown_mask_paths_reset_the_queue:
  assumes "einv e" and "gget (e_queues e) (v2q_Name m) = Some qs" and "v2QueueFields paths = []"
    and "v2q_RetryConfig m = None" and "v2q_AppEngineRoutingOverride m = None"
  shows "\<exists>qs'. gget (e_queues (fst (v2UpdateQueue pb (Some m) paths e))) (v2q_Name m) = Some qs' \<and>
    q_RetryConfig (qs_q qs') = defaultRetryConfig zeroRetryConfig \<and>
    q_AppEngineRoutingOverride (qs_q qs') = None \<and> q_HTTPOverride (qs_q qs') = None"
proof -
  obtain q where q: "v2QueueToCore pb (Some m) = Some q" by (simp add: v2QueueToCore_def Let_def)
  then have f: "q_Name q = v2q_Name m" "q_RetryConfig q = zeroRetryConfig"
    "q_AppEngineRoutingOverride q = None" "q_HTTPOverride q = None"
    using assms(4,5) by (auto simp: v2QueueToCore_def Let_def zeroQueue_def split: option.split)
  let ?qs' = "fst (updateQueueLocked q [] qs)"
  have g: "good (v2q_Name m) qs" using assms(1,2) by (rule einv_good)
  then have "q_Name q \<noteq> []" using f(1) by (auto simp: good_def parseQueueName_iff queueName_def)
  then have "gget (e_queues (fst (UpdateQueue (Some q) [] e))) (v2q_Name m) = Some ?qs'"
    using g f(1) assms(2) by (auto simp: UpdateQueue_def good_def split_beta)
  moreover have "qs_q ?qs' = applyQueueDefaults (fold (setField q) [FieldRateLimits, FieldRetryConfig,
      FieldAppEngineRoutingOverride, FieldHTTPOverride] (qs_q qs))" by (simp add: updateQueueLocked_q)
  ultimately show ?thesis
    using f q assms(3) by (simp add: v2UpdateQueue_def split_beta applyQueueDefaults_def)
qed

theorem unknown_mask_paths_reset_the_queue_witness:
  "\<exists>qs'. gget (e_queues (fst (v2UpdateQueue demoPb (Some \<lparr>v2q_Name = demoName, v2q_AppEngineRoutingOverride = None,
      v2q_RateLimits = None, v2q_RetryConfig = None, v2q_State = Queue_RUNNING, v2q_PurgeTime = None\<rparr>)
      [''rate_limits.max_concurrent_dispatches''] demoEngine))) demoName = Some qs' \<and> q_HTTPOverride (qs_q qs') = None"
proof -
  let ?m = "\<lparr>v2q_Name = demoName, v2q_AppEngineRoutingOverride = None,
      v2q_RateLimits = None, v2q_RetryConfig = None, v2q_State = Queue_RUNNING, v2q_PurgeTime = None\<rparr>"
  have "gget (e_queues demoEngine) demoName \<noteq> None" "v2QueueFields [''rate_limits.max_concurrent_dispatches''] = []"
    by code_simp+
  then obtain qs where "gget (e_queues demoEngine) (v2q_Name ?m) = Some qs"
    "v2QueueFields [''rate_limits.max_concurrent_dispatches''] = []" by auto
  from unknown_mask_paths_reset_the_queue [OF demoEngine_inv this, of demoPb] show ?thesis by auto
qed

end
