(* ===== verification/Rest_Server.thy ===== *)
theory Rest_Server
  imports Rest_Decode Go_Json Adapters
begin

text \<open>
  \<^verbatim>\<open>rest/rest.go\<close> and \<^verbatim>\<open>emulator/rest.go\<close>: the HTTP handler over the routes. A handler of a route
  takes the implementation, the request message and the state of the server, and returns the
  new state and a message or an error; what \<^verbatim>\<open>invoke\<close> adds is only the copy of the message. A
  response is the status code, the content type and the body it is written with.
\<close>

type_synonym ('i, 'm, 's) rpcHandler = "'i \<Rightarrow> 'm \<Rightarrow> 's \<Rightarrow> 's \<times> 'm result"
type_synonym ('i, 'm, 's) rpcRoute = "('i, ('i, 'm, 's) rpcHandler) route"

record response =
  rs_Code :: int
  rs_ContentType :: string
  rs_Body :: string

section \<open>Errors\<close>

definition statusNames :: "(int \<times> int \<times> string) list" where
  "statusNames =
    [(codeNum OK, 200, ''OK''), (codeNum Canceled, 499, ''CANCELLED''), (codeNum Unknown, 500, ''UNKNOWN''),
     (codeNum InvalidArgument, 400, ''INVALID_ARGUMENT''), (codeNum DeadlineExceeded, 504, ''DEADLINE_EXCEEDED''),
     (codeNum NotFound, 404, ''NOT_FOUND''), (codeNum AlreadyExists, 409, ''ALREADY_EXISTS''),
     (codeNum PermissionDenied, 403, ''PERMISSION_DENIED''), (codeNum ResourceExhausted, 429, ''RESOURCE_EXHAUSTED''),
     (codeNum FailedPrecondition, 400, ''FAILED_PRECONDITION''), (codeNum Aborted, 409, ''ABORTED''),
     (codeNum OutOfRange, 400, ''OUT_OF_RANGE''), (codeNum Unimplemented, 501, ''UNIMPLEMENTED''),
     (codeNum Internal, 500, ''INTERNAL''), (codeNum Unavailable, 503, ''UNAVAILABLE''),
     (codeNum DataLoss, 500, ''DATA_LOSS''), (codeNum Unauthenticated, 401, ''UNAUTHENTICATED'')]"

definition httpStatus :: "int \<Rightarrow> int \<times> string" where
  "httpStatus c = (case map_of statusNames c of Some s \<Rightarrow> s | None \<Rightarrow> (500, ''CODE_'' @ Itoa c))"

definition errorBody :: "int \<Rightarrow> string \<Rightarrow> string \<Rightarrow> json" where
  "errorBody code message name =
     JObj [(''error'', JObj [(''code'', JInt code), (''message'', JStr message), (''status'', JStr name)])]"

definition writeError :: "(string \<Rightarrow> string) \<Rightarrow> status \<Rightarrow> response" where
  "writeError quote st =
     (let (httpCode, name) = httpStatus (codeNum (status_code st));
          message = Sprintf quote (status_format st) (status_args st)
      in \<lparr>rs_Code = httpCode, rs_ContentType = ''application/json; charset=UTF-8'',
          rs_Body = jsonText (errorBody httpCode message name) @ [CHR 0x0A]\<rparr>)"

definition writeMessage :: "'m reflect \<Rightarrow> (string \<Rightarrow> string) \<Rightarrow> 'm \<Rightarrow> bool \<Rightarrow> response" where
  "writeMessage lib quote msg enumInts =
     (case rf_Marshal lib enumInts msg of
        Inl e \<Rightarrow> writeError quote (Errorf Internal ''marshal response: %v'' [e])
      | Inr body \<Rightarrow> \<lparr>rs_Code = 200, rs_ContentType = ''application/json; charset=UTF-8'', rs_Body = body\<rparr>)"

section \<open>Dispatching a request\<close>

definition queryGet :: "string \<Rightarrow> (string, string list) gomap \<Rightarrow> string" where
  "queryGet k q = (case gget q k of Some (v # _) \<Rightarrow> v | _ \<Rightarrow> [])"

definition wantsEnumNumbers :: "restRequest \<Rightarrow> bool" where
  "wantsEnumNumbers r \<longleftrightarrow> Contains (queryGet ''$alt'' (rq_Query r)) ''enum-encoding=int''"

definition invoke :: "('i, 'm, 's) rpcRoute \<Rightarrow> 'm \<Rightarrow> 's \<Rightarrow> 's \<times> 'm result" where
  "invoke rt req s = rt_handler rt (rt_impl rt) req s"

fun serveRoutes :: "'m reflect \<Rightarrow> (string \<Rightarrow> string) \<Rightarrow> ('i, 'm, 's) rpcRoute list \<Rightarrow> restRequest
    \<Rightarrow> string list \<Rightarrow> string \<Rightarrow> 's \<Rightarrow> 's \<times> response" where
  "serveRoutes lib quote [] r segs verb s =
     (s, writeError quote (Errorf NotFound ''no REST binding for %s %s'' [rq_Method r, rq_Path r]))"
| "serveRoutes lib quote (rt # rts) r segs verb s =
     (case matchRoute rt (rq_Method r) segs verb of
        None \<Rightarrow> serveRoutes lib quote rts r segs verb s
      | Some vars \<Rightarrow>
          (case decode lib quote rt r vars of
             Inl e \<Rightarrow> (s, writeError quote e)
           | Inr req \<Rightarrow>
               (case invoke rt req s of
                  (s', Inl e) \<Rightarrow> (s', writeError quote e)
                | (s', Inr resp) \<Rightarrow> (s', writeMessage lib quote resp (wantsEnumNumbers r)))))"

definition ServeHTTP :: "'m reflect \<Rightarrow> (string \<Rightarrow> string) \<Rightarrow> ('i, 'm, 's) rpcRoute list \<Rightarrow> restRequest
    \<Rightarrow> 's \<Rightarrow> 's \<times> response" where
  "ServeHTTP lib quote routes r s =
     (let (segs, verb) = splitRequestPath (rq_EscapedPath r) in serveRoutes lib quote routes r segs verb s)"

section \<open>Building the handler\<close>

fun HandlerFrom :: "(string \<Rightarrow> string) \<Rightarrow> (string \<Rightarrow> messageDesc) \<Rightarrow> (string \<Rightarrow> string + descriptor)
    \<Rightarrow> ('i, 'h) Service list \<Rightarrow> ('i, 'h) route list \<times> string list
    \<Rightarrow> string + (('i, 'h) route list \<times> string list)" where
  "HandlerFrom quote types files [] (routes, skipped) = Inr (routes, skipped)"
| "HandlerFrom quote types files (s # svcs) (routes, skipped) =
     (case routesFor quote types files s of
        Inl e \<Rightarrow> Inl e
      | Inr (rs, skips) \<Rightarrow> HandlerFrom quote types files svcs (routes @ rs, skipped @ skips))"

definition Handler :: "(string \<Rightarrow> string) \<Rightarrow> (string \<Rightarrow> messageDesc) \<Rightarrow> (string \<Rightarrow> string + descriptor)
    \<Rightarrow> ('i, 'h) Service list \<Rightarrow> string + (('i, 'h) route list \<times> string list)" where
  "Handler quote types files svcs = HandlerFrom quote types files svcs ([], [])"

text \<open>
  The two services of the emulator on one engine: the implementation says which adapter
  serves the call.
\<close>

datatype server = v2Server | v2beta3Server

definition RESTHandler :: "(string \<Rightarrow> string) \<Rightarrow> (string \<Rightarrow> messageDesc) \<Rightarrow> (string \<Rightarrow> string + descriptor)
    \<Rightarrow> 'h serviceDesc \<Rightarrow> 'h serviceDesc \<Rightarrow> string + ((server, 'h) route list \<times> string list)" where
  "RESTHandler quote types files v2Desc v2beta3Desc =
     Handler quote types files
       [\<lparr>svc_Desc = v2Desc, svc_Impl = v2Server\<rparr>, \<lparr>svc_Desc = v2beta3Desc, svc_Impl = v2beta3Server\<rparr>]"

end
