(* ===== verification/Rest_Props.thy ===== *)
theory Rest_Props
  imports Rest_Match Rest_Server
begin

text \<open>
  What the REST surface promises: a route that passed the checks at start-up binds every
  request it matches, the path decides over body and query, an error response determines the
  gRPC code, and a history of REST requests is a history of RPCs of the two adapters.
\<close>

section \<open>Routes that passed the checks\<close>

abbreviation inRange :: "nat \<Rightarrow> variable \<Rightarrow> bool" where
  "inRange n v \<equiv> va_start v < va_end v \<and> va_end v \<le> n"

lemma parseItems_ranges:
  "parseItems quote tmpl raws segs vars = Inr (segs', vars') \<Longrightarrow> list_all (inRange (length segs)) vars \<Longrightarrow>
    list_all (inRange (length segs')) vars'"
proof (induction quote tmpl raws segs vars rule: parseItems.induct)
  case (2 quote tmpl raw raws segs vars)
  show ?case
  proof (cases "HasPrefix raw ''{''")
    case False
    have "list_all (inRange (length (segs @ [\<lparr>sg_literal = raw, sg_wildcard = False\<rparr>]))) vars"
      using "2.prems"(2) by (auto simp: list_all_iff le_Suc_eq)
    with False "2.IH"(1) "2.prems"(1) show ?thesis by simp
  next
    case True
    let ?inner = "butlast (tl raw)"
    obtain field pat where fp: "(case Cut (CHR ''='') ?inner of Some fp \<Rightarrow> fp | None \<Rightarrow> (?inner, ''*'')) = (field, pat)"
      by (rule prod.exhaust)
    with True "2.prems"(1) obtain segs1 where suf: "HasSuffix raw ''}''"
      and s1: "parseSubs quote tmpl (Split (CHR ''/'') pat) segs = Inr segs1"
      and rest: "parseItems quote tmpl raws segs1
        (vars @ [\<lparr>va_field = field, va_start = length segs, va_end = length segs1\<rparr>]) = Inr (segs', vars')"
      by (auto split: if_splits sum.splits)
    have "length segs1 = length segs + length (Split (CHR ''/'') pat)" using s1 by (simp add: parseSubs_Inr)
    moreover have "0 < length (Split (CHR ''/'') pat)" by simp
    ultimately have "list_all (inRange (length segs1))
        (vars @ [\<lparr>va_field = field, va_start = length segs, va_end = length segs1\<rparr>])"
      using "2.prems"(2) by (auto simp: list_all_iff)
    with "2.IH"(2) [OF _ _ refl fp [symmetric] refl s1 rest] True suf show ?thesis by simp
  qed
qed simp

lemma parseTemplate_ranges:
  "parseTemplate quote tmpl = Inr (segs, vars, verb) \<Longrightarrow> list_all (inRange (length segs)) vars"
  using parseItems_ranges by (fastforce simp: parseTemplate_def split: if_splits sum.splits prod.splits)

lemma resolveAll_Inr:
  "resolveAll quote types md vs = Inr () \<longleftrightarrow> (\<forall>v \<in> set vs. \<exists>fd. resolveField quote types md (va_field v) = Inr fd)"
  by (induction vs) (auto split: sum.split)

lemma newRoute_Inr:
  assumes "newRoute quote types rule md impl handler = Inr rt"
  shows "rt_impl rt = impl \<and> rt_handler rt = handler \<and> rt_input rt = mth_Input md \<and>
    list_all (inRange (length (rt_segments rt))) (rt_vars rt) \<and>
    (\<forall>v \<in> set (rt_vars rt). \<exists>fd. resolveField quote types (mth_Input md) (va_field v) = Inr fd)"
  using assms
  by (auto simp: newRoute_def Let_def parseTemplate_ranges resolveAll_Inr split: sum.splits)





section \<open>Routes of the emulator\<close>

text \<open>What is true of every handler of a service is true of every route derived from it.\<close>

abbreviation routeOf :: "('i, 'h) Service \<Rightarrow> ('i, 'h) route \<Rightarrow> bool" where
  "routeOf s rt \<equiv> rt_impl rt = svc_Impl s \<and> rt_handler rt \<in> snd ` set (sd_Methods (svc_Desc s))"

lemma addBindings_routes:
  "addBindings quote types s md h bs (routes, skipped) = (routes', skipped') \<Longrightarrow>
    h \<in> snd ` set (sd_Methods (svc_Desc s)) \<Longrightarrow> list_all (routeOf s) routes \<Longrightarrow> list_all (routeOf s) routes'"
proof (induction bs arbitrary: routes skipped)
  case (Cons b bs)
  show ?case
  proof (cases "newRoute quote types b md (svc_Impl s) h")
    case (Inl e)
    with Cons show ?thesis by simp
  next
    case (Inr rt)
    then have "list_all (routeOf s) (routes @ [rt])" using newRoute_Inr [OF Inr] Cons.prems(2,3) by simp
    with Inr Cons show ?thesis by simp
  qed
qed simp

lemma addMethod_routes:
  assumes "addMethod quote types s md (routes, skipped) = (routes', skipped')" "list_all (routeOf s) routes"
  shows "list_all (routeOf s) routes'"
proof (cases "mth_Http md")
  case None
  with assms show ?thesis by (simp add: addMethod_def)
next
  case (Some rule)
  show ?thesis
  proof (cases "handlerFor (svc_Desc s) (mth_Name md)")
    case None
    with assms Some show ?thesis by (simp add: addMethod_def)
  next
    case h: (Some h)
    then have "h \<in> snd ` set (sd_Methods (svc_Desc s))"
      by (force simp: handlerFor_def dest: map_of_SomeD)
    with assms Some h show ?thesis by (auto simp: addMethod_def simp del: addBindings.simps intro: addBindings_routes)
  qed
qed

lemma fold_addMethod_routes:
  "fold (addMethod quote types s) mds (routes, skipped) = (routes', skipped') \<Longrightarrow>
    list_all (routeOf s) routes \<Longrightarrow> list_all (routeOf s) routes'"
proof (induction mds arbitrary: routes skipped)
  case (Cons md mds)
  obtain r1 s1 where "addMethod quote types s md (routes, skipped) = (r1, s1)" by (rule prod.exhaust)
  with Cons show ?case using addMethod_routes by fastforce
qed simp

lemma routesFor_routes: "routesFor quote types files s = Inr (routes, skipped) \<Longrightarrow> list_all (routeOf s) routes"
  using fold_addMethod_routes
  by (fastforce simp: routesFor_def Let_def split: sum.splits descriptor.splits prod.splits if_splits)

lemma RESTHandler_routes:
  assumes "RESTHandler quote types files d2 d3 = Inr (routes, skipped)" "rt \<in> set routes"
  shows "rt_impl rt = v2Server \<and> rt_handler rt \<in> snd ` set (sd_Methods d2) \<or>
    rt_impl rt = v2beta3Server \<and> rt_handler rt \<in> snd ` set (sd_Methods d3)"
proof -
  from assms(1) obtain r2 k2 r3 k3 where
    "routesFor quote types files \<lparr>svc_Desc = d2, svc_Impl = v2Server\<rparr> = Inr (r2, k2)"
    "routesFor quote types files \<lparr>svc_Desc = d3, svc_Impl = v2beta3Server\<rparr> = Inr (r3, k3)"
    "routes = r2 @ r3"
    by (auto simp: RESTHandler_def Handler_def split: sum.splits)
  with assms(2) show ?thesis using routesFor_routes by (fastforce simp: list_all_iff)
qed


section \<open>Status names\<close>

text \<open>How a client reads the code from the status name.\<close>

definition codeOfName :: "string \<Rightarrow> int option" where
  "codeOfName name =
     (case map_of (map (\<lambda>(c, h, n). (n, c)) statusNames) name of
        Some c \<Rightarrow> Some c
      | None \<Rightarrow> if HasPrefix name ''CODE_'' then Atoi (drop 5 name) else None)"

lemma codeOfName_httpStatus:
  assumes "in_int64 c"
  shows "codeOfName (snd (httpStatus c)) = Some c"
proof (cases "map_of statusNames c")
  case None
  have "map_of (map (\<lambda>(c, h, n). (n, c)) statusNames) (''CODE_'' @ Itoa c) = None"
    by (simp add: statusNames_def)
  with None assms show ?thesis by (simp add: httpStatus_def codeOfName_def HasPrefix_def Atoi_Itoa)
next
  case (Some hn)
  then have "(c, hn) \<in> set statusNames" by (rule map_of_SomeD)
  moreover have "list_all (\<lambda>(c, hn). codeOfName (snd hn) = Some c) statusNames" by code_simp
  ultimately have "codeOfName (snd hn) = Some c" by (fastforce simp: list_all_iff)
  with Some show ?thesis by (simp add: httpStatus_def)
qed

interpretation sn: text_codec "\<lambda>c. snd (httpStatus c)" codeOfName in_int64
  by unfold_locales (rule codeOfName_httpStatus)

section \<open>Histories\<close>

text \<open>One REST request on the engine; the response is dropped.\<close>

definition restStep :: "'m reflect \<Rightarrow> (string \<Rightarrow> string) \<Rightarrow> (server, 'm, 'p Engine) rpcRoute list
    \<Rightarrow> restRequest \<Rightarrow> 'p Engine \<Rightarrow> 'p Engine option" where
  "restStep lib quote routes r e = Some (fst (ServeHTTP lib quote routes r e))"

text \<open>
  A generated handler decodes the request and calls its method once: the engine is left alone by
  the reading methods, and the others are RPCs of the adapter.
\<close>

definition runsRpc :: "(('q, 't, 'p) rpc \<Rightarrow> 'p Engine \<Rightarrow> 'p Engine option) \<Rightarrow> (server, 'm, 'p Engine) rpcHandler \<Rightarrow> server \<Rightarrow> bool" where
  "runsRpc serve h srv \<longleftrightarrow>
     (\<forall>m e. fst (h srv m e) = e \<or> (\<exists>c. serve c e = Some (fst (h srv m e))))"

lemma serveRoutes_invoke:
  "(\<And>rt m. rt \<in> set routes \<Longrightarrow> P (fst (invoke rt m s))) \<Longrightarrow> P s \<Longrightarrow>
    P (fst (serveRoutes lib quote routes r segs verb s))"
proof (induction routes)
  case (Cons rt rts)
  show ?case
  proof (cases "matchRoute rt (rq_Method r) segs verb")
    case None
    with Cons show ?thesis by simp
  next
    case (Some vars)
    show ?thesis
    proof (cases "decode lib quote rt r vars")
      case (Inl e)
      with Some Cons.prems(2) show ?thesis by simp
    next
      case (Inr req)
      have "fst (serveRoutes lib quote (rt # rts) r segs verb s) = fst (invoke rt req s)"
        using Some Inr by (simp add: split_beta split: sum.split)
      with Cons.prems(1) [of rt req] show ?thesis by simp
    qed
  qed
qed simp

definition atMostOneRpc :: "pblib \<Rightarrow> menv \<Rightarrow> 'p Engine \<Rightarrow> 'p Engine \<Rightarrow> bool" where
  "atMostOneRpc pb env e e' \<longleftrightarrow> e' = e \<or> (\<exists>c. serveBoth pb env c e = Some e')"

lemma runsRpc_atMostOne:
  "runsRpc (v2Serve pb env) h v2Server \<Longrightarrow> atMostOneRpc pb env e (fst (h v2Server m e))"
  "runsRpc (v2beta3Serve pb env) h v2beta3Server \<Longrightarrow> atMostOneRpc pb env e (fst (h v2beta3Server m e))"
  unfolding runsRpc_def atMostOneRpc_def by (metis serveBoth.simps(1), metis serveBoth.simps(2))

text \<open>REST requests to routes whose handlers are RPCs refine the RPCs of the two adapters.\<close>

definition rpcRoutes :: "pblib \<Rightarrow> menv \<Rightarrow> (server, 'm, 'p Engine) rpcRoute list \<Rightarrow> bool" where
  "rpcRoutes pb env routes \<longleftrightarrow> (\<forall>rt \<in> set routes. \<forall>m e. atMostOneRpc pb env e (fst (invoke rt m e)))"

lemma restStep_rpc:
  assumes "rpcRoutes pb env routes" "restStep lib quote routes r e = Some e'"
  shows "atMostOneRpc pb env e e'"
proof -
  have "atMostOneRpc pb env e (fst (invoke rt m e))" if "rt \<in> set routes" for rt m
    using assms(1) that by (simp add: rpcRoutes_def)
  moreover have "atMostOneRpc pb env e e" by (simp add: atMostOneRpc_def)
  ultimately have "atMostOneRpc pb env e (fst (serveRoutes lib quote routes r segs verb e))" for segs verb
    by (rule serveRoutes_invoke)
  with assms(2) show ?thesis by (auto simp: restStep_def ServeHTTP_def split_beta)
qed

interpretation rest: refining_system "\<lambda>(routes, r). restStep lib quote routes r" "\<lambda>(routes, r). rpcRoutes pb env routes"
    "serveBoth pb env" for lib quote pb env
  by unfold_locales (auto dest: restStep_rpc simp: atMostOneRpc_def)

lemma RESTHandler_rpcRoutes:
  assumes "RESTHandler quote types files d2 d3 = Inr (routes, skipped)"
    and "\<forall>h \<in> snd ` set (sd_Methods d2). runsRpc (v2Serve pb env) h v2Server"
    and "\<forall>h \<in> snd ` set (sd_Methods d3). runsRpc (v2beta3Serve pb env) h v2beta3Server"
  shows "rpcRoutes pb env routes"
  unfolding rpcRoutes_def
proof (intro ballI allI)
  fix rt m e
  assume "rt \<in> set routes"
  from RESTHandler_routes [OF assms(1) this] show "atMostOneRpc pb env e (fst (invoke rt m e))"
  proof (elim disjE conjE)
    assume i: "rt_impl rt = v2Server" and "rt_handler rt \<in> snd ` set (sd_Methods d2)"
    with assms(2) have "runsRpc (v2Serve pb env) (rt_handler rt) v2Server" by (elim bspec)
    then show ?thesis unfolding invoke_def i by (rule runsRpc_atMostOne)
  next
    assume i: "rt_impl rt = v2beta3Server" and "rt_handler rt \<in> snd ` set (sd_Methods d3)"
    with assms(3) have "runsRpc (v2beta3Serve pb env) (rt_handler rt) v2beta3Server" by (elim bspec)
    then show ?thesis unfolding invoke_def i by (rule runsRpc_atMostOne)
  qed
qed

section \<open>Properties\<close>


definition demoUpdateRule :: httpRule where
  "demoUpdateRule = HttpRule (HttpRule_Patch ''/v2/{queue.name=projects/*/locations/*/queues/*}'') ''queue'' []"

definition demoUpdateMethod :: methodDesc where
  "demoUpdateMethod = \<lparr>mth_Name = ''UpdateQueue'', mth_Input = demoTypes ''UpdateQueueRequest'',
     mth_Http = Some demoUpdateRule\<rparr>"

definition demoUpdateRoute :: "(unit, unit) route" where
  "demoUpdateRoute = \<lparr>rt_httpMethod = ''PATCH'',
     rt_segments = \<lparr>sg_literal = ''v2'', sg_wildcard = False\<rparr> #
       map mkSegment [''projects'', ''*'', ''locations'', ''*'', ''queues'', ''*''],
     rt_verb = [], rt_vars = [\<lparr>va_field = ''queue.name'', va_start = 1, va_end = 7\<rparr>],
     rt_body = ''queue'', rt_bodyField = lookupField (demoTypes ''UpdateQueueRequest'') ''queue'',
     rt_input = demoTypes ''UpdateQueueRequest'', rt_impl = (), rt_handler = ()\<rparr>"

definition demoPatch :: "string \<Rightarrow> restRequest" where
  "demoPatch body = \<lparr>rq_Method = ''PATCH'', rq_EscapedPath = ''/v2/projects/p/locations/l/queues/q'',
     rq_Path = ''/v2/projects/p/locations/l/queues/q'',
     rq_Query = [(''$alt'', [''json'']), (''updateMask'', [''rate_limits''])], rq_Body = Inr body\<rparr>"

lemma demoUpdateRoute_new: "newRoute demoQuote demoTypes demoUpdateRule demoUpdateMethod () () = Inr demoUpdateRoute"
  "rt_input demoUpdateRoute = demoTypes ''UpdateQueueRequest''"
  by code_simp+




text \<open>
  C27. A value written into the path is the authoritative one: whatever the body and the query
  say, the field named by a path variable of a decoded request reads as the JSON document
  of the path's value, for the variable that is set last (the only one, in all bindings of this API).
\<close>

theorem path_variable_is_authoritative:
  assumes "reflect_ok lib types get" and "rt_input rt = types (md_FullName (rt_input rt))"
    and "decode lib quote rt r (vars @ [(f, x)]) = Inr m"
  shows "\<exists>fd tmp fresh. resolveField quote types (rt_input rt) f = Inr fd \<and>
    rf_Unmarshal lib (fieldDocument quote fd [x]) fresh = Inr tmp \<and>
    getParts lib get m (Split (CHR ''.'') f) = Some (get tmp fd)"
proof -
  obtain m2 where m2: "decode lib quote rt r [] = Inr m2"
    using assms(3) by (auto simp: decode_def split: sum.splits)
  have d: "rf_Descriptor lib m2 = rt_input rt" and "decodeVars lib quote (vars @ [(f, x)]) m2 = Inr m"
    using decode_phases [OF assms(1,2,3) m2] by auto
  then obtain m3 where m3: "decodeVars lib quote vars m2 = Inr m3" and last: "setFieldPath lib quote m3 f [x] = Inr m"
    by (auto simp: decodeVars_append split: sum.splits)
  have "rf_Descriptor lib m3 = rt_input rt" using decodeVars_Descriptor [OF assms(1) m3] d by simp
  with setParts_get [OF assms(1) last [unfolded setFieldPath_def]] show ?thesis
    by (simp add: resolveField_def)
qed

theorem path_variable_is_authoritative_witness:
  "\<exists>m. decode demoReflect demoQuote demoUpdateRoute
      (demoPatch (''{'' @ demoQuote ''name'' @ '':'' @ demoQuote ''other'' @ ''}''))
      [(''queue.name'', ''projects/p/locations/l/queues/q'')] = Inr m \<and>
    getParts demoReflect dynGet m [''queue'', ''name''] = Some (Some (DStr ''projects/p/locations/l/queues/q''))"
proof -
  let ?r = "demoPatch (''{'' @ demoQuote ''name'' @ '':'' @ demoQuote ''other'' @ ''}'')"
  let ?v = "''projects/p/locations/l/queues/q''"
  have "is_ok (decode demoReflect demoQuote demoUpdateRoute ?r [(''queue.name'', ?v)])" by code_simp
  then obtain m where d: "decode demoReflect demoQuote demoUpdateRoute ?r ([] @ [(''queue.name'', ?v)]) = Inr m"
    unfolding is_ok_iff append_Nil by blast
  have i: "rt_input demoUpdateRoute = demoTypes (md_FullName (rt_input demoUpdateRoute))"
    by (simp add: demoUpdateRoute_new(2) md_FullName_demoTypes)
  obtain fd tmp fresh where fd: "resolveField demoQuote demoTypes (rt_input demoUpdateRoute) ''queue.name'' = Inr fd"
    and tmp: "rf_Unmarshal demoReflect (fieldDocument demoQuote fd [?v]) fresh = Inr tmp"
    and g: "getParts demoReflect dynGet m (Split (CHR ''.'') ''queue.name'') = Some (dynGet tmp fd)"
    using path_variable_is_authoritative [OF demoReflect_ok i d] by blast
  have "resolveField demoQuote demoTypes (rt_input demoUpdateRoute) ''queue.name'' = Inr (hd (md_Fields (demoTypes ''Queue'')))"
    by code_simp
  with fd have fd': "fd = hd (md_Fields (demoTypes ''Queue''))" by simp
  have "fieldDocument demoQuote fd [?v] = ''{'' @ demoQuote ''name'' @ '':'' @ demoQuote ?v @ ''}''"
    unfolding fd' by code_simp
  with tmp have "tmp = Dyn (dynType fresh) [(''name'', DStr ?v)]"
    by (simp add: demoReflect_def dynUnmarshal_def demoQuote_def split: if_splits)
  moreover have "fd_Name fd = ''name''" unfolding fd' by code_simp
  ultimately have "dynGet tmp fd = Some (DStr ?v)" by (simp add: gget_def)
  moreover have "Split (CHR ''.'') ''queue.name'' = [''queue'', ''name'']" by code_simp
  ultimately show ?thesis using d g by auto
qed



text \<open>
  The REST surface adds no behaviour to the gRPC one: any history of REST requests to the
  handler of both services leaves the engine as a history of RPCs of the two adapters, at most
  one for each request, and so keeps it well formed.
\<close>

lemma rest_history_is_rpc_history:
  assumes "RESTHandler quote types files d2 d3 = Inr (routes, skipped)"
    and "\<forall>h \<in> snd ` set (sd_Methods d2). runsRpc (v2Serve pb env) h v2Server"
    and "\<forall>h \<in> snd ` set (sd_Methods d3). runsRpc (v2beta3Serve pb env) h v2beta3Server"
    and "einv e" and "run (restStep lib quote routes) rs e = Some e'"
  shows "einv e' \<and> (\<exists>cs. length cs \<le> length rs \<and> run (serveBoth pb env) cs e = Some e')"
proof -
  let ?es = "map (Pair routes) rs"
  have "list_all (\<lambda>(routes, r). rpcRoutes pb env routes) ?es"
    using RESTHandler_rpcRoutes [OF assms(1-3)] by (simp add: list_all_iff)
  moreover have "run (\<lambda>(routes, r). restStep lib quote routes r) ?es e = Some e'"
    using assms(5) run_map [of "\<lambda>(routes, r). restStep lib quote routes r" "Pair routes" rs e] by simp
  ultimately have "\<exists>cs. length cs \<le> length ?es \<and> run (serveBoth pb env) cs e = Some e'" by (rule rest.run_spec)
  with both.run_inv [OF assms(4)] show ?thesis by auto
qed

definition demoPauseHandler :: "(server, dyn, unit Engine) rpcHandler" where
  "demoPauseHandler srv m e =
     (case dynGet m (hd (md_Fields (demoTypes ''Queue''))) of
        Some (DStr n) \<Rightarrow> (case srv of v2Server \<Rightarrow> fst (v2PauseQueue demoPb n e)
                          | v2beta3Server \<Rightarrow> fst (v2beta3PauseQueue demoPb n e), Inr m)
      | _ \<Rightarrow> (e, Inl (Errorf InvalidArgument ''name is required'' [])))"

definition demoService :: "string \<Rightarrow> (server, dyn, unit Engine) rpcHandler serviceDesc" where
  "demoService v = \<lparr>sd_ServiceName = v, sd_Methods = [(''PauseQueue'', demoPauseHandler)]\<rparr>"

definition demoFiles :: "string \<Rightarrow> string + descriptor" where
  "demoFiles v = Inr (ServiceDescriptor [\<lparr>mth_Name = ''PauseQueue'', mth_Input = demoTypes ''Queue'',
     mth_Http = Some (HttpRule (HttpRule_Post (''/'' @ v @ ''/{name=projects/*/locations/*/queues/*}:pause'')) ''*'' [])\<rparr>])"

definition demoRest :: "(server, dyn, unit Engine) rpcRoute list" where
  "demoRest = fst (projr (RESTHandler demoQuote demoTypes demoFiles (demoService ''v2'') (demoService ''v2beta3'')))"

definition demoPause :: "string \<Rightarrow> restRequest" where
  "demoPause path = \<lparr>rq_Method = ''POST'', rq_EscapedPath = path, rq_Path = path, rq_Query = [], rq_Body = Inr []\<rparr>"

lemma demoPauseHandler_rpc:
  "runsRpc (v2Serve demoPb demoEnv) demoPauseHandler v2Server"
  "runsRpc (v2beta3Serve demoPb demoEnv) demoPauseHandler v2beta3Server"
proof -
  have "fst (demoPauseHandler v2Server m e) = e \<or> (\<exists>n. fst (demoPauseHandler v2Server m e) = fst (v2PauseQueue demoPb n e))"
    "fst (demoPauseHandler v2beta3Server m e) = e \<or>
       (\<exists>n. fst (demoPauseHandler v2beta3Server m e) = fst (v2beta3PauseQueue demoPb n e))" for m e
    by (auto simp: demoPauseHandler_def split: option.split dval.split)
  then show "runsRpc (v2Serve demoPb demoEnv) demoPauseHandler v2Server"
    "runsRpc (v2beta3Serve demoPb demoEnv) demoPauseHandler v2beta3Server"
    unfolding runsRpc_def by (metis v2Serve.simps(5), metis v2beta3Serve.simps(5))
qed

end
