(* ===== verification/Dispatch_Props.thy ===== *)
theory Dispatch_Props
  imports Queue_Machine
begin

text \<open>
  What \<^verbatim>\<open>core/dispatch.go\<close> promises of a request: its outcome, the headers the target receives,
  and what a queue-level override changes in each of its two modes.
\<close>

section \<open>Outcomes\<close>

lemma httpToRPCCode_not_OK: "httpToRPCCode s \<noteq> OK"
  by (simp add: httpToRPCCode_def)

lemma codeNum_OK_iff: "codeNum c = 0 \<longleftrightarrow> c = OK"
  by (cases c) simp_all

text \<open>
  C35. An attempt counts as delivered (rpc code 0) exactly when the request could be built and
  the target answered with a 2xx status; a redirect or any other status, a transport
  error or a request that cannot be built is a failure. A status is recorded exactly when there was a response, a
  transport failure is \<^verbatim>\<open>Unavailable\<close> and a request that cannot be built is
  \<^verbatim>\<open>InvalidArgument\<close>; both leave the status 0.
\<close>

theorem dispatch_succeeds_exactly_on_2xx:
  "let (rpcCode, httpCode, msg) = dispatch gl token client host q t info in
   (rpcCode = 0 \<longleftrightarrow> (\<exists>req s. buildRequest gl token host q t info = Inr req \<and>
      client req (dispatchDeadline t) = Inr s \<and> 200 \<le> s \<and> s < 300)) \<and>
   (case buildRequest gl token host q t info of
      Inl err \<Rightarrow> (rpcCode, httpCode, msg) = (3, 0, err)
    | Inr req \<Rightarrow> (case client req (dispatchDeadline t) of
          Inl err \<Rightarrow> (rpcCode, httpCode, msg) = (14, 0, err)
        | Inr s \<Rightarrow> httpCode = s))"
  by (auto simp: dispatch_def codeNum_OK_iff httpToRPCCode_not_OK split: sum.split)

section \<open>Headers\<close>

lemma gget_setRawHeader: "gget (setRawHeader k v h) k' = (if k' = k then Some [v] else gget h k')"
  by (simp add: setRawHeader_def gm.get_set)

text \<open>The keys the system headers are stored under, none of which is in canonical form.\<close>

definition systemKeys :: "string \<Rightarrow> string list" where
  "systemKeys prefix = map ((@) prefix) [''-QueueName'', ''-TaskName'', ''-TaskRetryCount'',
     ''-TaskExecutionCount'', ''-TaskETA'', ''-TaskPreviousResponse'', ''-TaskRetryReason'']"

definition systemHeaders :: "string \<Rightarrow> Queue \<Rightarrow> Task \<Rightarrow> attemptInfo \<Rightarrow> header \<Rightarrow> bool" where
  "systemHeaders prefix q t info h \<longleftrightarrow>
     gget h (prefix @ ''-QueueName'') = Some [queueID (q_Name q)] \<and>
     gget h (prefix @ ''-TaskName'') = Some [taskID (t_Name t)] \<and>
     gget h (prefix @ ''-TaskRetryCount'') = Some [Itoa (wrap32 (ai_number info - 1))] \<and>
     gget h (prefix @ ''-TaskExecutionCount'') = Some [Itoa (ai_executionCount info)] \<and>
     gget h (prefix @ ''-TaskETA'') = Some [etaString (t_ScheduleTime t)] \<and>
     (ai_prevHTTPCode info \<noteq> 0 \<longrightarrow>
        gget h (prefix @ ''-TaskPreviousResponse'') = Some [Itoa (ai_prevHTTPCode info)]) \<and>
     (ai_prevReason info \<noteq> [] \<longrightarrow> gget h (prefix @ ''-TaskRetryReason'') = Some [ai_prevReason info])"

lemma systemHeaders_set: "systemHeaders prefix q t info (setSystemHeaders prefix q t info h)"
  by (simp add: systemHeaders_def setSystemHeaders_def Let_def gget_setRawHeader)

lemma setSystemHeaders_other:
  "k \<notin> set (systemKeys prefix) \<Longrightarrow> gget (setSystemHeaders prefix q t info h) k = gget h k"
  by (simp add: setSystemHeaders_def systemKeys_def Let_def gget_setRawHeader)

lemma systemHeaders_cong:
  "(\<And>k. k \<in> set (systemKeys prefix) \<Longrightarrow> gget h' k = gget h k) \<Longrightarrow>
     systemHeaders prefix q t info h' = systemHeaders prefix q t info h"
  by (simp add: systemHeaders_def systemKeys_def)

lemma CanonicalHeaderKey_plain [simp]:
  "CanonicalHeaderKey ''Authorization'' = ''Authorization''" "CanonicalHeaderKey ''User-Agent'' = ''User-Agent''"
  by code_simp+

lemma setAuthHeader_other: "k \<noteq> ''Authorization'' \<Longrightarrow> gget (setAuthHeader token a u h) k = gget h k"
  by (simp add: setAuthHeader_def headerSet_def gm.get_set_other Let_def split: AuthKind.split)

text \<open>
  Whatever headers the task and the queue's override carry, the request of an HTTP task
  has the Cloud Tasks headers with the values of this task, this queue and this attempt,
  under their documented spelling, and the Cloud Tasks user agent.
\<close>

lemma http_request_carries_system_headers:
  assumes "buildHTTPRequest gl token q t info = Inr req"
  shows "systemHeaders ''X-CloudTasks'' q t info (req_Header req) \<and>
    gget (req_Header req) ''User-Agent'' = Some [''Google-Cloud-Tasks'']"
proof -
  let ?p = "''X-CloudTasks''"
  have keys: "''Authorization'' \<notin> set (systemKeys ?p)" "''User-Agent'' \<notin> set (systemKeys ?p)"
    by (simp_all add: systemKeys_def)
  obtain mth url headers auth where ov: "applyHTTPOverride gl (tg_Method (t_Target t)) (tg_URL (t_Target t))
      (cloneHeaders (tg_Headers (t_Target t))) (tg_Auth (t_Target t)) (q_HTTPOverride q) = (mth, url, headers, auth)"
    by (metis prod_cases4)
  then obtain req0 where "newRequest gl (methodOrPost mth) url (tg_Body (t_Target t)) headers = Inr req0"
    using assms by (auto simp: buildHTTPRequest_def split: sum.splits)
  then have h: "req_Header req =
      (case auth of Some a \<Rightarrow> setAuthHeader token a url
         (setSystemHeaders ?p q t info (headerSet ''User-Agent'' httpUserAgent (req_Header req0)))
       | None \<Rightarrow> setSystemHeaders ?p q t info (headerSet ''User-Agent'' httpUserAgent (req_Header req0)))"
    using assms ov by (auto simp: buildHTTPRequest_def Let_def)
  have same: "gget (req_Header req) k =
      gget (setSystemHeaders ?p q t info (headerSet ''User-Agent'' httpUserAgent (req_Header req0))) k"
    if "k \<noteq> ''Authorization''" for k
    using that by (simp add: h setAuthHeader_other split: option.split)
  have "systemHeaders ?p q t info (req_Header req)"
    using systemHeaders_set systemHeaders_cong [of ?p, OF same] keys(1) by blast
  moreover have "gget (req_Header req) ''User-Agent'' = Some [''Google-Cloud-Tasks'']"
    by (simp add: same setSystemHeaders_other [OF keys(2)] headerSet_def httpUserAgent_def)
  ultimately show ?thesis by blast
qed

definition demoInfo :: attemptInfo where
  "demoInfo = \<lparr>ai_number = 1, ai_executionCount = 0, ai_prevHTTPCode = 0, ai_prevReason = []\<rparr>"

section \<open>Overrides\<close>








text \<open>
  \<^verbatim>\<open>applyURIOverride\<close> rebuilds the host from \<^verbatim>\<open>Hostname\<close> and \<^verbatim>\<open>Port\<close>, and \<^verbatim>\<open>Hostname\<close> strips the brackets of
  an IPv6 address: the host of a task URL with an IPv6 address comes out without brackets
  even when the override sets no part of the URL at all.
\<close>

lemma override_breaks_ipv6_hosts:
  "u_Host (overrideURL (demoURL\<lparr>u_Host := ''[::1]:8080''\<rparr>) zeroHTTPOverride) = ''::1:8080''"
  by code_simp

text \<open>
  Override headers are compared with the task's headers by exact spelling, while the request
  is built by canonical name. A task header that differs from the override's only in
  capitalisation is therefore not seen as present, both reach the request builder, and which
  one wins depends on the order in which the map is visited, even when the override must not
  replace what the task has.
\<close>

lemma override_header_case_race:
  "let h = overrideHeaders (zeroHTTPOverride\<lparr>ov_Headers := [(''X-Trace'', ''queue'')]\<rparr>) [(''x-trace'', ''task'')] in
   map_option (\<lambda>r. headerGet ''X-Trace'' (req_Header r)) (case newRequest (me_gl demoEnv) ''GET'' ''http://h/'' [] h of
       Inr r \<Rightarrow> Some r | Inl _ \<Rightarrow> None) = Some ''queue'' \<and>
   map_option (\<lambda>r. headerGet ''X-Trace'' (req_Header r)) (case newRequest (me_gl demoEnv) ''GET'' ''http://h/'' [] (rev h) of
       Inr r \<Rightarrow> Some r | Inl _ \<Rightarrow> None) = Some ''task''"
  by code_simp

end
