(* ===== verification/Oidc.thy ===== *)
theory Oidc
  imports Go_Json Dispatch_Props
begin

text \<open>
  \<^verbatim>\<open>core/oidc.go\<close>: the ID tokens of dispatched tasks and the documents that publish the key. The
  primitives of \<^verbatim>\<open>crypto\<close> (RSA keys and signatures, SHA-256, the DER and PEM encodings of keys and
  certificates) are the argument \<^verbatim>\<open>cr\<close>; JSON texts, base64 and the assembly of tokens and
  documents are modelled. A key is of an arbitrary type; \<^const>\<open>None\<close> is the nil key.
\<close>

record 'k crypto =
  cr_N :: "'k \<Rightarrow> nat"
  cr_E :: "'k \<Rightarrow> nat"
  cr_PKIX :: "'k \<Rightarrow> string"
  cr_SHA256 :: "string \<Rightarrow> string"
  cr_Sign :: "'k \<Rightarrow> string \<Rightarrow> string"
  cr_Certificate :: "'k \<Rightarrow> time \<Rightarrow> string \<Rightarrow> string"
  cr_PEM :: "string \<Rightarrow> string"

record 'k Signer =
  sn_issuer :: string
  sn_key :: "'k option"
  sn_kid :: string
  sn_jwks :: string
  sn_certs :: string
  sn_discovery :: string

definition defaultOIDCIssuer :: string where "defaultOIDCIssuer = ''https://accounts.google.com''"
definition discoveryPath :: string where "discoveryPath = ''/.well-known/openid-configuration''"
definition jwksPath :: string where "jwksPath = ''/jwks''"
definition certsPath :: string where "certsPath = ''/certs''"

definition b64url :: "string \<Rightarrow> string" where
  "b64url b = EncodeToString b"

text \<open>\<^verbatim>\<open>big.Int.Bytes\<close>: big-endian, without leading zeros. \<^verbatim>\<open>hex.EncodeToString\<close>: two digits a byte.\<close>

fun natBytes :: "nat \<Rightarrow> string" where
  "natBytes n = (if n = 0 then [] else natBytes (n div 256) @ [char_of (n mod 256)])"

declare natBytes.simps [simp del]

definition hexString :: "string \<Rightarrow> string" where
  "hexString s = concat (map (\<lambda>c. [hexLower (of_char c div 16), hexLower (of_char c mod 16)]) s)"

section \<open>Published documents\<close>

definition keyID :: "'k crypto \<Rightarrow> 'k option \<Rightarrow> string" where
  "keyID cr key = (case key of None \<Rightarrow> [] | Some k \<Rightarrow> hexString (take 10 (cr_SHA256 cr (cr_PKIX cr k))))"

definition jwkOf :: "'k crypto \<Rightarrow> 'k \<Rightarrow> string \<Rightarrow> json" where
  "jwkOf cr k kid = jsonMap [(''kty'', JStr ''RSA''), (''alg'', JStr ''RS256''), (''use'', JStr ''sig''),
     (''kid'', JStr kid), (''n'', JStr (b64url (natBytes (cr_N cr k)))), (''e'', JStr (b64url (natBytes (cr_E cr k))))]"

definition jwksOf :: "'k crypto \<Rightarrow> 'k option \<Rightarrow> string \<Rightarrow> json" where
  "jwksOf cr key kid =
     jsonMap [(''keys'', JArr (case key of None \<Rightarrow> [] | Some k \<Rightarrow> [jwkOf cr k kid]))]"

definition buildJWKS :: "'k crypto \<Rightarrow> 'k option \<Rightarrow> string \<Rightarrow> string" where
  "buildJWKS cr key kid = jsonText (jwksOf cr key kid)"

definition buildCerts :: "'k crypto \<Rightarrow> time \<Rightarrow> 'k option \<Rightarrow> string \<Rightarrow> string \<Rightarrow> string" where
  "buildCerts cr now key kid issuer =
     jsonText (jsonMap (case key of None \<Rightarrow> []
       | Some k \<Rightarrow> [(kid, JStr (cr_PEM cr (cr_Certificate cr k now issuer)))]))"

definition discoveryOf :: "string \<Rightarrow> json" where
  "discoveryOf issuer = jsonMap
     [(''issuer'', JStr issuer), (''jwks_uri'', JStr (issuer @ jwksPath)),
      (''id_token_signing_alg_values_supported'', JArr [JStr ''RS256'']),
      (''response_types_supported'', JArr [JStr ''id_token'']),
      (''subject_types_supported'', JArr [JStr ''public'']),
      (''claims_supported'', JArr (map JStr [''aud'', ''email'', ''email_verified'', ''exp'', ''iat'', ''iss'', ''sub'']))]"

definition NewSigner :: "'k crypto \<Rightarrow> time \<Rightarrow> string \<Rightarrow> 'k option \<Rightarrow> 'k Signer" where
  "NewSigner cr now issuer0 key =
     (let issuer = (if issuer0 = [] then defaultOIDCIssuer else issuer0); kid = keyID cr key
      in \<lparr>sn_issuer = issuer, sn_key = key, sn_kid = kid, sn_jwks = buildJWKS cr key kid,
          sn_certs = buildCerts cr now key kid issuer, sn_discovery = jsonText (discoveryOf issuer)\<rparr>)"

definition Issuer :: "'k Signer \<Rightarrow> string" where
  "Issuer s = sn_issuer s"

text \<open>The body served at a path, or \<^const>\<open>None\<close> for a path that is not registered.\<close>

definition HandlerOpenID :: "'k Signer \<Rightarrow> string \<Rightarrow> (string \<times> string) option" where
  "HandlerOpenID s path =
     (if path = discoveryPath then Some (''application/json'', sn_discovery s)
      else if path = jwksPath then Some (''application/json'', sn_jwks s)
      else if path = certsPath then Some (''application/json'', sn_certs s)
      else None)"

section \<open>Tokens\<close>

definition unixTime :: "time \<Rightarrow> int" where
  "unixTime t = t div second"

definition claimsOf :: "'k Signer \<Rightarrow> time \<Rightarrow> string \<Rightarrow> string \<Rightarrow> json" where
  "claimsOf s now email audience = jsonMap
     [(''iss'', JStr (sn_issuer s)), (''aud'', JStr audience), (''azp'', JStr email), (''email'', JStr email),
      (''email_verified'', JBool True), (''sub'', JStr email), (''iat'', JInt (unixTime now)),
      (''exp'', JInt (unixTime (now + hour)))]"

definition headerOf :: "'k Signer \<Rightarrow> json" where
  "headerOf s = jsonMap [(''alg'', JStr ''RS256''), (''typ'', JStr ''JWT''), (''kid'', JStr (sn_kid s))]"

definition Token :: "'k crypto \<Rightarrow> 'k Signer \<Rightarrow> time \<Rightarrow> string \<Rightarrow> string \<Rightarrow> string" where
  "Token cr s now email audience =
     (let claims = jsonText (claimsOf s now email audience) in
      case sn_key s of
        None \<Rightarrow>
          b64url (jsonText (JObj [(''alg'', JStr ''none''), (''typ'', JStr ''JWT'')])) @ ''.'' @ b64url claims @ ''.''
      | Some k \<Rightarrow>
          let signingInput = b64url (jsonText (headerOf s)) @ ''.'' @ b64url claims
          in signingInput @ ''.'' @ b64url (cr_Sign cr k (cr_SHA256 cr signingInput)))"

section \<open>Verification by a target\<close>

fun jget :: "json \<Rightarrow> string \<Rightarrow> json option" where
  "jget (JObj ms) k = map_of ms k"
| "jget _ k = None"

definition bytesVal :: "string \<Rightarrow> nat" where
  "bytesVal s = foldl (\<lambda>n c. 256 * n + of_char c) 0 s"

text \<open>A member of a JSON Web Key as the number its base64 text stands for.\<close>

definition jwkNumber :: "json \<Rightarrow> string \<Rightarrow> nat option" where
  "jwkNumber jwk k =
     (case jget jwk k of Some (JStr t) \<Rightarrow> map_option bytesVal (DecodeString t) | _ \<Rightarrow> None)"

text \<open>
  What a target checks of a token: three parts that decode, a header that names RS256 and a key of
  the published set, a signature that this key verifies, and the claims.
\<close>

definition tokenVerifies :: "'k crypto \<Rightarrow> (nat \<times> nat \<Rightarrow> string \<Rightarrow> string \<Rightarrow> bool) \<Rightarrow> json \<Rightarrow> string \<Rightarrow> string
    \<Rightarrow> time \<Rightarrow> string \<Rightarrow> bool" where
  "tokenVerifies cr verify jwks issuer audience now tok \<longleftrightarrow>
     (\<exists>h c sg header claims sig kid keys jwk n e iat xp.
        Split (CHR ''.'') tok = [h, c, sg] \<and>
        DecodeString h = Some (jsonText header) \<and> DecodeString c = Some (jsonText claims) \<and> DecodeString sg = Some sig \<and>
        jget header ''alg'' = Some (JStr ''RS256'') \<and> jget header ''kid'' = Some (JStr kid) \<and>
        jget jwks ''keys'' = Some (JArr keys) \<and> jwk \<in> set keys \<and> jget jwk ''kid'' = Some (JStr kid) \<and>
        jwkNumber jwk ''n'' = Some n \<and> jwkNumber jwk ''e'' = Some e \<and>
        verify (n, e) (cr_SHA256 cr (h @ ''.'' @ c)) sig \<and>
        jget claims ''iss'' = Some (JStr issuer) \<and> jget claims ''aud'' = Some (JStr audience) \<and>
        jget claims ''iat'' = Some (JInt iat) \<and> jget claims ''exp'' = Some (JInt xp) \<and>
        iat \<le> unixTime now \<and> unixTime now < xp)"

lemma bytesVal_append: "bytesVal (s @ [c]) = 256 * bytesVal s + of_char c"
  by (simp add: bytesVal_def)

lemma bytesVal_natBytes [simp]: "bytesVal (natBytes n) = n"
proof (induction n rule: natBytes.induct)
  case (1 n)
  show ?case
  proof (cases "n = 0")
    case True
    then show ?thesis by (subst natBytes.simps) (simp add: bytesVal_def)
  next
    case False
    with 1 have "bytesVal (natBytes (n div 256)) = n div 256" by simp
    with False show ?thesis by (subst natBytes.simps) (simp add: bytesVal_append)
  qed
qed

interpretation nb: text_codec natBytes "\<lambda>s. Some (bytesVal s)" "\<lambda>_. True"
  by unfold_locales simp

lemma jget_jsonMap [simp]: "distinct (map fst ms) \<Longrightarrow> jget (jsonMap ms) k = map_of ms k"
proof -
  assume d: "distinct (map fst ms)"
  have "distinct (map fst (sort_key fst ms))"
    using d by (simp add: distinct_map)
  then have "map_of (sort_key fst ms) = map_of ms" using d by (simp add: map_of_inject_set)
  then show ?thesis by (simp add: jsonMap_def)
qed

lemma dot_not_b64: "CHR ''.'' \<notin> set (b64url s)"
proof -
  have "b64_char d \<noteq> CHR ''.''" if "d < 64" for d
    using b64_val_char [OF that] by (auto simp: b64_val_def)
  moreover have "\<forall>d \<in> set (b64_enc (map of_char s)). d < 64" by (rule b64_enc_bound) auto
  ultimately show ?thesis by (fastforce simp: b64url_def EncodeToString_def image_iff)
qed

lemma Token_parts:
  assumes "sn_key s = Some k"
  shows "\<exists>h c. Split (CHR ''.'') (Token cr s now email aud) = [h, c, b64url (cr_Sign cr k (cr_SHA256 cr (h @ ''.'' @ c)))] \<and>
    h = b64url (jsonText (headerOf s)) \<and> c = b64url (jsonText (claimsOf s now email aud))"
  using assms dot_not_b64 by (simp add: Token_def Let_def Split_append Split_single)

lemma unixTime_hour: "unixTime (now + hour) = unixTime now + 3600"
  by (simp add: unixTime_def second_def hour_def)

lemma jwk_members:
  "jget (jwkOf cr k kid) ''kid'' = Some (JStr kid)" "jwkNumber (jwkOf cr k kid) ''n'' = Some (cr_N cr k)"
  "jwkNumber (jwkOf cr k kid) ''e'' = Some (cr_E cr k)"
  by (simp_all add: jwkOf_def jwkNumber_def b64url_def)

lemma Token_verifies:
  assumes sign: "\<And>k d. verify (cr_N cr k, cr_E cr k) d (cr_Sign cr k d)"
    and key: "sn_key s = Some k" and "now \<le> now'" "now' < now + hour - second"
  shows "tokenVerifies cr verify (jwksOf cr (Some k) (sn_kid s)) (sn_issuer s) aud now' (Token cr s now email aud)"
proof -
  have t: "unixTime now \<le> unixTime now'" "unixTime now' < unixTime now + 3600"
    using assms(3,4) by (auto simp: unixTime_def second_def hour_def)
  obtain h c where hc: "Split (CHR ''.'') (Token cr s now email aud) = [h, c, b64url (cr_Sign cr k (cr_SHA256 cr (h @ ''.'' @ c)))]"
    "h = b64url (jsonText (headerOf s))" "c = b64url (jsonText (claimsOf s now email aud))"
    using Token_parts [OF key] by blast
  show ?thesis
    unfolding tokenVerifies_def
  proof (intro exI conjI)
    show "Split (CHR ''.'') (Token cr s now email aud) = [h, c, b64url (cr_Sign cr k (cr_SHA256 cr (h @ ''.'' @ c)))]"
      by (rule hc(1))
    show "DecodeString h = Some (jsonText (headerOf s))" "DecodeString c = Some (jsonText (claimsOf s now email aud))"
      by (simp_all add: hc(2,3) b64url_def)
    show "verify (cr_N cr k, cr_E cr k) (cr_SHA256 cr (h @ ''.'' @ c)) (cr_Sign cr k (cr_SHA256 cr (h @ ''.'' @ c)))"
      by (rule sign)
    show "unixTime now \<le> unixTime now'" "unixTime now' < unixTime now + 3600" by (rule t)+
    show "jwkOf cr k (sn_kid s) \<in> set [jwkOf cr k (sn_kid s)]" by simp
  qed (simp_all add: headerOf_def claimsOf_def jwksOf_def jwk_members unixTime_hour b64url_def)
qed

lemma NewSigner_key:
  "sn_key (NewSigner cr t0 issuer key) = key" "sn_kid (NewSigner cr t0 issuer key) = keyID cr key"
  "sn_issuer (NewSigner cr t0 issuer key) = (if issuer = [] then defaultOIDCIssuer else issuer)"
  by (simp_all add: NewSigner_def Let_def)

lemma published_documents:
  "HandlerOpenID (NewSigner cr t0 issuer key) jwksPath = Some (''application/json'', jsonText (jwksOf cr key (keyID cr key)))"
  "HandlerOpenID s discoveryPath = Some (''application/json'', sn_discovery s)"
  "sn_discovery (NewSigner cr t0 issuer key) = jsonText (discoveryOf (sn_issuer (NewSigner cr t0 issuer key)))"
  by (simp_all add: HandlerOpenID_def NewSigner_def Let_def buildJWKS_def discoveryPath_def jwksPath_def)

lemma discovery_members:
  "jget (discoveryOf issuer) ''issuer'' = Some (JStr issuer)"
  "jget (discoveryOf issuer) ''jwks_uri'' = Some (JStr (issuer @ jwksPath))"
  by (simp_all add: discoveryOf_def)

section \<open>Dispatched requests\<close>

text \<open>The authentication of a dispatched HTTP task: the task's, or the one the queue's override puts in its place.\<close>

definition effectiveAuth :: "golib \<Rightarrow> Queue \<Rightarrow> Task \<Rightarrow> Auth option" where
  "effectiveAuth gl q t = snd (snd (snd (applyHTTPOverride gl (tg_Method (t_Target t)) (tg_URL (t_Target t))
     (cloneHeaders (tg_Headers (t_Target t))) (tg_Auth (t_Target t)) (q_HTTPOverride q))))"

lemma buildHTTPRequest_oidc:
  assumes "buildHTTPRequest gl token q t info = Inr req" "effectiveAuth gl q t = Some a" "auth_Kind a = AuthOIDC"
  shows "gget (req_Header req) ''Authorization'' = Some [''Bearer '' @ token (auth_ServiceAccountEmail a)
    (if auth_Audience a = [] then req_URL req else auth_Audience a)]"
proof -
  obtain mth url headers auth where ov: "applyHTTPOverride gl (tg_Method (t_Target t)) (tg_URL (t_Target t))
      (cloneHeaders (tg_Headers (t_Target t))) (tg_Auth (t_Target t)) (q_HTTPOverride q) = (mth, url, headers, auth)"
    by (metis prod_cases4)
  with assms(2) have auth: "auth = Some a" by (simp add: effectiveAuth_def)
  obtain req0 where r0: "newRequest gl (methodOrPost mth) url (tg_Body (t_Target t)) headers = Inr req0"
    using assms(1) ov by (auto simp: buildHTTPRequest_def split: sum.splits)
  then have "req_URL req0 = url" by (auto simp: newRequest_def split: if_splits sum.splits)
  with assms(1) ov auth r0 have "req_URL req = url" "req_Header req = setAuthHeader token a url
      (setSystemHeaders ''X-CloudTasks'' q t info (headerSet ''User-Agent'' httpUserAgent (req_Header req0)))"
    by (auto simp: buildHTTPRequest_def Let_def)
  then show ?thesis using assms(3) by (simp add: setAuthHeader_def headerSet_def CanonicalHeaderKey_plain Let_def)
qed

text \<open>
  C29. A target can check a dispatched OIDC request against the emulator end to end: the request
  carries a bearer token whose signature verifies under the key published at \<^verbatim>\<open>/jwks\<close> with the key id in
  the token's header, whose issuer is the one of the discovery document, whose audience is the
  configured one or else the URL of the request, and which is valid for an hour.
\<close>

theorem dispatched_oidc_token_verifies:
  assumes "\<forall>k d. verify (cr_N cr k, cr_E cr k) d (cr_Sign cr k d)"
    and "s = NewSigner cr t0 issuer (Some k)"
    and "buildHTTPRequest gl (Token cr s now) q t info = Inr req"
    and "effectiveAuth gl q t = Some a" and "auth_Kind a = AuthOIDC"
    and "now \<le> now'" and "now' < now + hour - second"
  shows "\<exists>jwks tok. HandlerOpenID s jwksPath = Some (''application/json'', jsonText jwks) \<and>
    HandlerOpenID s discoveryPath = Some (''application/json'', jsonText (discoveryOf (Issuer s))) \<and>
    jget (discoveryOf (Issuer s)) ''jwks_uri'' = Some (JStr (Issuer s @ jwksPath)) \<and>
    gget (req_Header req) ''Authorization'' = Some [''Bearer '' @ tok] \<and>
    tokenVerifies cr verify jwks (Issuer s) (if auth_Audience a = [] then req_URL req else auth_Audience a) now' tok"
proof (intro exI conjI)
  have key: "sn_key s = Some k" "sn_kid s = keyID cr (Some k)" using assms(2) by (simp_all add: NewSigner_key)
  show "HandlerOpenID s jwksPath = Some (''application/json'', jsonText (jwksOf cr (Some k) (sn_kid s)))"
    "HandlerOpenID s discoveryPath = Some (''application/json'', jsonText (discoveryOf (Issuer s)))"
    using assms(2) by (simp_all add: published_documents NewSigner_key Issuer_def)
  show "jget (discoveryOf (Issuer s)) ''jwks_uri'' = Some (JStr (Issuer s @ jwksPath))" by (rule discovery_members)
  let ?aud = "if auth_Audience a = [] then req_URL req else auth_Audience a"
  show "gget (req_Header req) ''Authorization'' = Some [''Bearer '' @ Token cr s now (auth_ServiceAccountEmail a) ?aud]"
    by (rule buildHTTPRequest_oidc [OF assms(3-5)])
  show "tokenVerifies cr verify (jwksOf cr (Some k) (sn_kid s)) (Issuer s) ?aud now'
      (Token cr s now (auth_ServiceAccountEmail a) ?aud)"
    unfolding Issuer_def by (rule Token_verifies [OF _ key(1) assms(6,7)]) (simp add: assms(1))
qed

lemma buildHTTPRequest_isl: "isl (buildHTTPRequest gl token q t info) = isl (buildHTTPRequest gl token' q t info)"
  by (simp add: buildHTTPRequest_def Let_def split_beta split: sum.split)

text \<open>An instance of the primitives: a signature is the digest behind the modulus.\<close>

definition demoCrypto :: "nat crypto" where
  "demoCrypto = \<lparr>cr_N = (\<lambda>k. k), cr_E = (\<lambda>k. 3), cr_PKIX = natBytes, cr_SHA256 = (\<lambda>s. rev s),
     cr_Sign = (\<lambda>k d. natBytes k @ d), cr_Certificate = (\<lambda>k now i. i), cr_PEM = (\<lambda>d. d)\<rparr>"

definition demoVerify :: "nat \<times> nat \<Rightarrow> string \<Rightarrow> string \<Rightarrow> bool" where
  "demoVerify p d sig \<longleftrightarrow> sig = natBytes (fst p) @ d"

definition demoOidcTask :: Task where
  "demoOidcTask = (let t = demoTask ''projects/p/locations/l/queues/q/tasks/a''
     in t\<lparr>t_Target := (t_Target t)\<lparr>tg_Auth := Some \<lparr>auth_Kind = AuthOIDC, auth_ServiceAccountEmail = ''sa'',
          auth_Audience = [], auth_Scope = []\<rparr>\<rparr>\<rparr>)"

theorem dispatched_oidc_token_verifies_witness:
  "let s = NewSigner demoCrypto 0 [] (Some 77) in
   \<exists>req jwks tok. buildHTTPRequest (me_gl demoEnv) (Token demoCrypto s 0) zeroQueue demoOidcTask demoInfo = Inr req \<and>
     gget (req_Header req) ''Authorization'' = Some [''Bearer '' @ tok] \<and>
     tokenVerifies demoCrypto demoVerify jwks defaultOIDCIssuer (req_URL req) (5 * second) tok"
proof -
  let ?s = "NewSigner demoCrypto 0 [] (Some 77)"
  let ?b = "buildHTTPRequest (me_gl demoEnv) (Token demoCrypto ?s 0) zeroQueue demoOidcTask demoInfo"
  have "effectiveAuth (me_gl demoEnv) zeroQueue demoOidcTask = Some \<lparr>auth_Kind = AuthOIDC,
      auth_ServiceAccountEmail = ''sa'', auth_Audience = [], auth_Scope = []\<rparr>" by code_simp
  moreover have "\<forall>k d. demoVerify (cr_N demoCrypto k, cr_E demoCrypto k) d (cr_Sign demoCrypto k d)"
    by (simp add: demoVerify_def demoCrypto_def)
  moreover have "\<not> isl (buildHTTPRequest (me_gl demoEnv) (\<lambda>_ _. []) zeroQueue demoOidcTask demoInfo)" by code_simp
  then have "\<not> isl ?b" using buildHTTPRequest_isl by metis
  then obtain req where "?b = Inr req" by (cases ?b) simp_all
  moreover have "(0::int) \<le> 5 * second" "5 * second < 0 + hour - second" by (simp_all add: second_def hour_def)
  ultimately show ?thesis
    using dispatched_oidc_token_verifies [of demoVerify demoCrypto ?s 0 "[]" 77 "me_gl demoEnv" 0 zeroQueue demoOidcTask
        demoInfo req _ "5 * second"] by (auto simp: Issuer_def NewSigner_key)
qed

end
