(* ===== verification/Emulator_Api.thy ===== *)
theory Emulator_Api
  imports Rest_Props Oidc
begin

text \<open>
  \<^verbatim>\<open>emulator/emulator.go\<close>: the wrapper around one engine. The signer, which the Go struct \<^verbatim>\<open>Engine\<close> keeps in a field, is
  beside the engine here, because only the dispatches and the OpenID handler use it. The key is the one of the
  process, \<^verbatim>\<open>defaultSigningKey\<close>, generated by the first engine that is built; \<^verbatim>\<open>GenerateKey\<close> and its random source are
  arguments, and so are the gRPC server and its \<^verbatim>\<open>RegisterService\<close>.
\<close>

section \<open>The key of the process\<close>

record ('k, 'r) keyCell =
  kc_once :: "'k option option"
  kc_rand :: 'r

definition defaultSigningKey :: "('r \<Rightarrow> 'k option \<times> 'r) \<Rightarrow> ('k, 'r) keyCell \<Rightarrow> 'k option \<times> ('k, 'r) keyCell" where
  "defaultSigningKey GenerateKey c =
     (case kc_once c of
        Some key \<Rightarrow> (key, c)
      | None \<Rightarrow> let (key, r) = GenerateKey (kc_rand c) in (key, \<lparr>kc_once = Some key, kc_rand = r\<rparr>))"

section \<open>The emulator\<close>

record ('p, 'k) Emulator =
  em_engine :: "'p Engine"
  em_signer :: "'k Signer"

definition NewEmulator :: "'k crypto \<Rightarrow> ('r \<Rightarrow> 'k option \<times> 'r) \<Rightarrow> time \<Rightarrow> Config \<Rightarrow> ('k, 'r) keyCell
    \<Rightarrow> ('p, 'k) Emulator \<times> ('k, 'r) keyCell" where
  "NewEmulator cr GenerateKey now cfg c =
     (let (key, c') = defaultSigningKey GenerateKey c
      in (\<lparr>em_engine = NewEngine cfg, em_signer = NewSigner cr now (cfg_OpenIDIssuer cfg) key\<rparr>, c'))"

definition EngineSigner :: "('p, 'k) Emulator \<Rightarrow> 'k Signer" where
  "EngineSigner e = em_signer e"

definition OpenIDHandler :: "('p, 'k) Emulator \<Rightarrow> string \<Rightarrow> (string \<times> string) option" where
  "OpenIDHandler e = HandlerOpenID (EngineSigner e)"

definition EmulatorEnsureQueue :: "string \<Rightarrow> ('p, 'k) Emulator \<Rightarrow> ('p, 'k) Emulator \<times> unit result" where
  "EmulatorEnsureQueue name e =
     (case EnsureQueue name (em_engine e) of (eng, r) \<Rightarrow> (e\<lparr>em_engine := eng\<rparr>, r))"

text \<open>
  Both services, first v2 and then v2beta3; the implementation says which adapter serves the call, on the one engine of
  the emulator.
\<close>

definition Register :: "('h serviceDesc \<Rightarrow> server \<Rightarrow> 'g \<Rightarrow> 'g) \<Rightarrow> 'h serviceDesc \<Rightarrow> 'h serviceDesc \<Rightarrow> 'g \<Rightarrow> 'g" where
  "Register RegisterService v2Desc v2beta3Desc gs =
     RegisterService v2beta3Desc v2beta3Server (RegisterService v2Desc v2Server gs)"

text \<open>All the emulators of a process, one after the other.\<close>

fun NewEmulators :: "'k crypto \<Rightarrow> ('r \<Rightarrow> 'k option \<times> 'r) \<Rightarrow> (time \<times> Config) list \<Rightarrow> ('k, 'r) keyCell
    \<Rightarrow> ('p, 'k) Emulator list \<times> ('k, 'r) keyCell" where
  "NewEmulators cr gen [] c = ([], c)"
| "NewEmulators cr gen ((now, cfg) # cs) c =
     (let (e, c1) = NewEmulator cr gen now cfg c; (es, c2) = NewEmulators cr gen cs c1 in (e # es, c2))"

section \<open>One key and one engine\<close>

definition processKey :: "('r \<Rightarrow> 'k option \<times> 'r) \<Rightarrow> ('k, 'r) keyCell \<Rightarrow> 'k option" where
  "processKey gen c = fst (defaultSigningKey gen c)"

lemma defaultSigningKey_once:
  assumes "defaultSigningKey gen c = (key, c')"
  shows "key = processKey gen c" "kc_once c' = Some (processKey gen c)" "processKey gen c' = processKey gen c"
  using assms by (auto simp: defaultSigningKey_def processKey_def split: option.splits prod.splits)

lemma NewEmulators_length: "NewEmulators cr gen cs c = (es, c') \<Longrightarrow> length es = length cs"
  by (induction cs arbitrary: c es) (auto simp: Let_def split: prod.splits)

lemma NewEmulators_signer:
  "NewEmulators cr gen cs c = (es :: ('p, 'k) Emulator list, c') \<Longrightarrow> i < length es \<Longrightarrow>
     EngineSigner (es ! i) = NewSigner cr (fst (cs ! i)) (cfg_OpenIDIssuer (snd (cs ! i))) (processKey gen c) \<and>
     em_engine (es ! i) = NewEngine (snd (cs ! i))"
proof (induction cs arbitrary: c c' es i)
  case (Cons nc cs)
  obtain now cfg where nc: "nc = (now, cfg)" by (rule prod.exhaust)
  obtain key c1 where s: "defaultSigningKey gen c = (key, c1)" by (rule prod.exhaust)
  obtain es' :: "('p, 'k) Emulator list" and c2 where r: "NewEmulators cr gen cs c1 = (es', c2)" by (rule prod.exhaust)
  note k = defaultSigningKey_once [OF s]
  have es: "es = \<lparr>em_engine = NewEngine cfg, em_signer = NewSigner cr now (cfg_OpenIDIssuer cfg) key\<rparr> # es'"
    using Cons.prems(1) nc s r by (simp add: NewEmulator_def Let_def)
  show ?case
  proof (cases i)
    case 0
    with nc k show ?thesis by (simp add: es EngineSigner_def)
  next
    case (Suc j)
    with Cons.IH [OF r, of j] Cons.prems(2) k(3) show ?thesis by (simp add: es)
  qed
qed simp

text \<open>The services of the REST handler are those registered on the gRPC server, and a start creates queues as the engine does.\<close>

definition serviceList :: "'h serviceDesc \<Rightarrow> 'i \<Rightarrow> ('i, 'h) Service list \<Rightarrow> ('i, 'h) Service list" where
  "serviceList d i svcs = svcs @ [\<lparr>svc_Desc = d, svc_Impl = i\<rparr>]"

lemma RESTHandler_registered:
  "RESTHandler quote types files d2 d3 = Handler quote types files (Register serviceList d2 d3 [])"
  by (simp add: RESTHandler_def Register_def serviceList_def)

lemma EmulatorEnsureQueue_engine:
  "em_engine (fst (EmulatorEnsureQueue n e)) = fst (EnsureQueue n (em_engine e))"
  "EngineSigner (fst (EmulatorEnsureQueue n e)) = EngineSigner e"
  by (simp_all add: EmulatorEnsureQueue_def EngineSigner_def split_beta)

definition zeroConfig :: Config where
  "zeroConfig = \<lparr>cfg_DefaultAppEngineHost = [], cfg_TaskTTL = 0, cfg_TombstoneTTL = 0, cfg_OpenIDIssuer = [],
     cfg_HardResetOnPurge = False\<rparr>"

text \<open>
  C30. All emulators of a process sign with one key, generated once: a token that one of them puts on a dispatch
  verifies against the key set that any of them serves, under the issuer of the one that signed it. When the
  generation fails, it has failed for all of them, and the tokens are unsigned.
\<close>

theorem emulators_share_one_key:
  fixes es :: "('p, 'k) Emulator list"
  assumes "\<forall>k d. verify (cr_N cr k, cr_E cr k) d (cr_Sign cr k d)"
    and "NewEmulators cr gen cs \<lparr>kc_once = None, kc_rand = r\<rparr> = (es, c')" and "i < length es" and "j < length es"
    and "now \<le> now'" and "now' < now + hour - second"
  shows "case fst (gen r) of
      None \<Rightarrow> OpenIDHandler (es ! i) jwksPath = Some (''application/json'', jsonText (jsonMap [(''keys'', JArr [])])) \<and>
        HasPrefix (Token cr (EngineSigner (es ! j)) now email aud) (b64url (jsonText (JObj [(''alg'', JStr ''none''), (''typ'', JStr ''JWT'')])) @ ''.'')
    | Some k \<Rightarrow> \<exists>jwks. OpenIDHandler (es ! i) jwksPath = Some (''application/json'', jsonText jwks) \<and>
        tokenVerifies cr verify jwks (Issuer (EngineSigner (es ! j))) aud now' (Token cr (EngineSigner (es ! j)) now email aud)"
proof -
  have key: "processKey gen \<lparr>kc_once = None, kc_rand = r\<rparr> = fst (gen r)"
    by (simp add: processKey_def defaultSigningKey_def split: prod.split)
  note s = NewEmulators_signer [OF assms(2) assms(3)] NewEmulators_signer [OF assms(2) assms(4)]
  have doc: "OpenIDHandler (es ! i) jwksPath = Some (''application/json'', jsonText (jwksOf cr (fst (gen r)) (keyID cr (fst (gen r)))))"
    unfolding OpenIDHandler_def using s(1) key by (simp add: published_documents)
  have sg: "sn_key (EngineSigner (es ! j)) = fst (gen r)" "sn_kid (EngineSigner (es ! j)) = keyID cr (fst (gen r))"
    using s(2) key by (simp_all add: NewSigner_key)
  show ?thesis
  proof (cases "fst (gen r)")
    case None
    with doc sg show ?thesis by (simp add: jwksOf_def Token_def Let_def HasPrefix_def)
  next
    case (Some k)
    have "tokenVerifies cr verify (jwksOf cr (Some k) (keyID cr (Some k))) (Issuer (EngineSigner (es ! j))) aud now'
        (Token cr (EngineSigner (es ! j)) now email aud)"
      using Token_verifies [of verify cr "EngineSigner (es ! j)" k now now' aud email] assms(1,5,6) sg Some
      by (simp add: Issuer_def)
    with doc Some show ?thesis by auto
  qed
qed

theorem emulators_share_one_key_witness:
  "let es = fst (NewEmulators demoCrypto (\<lambda>r :: nat. (Some r, Suc r)) [(0, zeroConfig), (9, zeroConfig\<lparr>cfg_OpenIDIssuer := ''http://i:1''\<rparr>)]
       \<lparr>kc_once = None, kc_rand = 77\<rparr>) :: (unit, nat) Emulator list in
   \<exists>jwks. OpenIDHandler (es ! 0) jwksPath = Some (''application/json'', jsonText jwks) \<and>
     tokenVerifies demoCrypto demoVerify jwks ''http://i:1'' ''aud'' (5 * second) (Token demoCrypto (EngineSigner (es ! 1)) 0 ''sa'' ''aud'')"
proof -
  let ?gen = "\<lambda>r :: nat. (Some r, Suc r)" and ?cs = "[(0, zeroConfig), (9, zeroConfig\<lparr>cfg_OpenIDIssuer := ''http://i:1''\<rparr>)]"
  obtain es :: "(unit, nat) Emulator list" and c' where n: "NewEmulators demoCrypto ?gen ?cs \<lparr>kc_once = None, kc_rand = 77\<rparr> = (es, c')"
    by (rule prod.exhaust)
  have len: "0 < length es" "1 < length es" using NewEmulators_length [OF n] by simp_all
  have "\<forall>k d. demoVerify (cr_N demoCrypto k, cr_E demoCrypto k) d (cr_Sign demoCrypto k d)"
    by (simp add: demoVerify_def demoCrypto_def)
  from emulators_share_one_key [OF this n len, of 0 "5 * second" "''sa''" "''aud''"]
  have "\<exists>jwks. OpenIDHandler (es ! 0) jwksPath = Some (''application/json'', jsonText jwks) \<and>
     tokenVerifies demoCrypto demoVerify jwks (Issuer (EngineSigner (es ! 1))) ''aud'' (5 * second) (Token demoCrypto (EngineSigner (es ! 1)) 0 ''sa'' ''aud'')"
    by (simp add: second_def hour_def)
  moreover have "Issuer (EngineSigner (es ! 1)) = ''http://i:1''"
    using NewEmulators_signer [OF n len(2)] by (simp add: Issuer_def NewSigner_key)
  ultimately show ?thesis unfolding n Let_def by simp
qed

end
