(* ===== verification/Main_Config.thy ===== *)
theory Main_Config
  imports Rest_Proto
begin

text \<open>
  The configuration in \<^verbatim>\<open>main.go\<close>: environment variables, the command-line flags and the parser of
  Go's \<^verbatim>\<open>flag\<close> package as far as this program's flags use it. The environment is the argument
  \<^verbatim>\<open>lookupEnv\<close>; a run of the parser that ends the process is the exit code on the left.
\<close>

section \<open>Environment\<close>

type_synonym environment = "string \<Rightarrow> string option"

definition envOr :: "environment \<Rightarrow> string \<Rightarrow> string \<Rightarrow> string" where
  "envOr lookupEnv key def = (case lookupEnv key of Some v \<Rightarrow> v | None \<Rightarrow> def)"

definition ParseBool :: "string \<Rightarrow> bool option" where
  "ParseBool s =
     (if s \<in> set [''1'', ''t'', ''T'', ''true'', ''TRUE'', ''True''] then Some True
      else if s \<in> set [''0'', ''f'', ''F'', ''false'', ''FALSE'', ''False''] then Some False
      else None)"

definition envBool :: "environment \<Rightarrow> string \<Rightarrow> bool" where
  "envBool lookupEnv key = (case ParseBool (envOr lookupEnv key []) of Some b \<Rightarrow> b | None \<Rightarrow> False)"

definition splitList :: "string \<Rightarrow> string list" where
  "splitList s = filter (\<lambda>p. p \<noteq> []) (map TrimSpace (Split (CHR '','') s))"

section \<open>Flags\<close>

record flagValues =
  fv_host :: string
  fv_port :: string
  fv_restPort :: string
  fv_appEngineHost :: string
  fv_openIDIssuer :: string
  fv_hardReset :: bool
  fv_queues :: "string list"

text \<open>The flags with the values they have before parsing.\<close>

definition registerFlags :: "environment \<Rightarrow> flagValues" where
  "registerFlags env =
     \<lparr>fv_host = envOr env ''CLOUD_TASKS_EMULATOR_HOST'' ''localhost'',
      fv_port = envOr env ''CLOUD_TASKS_EMULATOR_PORT'' ''8123'',
      fv_restPort = envOr env ''CLOUD_TASKS_REST_PORT'' ''8124'',
      fv_appEngineHost = envOr env ''CLOUD_TASKS_APP_ENGINE_HOST'' [],
      fv_openIDIssuer = envOr env ''CLOUD_TASKS_OPENID_ISSUER'' [],
      fv_hardReset = envBool env ''CLOUD_TASKS_HARD_RESET_ON_PURGE_QUEUE'',
      fv_queues = []\<rparr>"

datatype flagName = FHost | FPort | FRestPort | FAppEngineHost | FOpenIDIssuer | FHardReset | FQueue

definition flagNames :: "(string \<times> flagName) list" where
  "flagNames = [(''host'', FHost), (''port'', FPort), (''rest-port'', FRestPort), (''app-engine-host'', FAppEngineHost),
     (''openid-issuer'', FOpenIDIssuer), (''hard-reset-on-purge-queue'', FHardReset), (''queue'', FQueue)]"

text \<open>\<^verbatim>\<open>Value.Set\<close> of a flag; only the boolean one can refuse its text.\<close>

fun setFlag :: "flagName \<Rightarrow> string \<Rightarrow> flagValues \<Rightarrow> flagValues option" where
  "setFlag FHost x v = Some (v\<lparr>fv_host := x\<rparr>)"
| "setFlag FPort x v = Some (v\<lparr>fv_port := x\<rparr>)"
| "setFlag FRestPort x v = Some (v\<lparr>fv_restPort := x\<rparr>)"
| "setFlag FAppEngineHost x v = Some (v\<lparr>fv_appEngineHost := x\<rparr>)"
| "setFlag FOpenIDIssuer x v = Some (v\<lparr>fv_openIDIssuer := x\<rparr>)"
| "setFlag FHardReset x v = map_option (\<lambda>b. v\<lparr>fv_hardReset := b\<rparr>) (ParseBool x)"
| "setFlag FQueue x v = Some (v\<lparr>fv_queues := fv_queues v @ [x]\<rparr>)"

text \<open>The dashes and the name of a flag argument: \<^const>\<open>None\<close> where the flags end.\<close>

definition flagText :: "string \<Rightarrow> string option" where
  "flagText s =
     (case s of
        [] \<Rightarrow> None
      | [a] \<Rightarrow> None
      | a # b # rest \<Rightarrow>
          if a \<noteq> CHR ''-'' then None
          else if b = CHR ''-'' then (if rest = [] then None else Some rest)
          else Some (b # rest))"

text \<open>The text before and after the first equals sign that is not at the very front.\<close>

definition cutValue :: "string \<Rightarrow> string \<times> string option" where
  "cutValue name =
     (case name of [] \<Rightarrow> ([], None)
      | c # cs \<Rightarrow> (case Cut (CHR ''='') cs of None \<Rightarrow> (name, None) | Some (a, b) \<Rightarrow> (c # a, Some b)))"

text \<open>
  \<^verbatim>\<open>FlagSet.Parse\<close> under \<^verbatim>\<open>ExitOnError\<close>: exit code 0 after a request for help, 2 after a mistake.
\<close>

fun parseArgs :: "string list \<Rightarrow> flagValues \<Rightarrow> nat + flagValues" where
  "parseArgs [] v = Inr v"
| "parseArgs (s # args) v =
     (case flagText s of
        None \<Rightarrow> Inr v
      | Some name0 \<Rightarrow>
          if name0 = [] \<or> hd name0 = CHR ''-'' \<or> hd name0 = CHR ''='' then Inl 2
          else let (name, val) = cutValue name0 in
          case map_of flagNames name of
            None \<Rightarrow> if name = ''help'' \<or> name = ''h'' then Inl 0 else Inl 2
          | Some f \<Rightarrow>
              if f = FHardReset
              then (case setFlag f (case val of Some x \<Rightarrow> x | None \<Rightarrow> ''true'') v of
                      None \<Rightarrow> Inl 2
                    | Some v' \<Rightarrow> parseArgs args v')
              else (case val of
                      Some x \<Rightarrow> (case setFlag f x v of None \<Rightarrow> Inl 2 | Some v' \<Rightarrow> parseArgs args v')
                    | None \<Rightarrow>
                        (case args of
                           [] \<Rightarrow> Inl 2
                         | x # args' \<Rightarrow> (case setFlag f x v of None \<Rightarrow> Inl 2 | Some v' \<Rightarrow> parseArgs args' v'))))"

record options =
  op_host :: string
  op_port :: string
  op_restPort :: string
  op_appEngineHost :: string
  op_openIDIssuer :: string
  op_hardReset :: bool
  op_queues :: "string list"

definition parseFlags :: "environment \<Rightarrow> string list \<Rightarrow> nat + options" where
  "parseFlags env args =
     (case parseArgs args (registerFlags env) of
        Inl code \<Rightarrow> Inl code
      | Inr v \<Rightarrow>
          let queues = (if fv_queues v = [] then splitList (envOr env ''INITIAL_QUEUES'' []) else fv_queues v)
          in Inr \<lparr>op_host = fv_host v, op_port = fv_port v, op_restPort = fv_restPort v,
               op_appEngineHost = fv_appEngineHost v, op_openIDIssuer = fv_openIDIssuer v,
               op_hardReset = fv_hardReset v, op_queues = queues\<rparr>)"

section \<open>Flags, environment and defaults\<close>

text \<open>
  A setting on the command line in either of its spellings, \<^verbatim>\<open>-name=value\<close> and \<^verbatim>\<open>-name value\<close>; the
  boolean flag only has the first.
\<close>

datatype setting = Attached flagName string | Separate flagName string

fun settingFlag :: "setting \<Rightarrow> flagName" where
  "settingFlag (Attached f x) = f" | "settingFlag (Separate f x) = f"

fun settingValue :: "setting \<Rightarrow> string" where
  "settingValue (Attached f x) = x" | "settingValue (Separate f x) = x"

fun nameOf :: "flagName \<Rightarrow> string" where
  "nameOf FHost = ''host''" | "nameOf FPort = ''port''" | "nameOf FRestPort = ''rest-port''"
| "nameOf FAppEngineHost = ''app-engine-host''" | "nameOf FOpenIDIssuer = ''openid-issuer''"
| "nameOf FHardReset = ''hard-reset-on-purge-queue''" | "nameOf FQueue = ''queue''"

fun settingArgs :: "setting \<Rightarrow> string list" where
  "settingArgs (Attached f x) = [''-'' @ nameOf f @ ''='' @ x]"
| "settingArgs (Separate f x) = [''--'' @ nameOf f, x]"

fun settingOk :: "setting \<Rightarrow> bool" where
  "settingOk (Attached f x) \<longleftrightarrow> (f = FHardReset \<longrightarrow> ParseBool x \<noteq> None)"
| "settingOk (Separate f x) \<longleftrightarrow> f \<noteq> FHardReset"

text \<open>The values of one flag, in the order of the command line.\<close>

definition valuesOf :: "flagName \<Rightarrow> setting list \<Rightarrow> string list" where
  "valuesOf f ss = map settingValue (filter (\<lambda>s. settingFlag s = f) ss)"

definition lastOr :: "'a list \<Rightarrow> 'a \<Rightarrow> 'a" where
  "lastOr xs d = (if xs = [] then d else last xs)"

lemma map_of_nameOf [simp]: "map_of flagNames (nameOf f) = Some f"
  by (cases f) (simp_all add: flagNames_def)

lemma nameOf_text:
  "nameOf f \<noteq> []" "hd (nameOf f) \<noteq> CHR ''-''" "hd (nameOf f) \<noteq> CHR ''=''" "CHR ''='' \<notin> set (nameOf f)"
  by (cases f; simp)+

lemma cutValue_nameOf: "cutValue (nameOf f) = (nameOf f, None)" "cutValue (nameOf f @ ''='' @ x) = (nameOf f, Some x)"
proof -
  obtain c cs where n: "nameOf f = c # cs" using nameOf_text(1) by (cases "nameOf f") auto
  then have "CHR ''='' \<notin> set cs" using nameOf_text(4) [of f] by simp
  then show "cutValue (nameOf f) = (nameOf f, None)" "cutValue (nameOf f @ ''='' @ x) = (nameOf f, Some x)"
    using Cut_append [of "CHR ''=''" cs x] by (simp_all add: n cutValue_def Cut_None [THEN iffD2])
qed

lemma flagText_nameOf: "flagText (''-'' @ nameOf f @ y) = Some (nameOf f @ y)" "flagText (''--'' @ nameOf f) = Some (nameOf f)"
  by (cases f; simp add: flagText_def)+

lemma parseArgs_setting:
  assumes "settingOk s"
  shows "parseArgs (settingArgs s @ args) v = parseArgs args (the (setFlag (settingFlag s) (settingValue s) v))"
proof (cases s)
  case (Attached f x)
  have "flagText (''-'' @ nameOf f @ ''='' @ x) = Some (nameOf f @ ''='' @ x)" by (rule flagText_nameOf)
  moreover have "setFlag f x v \<noteq> None" using assms Attached by (cases f) auto
  ultimately show ?thesis
    using Attached nameOf_text [of f] cutValue_nameOf(2) [of f x] by (auto split: option.split)
next
  case (Separate f x)
  have "flagText (''--'' @ nameOf f) = Some (nameOf f)" by (rule flagText_nameOf)
  moreover have "setFlag f x v \<noteq> None" "f \<noteq> FHardReset" using assms Separate by (cases f; auto)+
  ultimately show ?thesis
    using Separate nameOf_text [of f] cutValue_nameOf(1) [of f] by (auto split: option.split)
qed

definition applySetting :: "setting \<Rightarrow> flagValues \<Rightarrow> flagValues" where
  "applySetting s v = the (setFlag (settingFlag s) (settingValue s) v)"

lemma parseArgs_settings:
  "list_all settingOk ss \<Longrightarrow> parseArgs (concat (map settingArgs ss)) v = Inr (fold applySetting ss v)"
  by (induction ss arbitrary: v) (simp_all add: parseArgs_setting applySetting_def)

lemma applySetting_fields:
  assumes "settingOk s"
  shows "fv_host (applySetting s v) = lastOr (valuesOf FHost [s]) (fv_host v)"
    "fv_port (applySetting s v) = lastOr (valuesOf FPort [s]) (fv_port v)"
    "fv_restPort (applySetting s v) = lastOr (valuesOf FRestPort [s]) (fv_restPort v)"
    "fv_appEngineHost (applySetting s v) = lastOr (valuesOf FAppEngineHost [s]) (fv_appEngineHost v)"
    "fv_openIDIssuer (applySetting s v) = lastOr (valuesOf FOpenIDIssuer [s]) (fv_openIDIssuer v)"
    "fv_hardReset (applySetting s v) = lastOr (map (\<lambda>x. the (ParseBool x)) (valuesOf FHardReset [s])) (fv_hardReset v)"
    "fv_queues (applySetting s v) = fv_queues v @ valuesOf FQueue [s]"
proof -
  have b: "settingFlag s = FHardReset \<Longrightarrow> \<exists>y. ParseBool (settingValue s) = Some y" using assms by (cases s) auto
  show "fv_host (applySetting s v) = lastOr (valuesOf FHost [s]) (fv_host v)"
    "fv_port (applySetting s v) = lastOr (valuesOf FPort [s]) (fv_port v)"
    "fv_restPort (applySetting s v) = lastOr (valuesOf FRestPort [s]) (fv_restPort v)"
    "fv_appEngineHost (applySetting s v) = lastOr (valuesOf FAppEngineHost [s]) (fv_appEngineHost v)"
    "fv_openIDIssuer (applySetting s v) = lastOr (valuesOf FOpenIDIssuer [s]) (fv_openIDIssuer v)"
    "fv_hardReset (applySetting s v) = lastOr (map (\<lambda>x. the (ParseBool x)) (valuesOf FHardReset [s])) (fv_hardReset v)"
    "fv_queues (applySetting s v) = fv_queues v @ valuesOf FQueue [s]"
    using b by (cases "settingFlag s"; force simp: applySetting_def valuesOf_def lastOr_def)+
qed

lemma valuesOf_append: "valuesOf f (ss @ ss') = valuesOf f ss @ valuesOf f ss'"
  by (simp add: valuesOf_def)

lemma lastOr_append: "lastOr (xs @ ys) d = lastOr ys (lastOr xs d)"
  by (simp add: lastOr_def)

lemma fold_applySetting_fields:
  assumes "list_all settingOk ss"
  shows "fv_host (fold applySetting ss v) = lastOr (valuesOf FHost ss) (fv_host v)"
    "fv_port (fold applySetting ss v) = lastOr (valuesOf FPort ss) (fv_port v)"
    "fv_restPort (fold applySetting ss v) = lastOr (valuesOf FRestPort ss) (fv_restPort v)"
    "fv_appEngineHost (fold applySetting ss v) = lastOr (valuesOf FAppEngineHost ss) (fv_appEngineHost v)"
    "fv_openIDIssuer (fold applySetting ss v) = lastOr (valuesOf FOpenIDIssuer ss) (fv_openIDIssuer v)"
    "fv_hardReset (fold applySetting ss v) = lastOr (map (\<lambda>x. the (ParseBool x)) (valuesOf FHardReset ss)) (fv_hardReset v)"
    "fv_queues (fold applySetting ss v) = fv_queues v @ valuesOf FQueue ss"
  using assms
  by (induction ss rule: rev_induct)
    (simp_all add: applySetting_fields valuesOf_append lastOr_append, simp_all add: valuesOf_def lastOr_def)

text \<open>
  C34. A flag decides over its environment variable, and that over the default; a flag given
  twice keeps the last value, except that queues add up, and \<^verbatim>\<open>INITIAL_QUEUES\<close> counts only when no
  queue is given by flag. Both spellings of a flag mean the same.
\<close>

theorem flags_override_environment:
  assumes "list_all settingOk ss"
  shows "parseFlags env (concat (map settingArgs ss)) = Inr
    \<lparr>op_host = lastOr (valuesOf FHost ss) (envOr env ''CLOUD_TASKS_EMULATOR_HOST'' ''localhost''),
     op_port = lastOr (valuesOf FPort ss) (envOr env ''CLOUD_TASKS_EMULATOR_PORT'' ''8123''),
     op_restPort = lastOr (valuesOf FRestPort ss) (envOr env ''CLOUD_TASKS_REST_PORT'' ''8124''),
     op_appEngineHost = lastOr (valuesOf FAppEngineHost ss) (envOr env ''CLOUD_TASKS_APP_ENGINE_HOST'' []),
     op_openIDIssuer = lastOr (valuesOf FOpenIDIssuer ss) (envOr env ''CLOUD_TASKS_OPENID_ISSUER'' []),
     op_hardReset = lastOr (map (\<lambda>x. the (ParseBool x)) (valuesOf FHardReset ss))
       (envBool env ''CLOUD_TASKS_HARD_RESET_ON_PURGE_QUEUE''),
     op_queues = (if valuesOf FQueue ss = [] then splitList (envOr env ''INITIAL_QUEUES'' []) else valuesOf FQueue ss)\<rparr>"
  using assms by (simp add: parseFlags_def parseArgs_settings fold_applySetting_fields registerFlags_def Let_def)

theorem flags_override_environment_witness:
  "map_sum id (\<lambda>o'. (op_host o', op_port o', op_restPort o', op_queues o'))
     (parseFlags [''CLOUD_TASKS_EMULATOR_PORT'' \<mapsto> ''9000'', ''INITIAL_QUEUES'' \<mapsto> ''a, b,,'']
        [''-host=h1'', ''--host'', ''h2'', ''-rest-port='']) = Inr (''h2'', ''9000'', [], [''a'', ''b''])"
proof -
  let ?ss = "[Attached FHost ''h1'', Separate FHost ''h2'', Attached FRestPort []]"
  have ok: "list_all settingOk ?ss" by simp
  have "splitList ''a, b,,'' = [''a'', ''b'']" by code_simp
  with flags_override_environment [OF ok] show ?thesis by (simp add: valuesOf_def lastOr_def envOr_def)
qed

end
