(* ===== verification/Main_Run.thy ===== *)
theory Main_Run
  imports Main_Config Adapters
begin

text \<open>
  \<^verbatim>\<open>run\<close> of \<^verbatim>\<open>main.go\<close>. The first part is the start-up: the engine with its initial queues and the
  listening sockets, which are numbered; \<^verbatim>\<open>refuse\<close> is the operating system's answer to a
  \<^verbatim>\<open>net.Listen\<close>. The second part is the shutdown: the main goroutine, the goroutine that waits for the
  signal, and the gRPC server between them, as a step function on events.
\<close>

section \<open>Sockets\<close>

record net =
  nt_open :: "nat list"
  nt_next :: nat

definition Listen :: "(string \<Rightarrow> net \<Rightarrow> string option) \<Rightarrow> string \<Rightarrow> net \<Rightarrow> net \<times> (string + nat)" where
  "Listen refuse addr w =
     (case refuse addr w of
        Some e \<Rightarrow> (w, Inl e)
      | None \<Rightarrow> (w\<lparr>nt_open := nt_next w # nt_open w, nt_next := Suc (nt_next w)\<rparr>, Inr (nt_next w)))"

definition Close :: "nat \<Rightarrow> net \<Rightarrow> net" where
  "Close l w = w\<lparr>nt_open := filter (\<lambda>x. x \<noteq> l) (nt_open w)\<rparr>"

definition JoinHostPort :: "string \<Rightarrow> string \<Rightarrow> string" where
  "JoinHostPort host port =
     (if CHR '':'' \<in> set host then ''['' @ host @ '']:'' @ port else host @ '':'' @ port)"

section \<open>The HTTP servers\<close>

definition openIDAddr :: "golib \<Rightarrow> string \<Rightarrow> string + string" where
  "openIDAddr gl issuer =
     (case gl_Parse gl issuer of
        Inl e \<Rightarrow> Inl (Sprintf (gl_Quote gl) ''invalid openid issuer %q: %w'' [issuer, e])
      | Inr u \<Rightarrow>
          let port = snd (splitHostPort (u_Host u)) in
          if port = []
          then Inl (Sprintf (gl_Quote gl) ''openid issuer %q must include a port, e.g. http://localhost:8980'' [issuer])
          else Inr (''0.0.0.0:'' @ port))"

definition startOpenIDServer :: "golib \<Rightarrow> (string \<Rightarrow> net \<Rightarrow> string option) \<Rightarrow> string \<Rightarrow> net
    \<Rightarrow> net \<times> (string + nat option)" where
  "startOpenIDServer gl refuse issuer w =
     (if issuer = [] then (w, Inr None)
      else case openIDAddr gl issuer of
        Inl e \<Rightarrow> (w, Inl e)
      | Inr addr \<Rightarrow>
          (case Listen refuse addr w of
             (w', Inl e) \<Rightarrow> (w', Inl e)
           | (w', Inr l) \<Rightarrow> (w', Inr (Some l))))"

text \<open>\<^verbatim>\<open>restHandler\<close> is the outcome of building the REST handler: an error, or the bindings it skips.\<close>

definition startRESTServer :: "(string \<Rightarrow> net \<Rightarrow> string option) \<Rightarrow> string + string list \<Rightarrow> options \<Rightarrow> net
    \<Rightarrow> net \<times> (string + nat option)" where
  "startRESTServer refuse restHandler opts w =
     (if op_restPort opts = [] then (w, Inr None)
      else case restHandler of
        Inl e \<Rightarrow> (w, Inl e)
      | Inr skipped \<Rightarrow>
          (case Listen refuse (JoinHostPort (op_host opts) (op_restPort opts)) w of
             (w', Inl e) \<Rightarrow> (w', Inl e)
           | (w', Inr l) \<Rightarrow> (w', Inr (Some l))))"

section \<open>Start-up\<close>

datatype startError = InitialQueue string status | StartError string

record 'p started =
  st_engine :: "'p Engine"
  st_grpc :: nat
  st_openID :: "nat option"
  st_rest :: "nat option"

fun ensureQueues :: "string list \<Rightarrow> 'p Engine \<Rightarrow> 'p Engine \<times> (startError + unit)" where
  "ensureQueues [] e = (e, Inr ())"
| "ensureQueues (name # names) e =
     (case EnsureQueue name e of
        (e', Inl err) \<Rightarrow> (e', Inl (InitialQueue name err))
      | (e', Inr _) \<Rightarrow> ensureQueues names e')"

definition configOf :: "options \<Rightarrow> Config" where
  "configOf opts = \<lparr>cfg_DefaultAppEngineHost = op_appEngineHost opts, cfg_TaskTTL = 0, cfg_TombstoneTTL = 0,
     cfg_OpenIDIssuer = op_openIDIssuer opts, cfg_HardResetOnPurge = op_hardReset opts\<rparr>"

definition run_startup :: "golib \<Rightarrow> (string \<Rightarrow> net \<Rightarrow> string option) \<Rightarrow> string + string list \<Rightarrow> options \<Rightarrow> net
    \<Rightarrow> net \<times> (startError + 'p started)" where
  "run_startup gl refuse restHandler opts w =
     (case ensureQueues (op_queues opts) (NewEngine (configOf opts)) of
        (e, Inl err) \<Rightarrow> (w, Inl err)
      | (e, Inr _) \<Rightarrow>
        case Listen refuse (JoinHostPort (op_host opts) (op_port opts)) w of
          (w1, Inl err) \<Rightarrow> (w1, Inl (StartError err))
        | (w1, Inr lis) \<Rightarrow>
          case startOpenIDServer gl refuse (op_openIDIssuer opts) w1 of
            (w2, Inl err) \<Rightarrow> (Close lis w2, Inl (StartError err))
          | (w2, Inr openIDServer) \<Rightarrow>
            case startRESTServer refuse restHandler opts w2 of
              (w3, Inl err) \<Rightarrow>
                let w4 = Close lis w3
                in (case openIDServer of Some l \<Rightarrow> Close l w4 | None \<Rightarrow> w4, Inl (StartError err))
            | (w3, Inr restServer) \<Rightarrow>
                (w3, Inr \<lparr>st_engine = e, st_grpc = lis, st_openID = openIDServer, st_rest = restServer\<rparr>))"

definition net_ok :: "net \<Rightarrow> bool" where
  "net_ok w \<longleftrightarrow> list_all (\<lambda>l. l < nt_next w) (nt_open w)"

lemma Listen_facts:
  assumes "Listen refuse addr w = (w', r)"
  shows "r = Inl err \<Longrightarrow> w' = w"
    "r = Inr l \<Longrightarrow> l = nt_next w \<and> nt_open w' = l # nt_open w \<and> nt_next w' = Suc l"
  using assms by (auto simp: Listen_def split: option.splits)

lemma startOpenIDServer_facts:
  assumes "startOpenIDServer gl refuse issuer w = (w', r)"
  shows "r = Inl err \<Longrightarrow> w' = w" "r = Inr None \<Longrightarrow> w' = w \<and> issuer = []"
    "r = Inr (Some l) \<Longrightarrow> l = nt_next w \<and> nt_open w' = l # nt_open w \<and> nt_next w' = Suc l \<and> issuer \<noteq> []"
  using assms
  by (auto simp: startOpenIDServer_def split: if_splits sum.splits prod.splits dest: Listen_facts)

lemma startRESTServer_facts:
  assumes "startRESTServer refuse restHandler opts w = (w', r)"
  shows "r = Inl err \<Longrightarrow> w' = w" "r = Inr None \<Longrightarrow> w' = w \<and> op_restPort opts = []"
    "r = Inr (Some l) \<Longrightarrow> l = nt_next w \<and> nt_open w' = l # nt_open w \<and> nt_next w' = Suc l \<and> op_restPort opts \<noteq> []"
  using assms
  by (auto simp: startRESTServer_def split: if_splits sum.splits prod.splits dest: Listen_facts)

lemma EnsureQueue_ok:
  assumes "EnsureQueue n e = (e', Inr u)"
  shows "gget (e_queues e') n \<noteq> None" "gget (e_queues e) m \<noteq> None \<Longrightarrow> gget (e_queues e') m \<noteq> None"
  using assms
  by (auto simp: EnsureQueue_def CreateQueue_def Let_def putQueue_def gm.get_set split: if_splits sum.splits option.splits prod.splits)

lemma ensureQueues_ok:
  "ensureQueues ns e = (e', Inr u) \<Longrightarrow> einv e \<Longrightarrow>
    einv e' \<and> (\<forall>n. n \<in> set ns \<or> gget (e_queues e) n \<noteq> None \<longrightarrow> gget (e_queues e') n \<noteq> None)"
proof (induction ns arbitrary: e)
  case (Cons n ns)
  then obtain e1 u1 where e1: "EnsureQueue n e = (e1, Inr u1)" "ensureQueues ns e1 = (e', Inr u)"
    by (auto split: prod.splits sum.splits)
  moreover have "einv e1" using einv_EnsureQueue [OF Cons.prems(2), of n] e1(1) by simp
  ultimately show ?case using Cons.IH [of e1] EnsureQueue_ok [OF e1(1)] by auto
qed simp

text \<open>The sockets of the optional servers, and what a start-up leaves behind in either case.\<close>

definition optSocket :: "nat option \<Rightarrow> nat list" where
  "optSocket l = (case l of Some l' \<Rightarrow> [l'] | None \<Rightarrow> [])"

definition ownSockets :: "'p started \<Rightarrow> nat list" where
  "ownSockets s = optSocket (st_rest s) @ optSocket (st_openID s) @ [st_grpc s]"

lemma run_startup_error:
  assumes "net_ok w" and "run_startup gl refuse restHandler opts w = (w', Inl err :: startError + 'p started)"
  shows "nt_open w' = nt_open w"
proof -
  obtain e :: "'p Engine" and re where e: "ensureQueues (op_queues opts) (NewEngine (configOf opts)) = (e, re)" by (rule prod.exhaust)
  obtain w1 r1 where l1: "Listen refuse (JoinHostPort (op_host opts) (op_port opts)) w = (w1, r1)" by (rule prod.exhaust)
  obtain w2 r2 where l2: "startOpenIDServer gl refuse (op_openIDIssuer opts) w1 = (w2, r2)" by (rule prod.exhaust)
  obtain w3 r3 where l3: "startRESTServer refuse restHandler opts w2 = (w3, r3)" by (rule prod.exhaust)
  note facts = Listen_facts [OF l1] startOpenIDServer_facts [OF l2] startRESTServer_facts [OF l3]
  have old: "filter (\<lambda>x. x \<noteq> l) (nt_open w) = nt_open w" if "nt_next w \<le> l" for l
    using assms(1) that by (auto simp: net_ok_def list_all_iff filter_id_conv)
  have "(w', Inl err) = (run_startup gl refuse restHandler opts w :: net \<times> (startError + 'p started))" using assms(2) by simp
  then show ?thesis using facts old
    by (auto simp: run_startup_def e l1 l2 l3 Close_def Let_def split: sum.splits option.splits)
qed

lemma run_startup_started:
  assumes "run_startup gl refuse restHandler opts w = (w', Inr s)"
  shows "ensureQueues (op_queues opts) (NewEngine (configOf opts)) = (st_engine s, Inr ())"
    and "nt_open w' = ownSockets s @ nt_open w" and "distinct (ownSockets s)"
    and "list_all (\<lambda>l. nt_next w \<le> l) (ownSockets s)"
    and "(st_rest s = None \<longleftrightarrow> op_restPort opts = []) \<and> (st_openID s = None \<longleftrightarrow> op_openIDIssuer opts = [])"
proof -
  from assms obtain w1 w2 where l1: "Listen refuse (JoinHostPort (op_host opts) (op_port opts)) w = (w1, Inr (st_grpc s))"
    and l2: "startOpenIDServer gl refuse (op_openIDIssuer opts) w1 = (w2, Inr (st_openID s))"
    and l3: "startRESTServer refuse restHandler opts w2 = (w', Inr (st_rest s))"
    and "ensureQueues (op_queues opts) (NewEngine (configOf opts)) = (st_engine s, Inr ())"
    by (auto simp: run_startup_def Let_def split: prod.splits sum.splits)
  note facts = Listen_facts [OF l1] startOpenIDServer_facts [OF l2] startRESTServer_facts [OF l3]
  show "ensureQueues (op_queues opts) (NewEngine (configOf opts)) = (st_engine s, Inr ())" by fact
  show "nt_open w' = ownSockets s @ nt_open w" "distinct (ownSockets s)" "list_all (\<lambda>l. nt_next w \<le> l) (ownSockets s)"
    "(st_rest s = None \<longleftrightarrow> op_restPort opts = []) \<and> (st_openID s = None \<longleftrightarrow> op_openIDIssuer opts = [])"
    using facts by (cases "st_openID s"; cases "st_rest s"; auto simp: ownSockets_def optSocket_def)+
qed

lemma run_startup_rest:
  assumes "run_startup gl refuse restHandler opts w = (w', Inr st)" "op_restPort opts \<noteq> []"
  shows "(\<exists>skipped. restHandler = Inr skipped) \<and> st_rest st \<noteq> None"
proof -
  obtain w2 w3 where "startRESTServer refuse restHandler opts w2 = (w3, Inr (st_rest st))"
    using assms(1) by (auto simp: run_startup_def Let_def split: prod.splits sum.splits)
  with assms(2) show ?thesis
    by (cases "st_rest st") (auto simp: startRESTServer_def split: if_splits sum.splits prod.splits)
qed

section \<open>Shutdown\<close>

text \<open>
  Where the main goroutine is: before \<^verbatim>\<open>close(serving)\<close>, before the call of \<^verbatim>\<open>Serve\<close>, in it, or returned
  (\<^const>\<open>None\<close> is the nil error). Where the waiting goroutine is: at \<^verbatim>\<open><-stop\<close>, at \<^verbatim>\<open><-serving\<close>, before each
  of its three calls, or done.
\<close>

datatype mainPc = MBoot | MServe | MServing | MReturned "string option"
datatype stopperPc = WaitStop | WaitServing | CloseOpenID | CloseREST | StopGrpc | StopperDone

record shutdown =
  sh_main :: mainPc
  sh_stopper :: stopperPc
  sh_stop :: bool
  sh_serving :: bool
  sh_openID :: bool
  sh_rest :: bool
  sh_stopped :: bool

datatype shutEvent = Signal | MainStep | StopperStep | AcceptFails string

definition ErrServerStopped :: string where
  "ErrServerStopped = ''grpc: the server has been stopped''"

definition shut0 :: shutdown where
  "shut0 = \<lparr>sh_main = MBoot, sh_stopper = WaitStop, sh_stop = False, sh_serving = False,
     sh_openID = True, sh_rest = True, sh_stopped = False\<rparr>"

text \<open>
  \<^verbatim>\<open>Serve\<close> on a server that has been stopped returns \<^verbatim>\<open>ErrServerStopped\<close>; a running \<^verbatim>\<open>Serve\<close> returns nil once
  \<^verbatim>\<open>GracefulStop\<close> is called, and an error when the listener fails before that.
\<close>

fun shutStep :: "shutEvent \<Rightarrow> shutdown \<Rightarrow> shutdown option" where
  "shutStep Signal s = (if sh_stop s then None else Some (s\<lparr>sh_stop := True\<rparr>))"
| "shutStep MainStep s =
     (case sh_main s of
        MBoot \<Rightarrow> Some (s\<lparr>sh_serving := True, sh_main := MServe\<rparr>)
      | MServe \<Rightarrow> Some (s\<lparr>sh_main := (if sh_stopped s then MReturned (Some ErrServerStopped) else MServing)\<rparr>)
      | MServing \<Rightarrow> if sh_stopped s then Some (s\<lparr>sh_main := MReturned None\<rparr>) else None
      | MReturned _ \<Rightarrow> None)"
| "shutStep (AcceptFails e) s =
     (if sh_main s = MServing \<and> \<not> sh_stopped s then Some (s\<lparr>sh_main := MReturned (Some e)\<rparr>) else None)"
| "shutStep StopperStep s =
     (case sh_stopper s of
        WaitStop \<Rightarrow> if sh_stop s then Some (s\<lparr>sh_stopper := WaitServing\<rparr>) else None
      | WaitServing \<Rightarrow> if sh_serving s then Some (s\<lparr>sh_stopper := CloseOpenID\<rparr>) else None
      | CloseOpenID \<Rightarrow> Some (s\<lparr>sh_openID := False, sh_stopper := CloseREST\<rparr>)
      | CloseREST \<Rightarrow> Some (s\<lparr>sh_rest := False, sh_stopper := StopGrpc\<rparr>)
      | StopGrpc \<Rightarrow> Some (s\<lparr>sh_stopped := True, sh_stopper := StopperDone\<rparr>)
      | StopperDone \<Rightarrow> None)"

definition shinv :: "shutdown \<Rightarrow> bool" where
  "shinv s \<longleftrightarrow>
     (sh_stopper s \<noteq> WaitStop \<longrightarrow> sh_stop s) \<and>
     (sh_stopper s \<notin> {WaitStop, WaitServing} \<longrightarrow> sh_serving s) \<and>
     (sh_serving s \<longleftrightarrow> sh_main s \<noteq> MBoot) \<and>
     (sh_openID s \<longleftrightarrow> sh_stopper s \<in> {WaitStop, WaitServing, CloseOpenID}) \<and>
     (sh_rest s \<longleftrightarrow> sh_stopper s \<in> {WaitStop, WaitServing, CloseOpenID, CloseREST}) \<and>
     (sh_stopped s \<longleftrightarrow> sh_stopper s = StopperDone) \<and>
     (sh_main s = MReturned None \<longrightarrow> sh_stopped s)"

lemma shinv_Signal: "shinv s \<Longrightarrow> shutStep Signal s = Some s' \<Longrightarrow> shinv s'"
  by (auto simp: shinv_def split: if_splits)

lemma shinv_MainStep: "shinv s \<Longrightarrow> shutStep MainStep s = Some s' \<Longrightarrow> shinv s'"
  by (cases "sh_main s"; clarsimp simp: shinv_def split: if_splits)

lemma shinv_AcceptFails: "shinv s \<Longrightarrow> shutStep (AcceptFails x) s = Some s' \<Longrightarrow> shinv s'"
  by (clarsimp simp: shinv_def split: if_splits)

lemma shinv_StopperStep: "shinv s \<Longrightarrow> shutStep StopperStep s = Some s' \<Longrightarrow> shinv s'"
  by (cases "sh_stopper s") (auto simp: shinv_def split: if_splits)

interpretation sh: invariant_system shutStep shinv
proof
  show "shinv s \<Longrightarrow> shutStep e s = Some s' \<Longrightarrow> shinv s'" for s e s'
    by (cases e) (auto intro: shinv_Signal shinv_MainStep shinv_AcceptFails shinv_StopperStep simp del: shutStep.simps)
qed

lemma shinv_facts:
  assumes "shinv s"
  shows "sh_main s = MBoot \<Longrightarrow> sh_openID s \<and> sh_rest s \<and> \<not> sh_stopped s"
    "sh_main s = MReturned None \<Longrightarrow> sh_stop s \<and> \<not> sh_openID s \<and> \<not> sh_rest s"
    "sh_serving s \<longleftrightarrow> sh_main s \<noteq> MBoot" "sh_stopped s \<longleftrightarrow> sh_stopper s = StopperDone"
  using assms by (cases "sh_stopper s"; simp add: shinv_def)+

lemma shinv_shut0: "shinv shut0"
  by (simp add: shinv_def shut0_def)

text \<open>What the waiting goroutine has left to do, once the signal is there and \<^verbatim>\<open>serving\<close> is closed.\<close>

fun stepsLeft :: "stopperPc \<Rightarrow> nat" where
  "stepsLeft WaitStop = 5" | "stepsLeft WaitServing = 4" | "stepsLeft CloseOpenID = 3"
| "stepsLeft CloseREST = 2" | "stepsLeft StopGrpc = 1" | "stepsLeft StopperDone = 0"

lemma stopper_finishes:
  assumes "sh_stop s" "sh_serving s" "stepsLeft (sh_stopper s) = n"
  shows "\<exists>s'. run shutStep (replicate n StopperStep) s = Some s' \<and> sh_stopper s' = StopperDone \<and> sh_main s' = sh_main s"
  using assms
proof (induction n arbitrary: s)
  case 0
  then show ?case by (cases "sh_stopper s") auto
next
  case (Suc n)
  then obtain s1 where "shutStep StopperStep s = Some s1" "stepsLeft (sh_stopper s1) = n" "sh_stop s1" "sh_serving s1"
    "sh_main s1 = sh_main s"
    by (cases "sh_stopper s") auto
  with Suc.IH [of s1] show ?case by simp
qed

section \<open>Properties\<close>

text \<open>
  C31. A start that fails leaves nothing listening: every socket it opened is closed again. A start
  that succeeds has a well-formed engine with all the queues asked for, the gRPC socket, and the
  REST and OpenID sockets exactly when they are configured.
\<close>

theorem startup_is_all_or_nothing:
  fixes r :: "startError + 'p started"
  assumes "net_ok w" and "run_startup gl refuse restHandler opts w = (w', r)"
  shows "case r of
      Inl err \<Rightarrow> nt_open w' = nt_open w
    | Inr s \<Rightarrow> einv (st_engine s) \<and> list_all (\<lambda>n. gget (e_queues (st_engine s)) n \<noteq> None) (op_queues opts) \<and>
        nt_open w' = (case st_rest s of Some l \<Rightarrow> [l] | None \<Rightarrow> []) @ (case st_openID s of Some l \<Rightarrow> [l] | None \<Rightarrow> [])
          @ [st_grpc s] @ nt_open w \<and>
        (st_rest s = None \<longleftrightarrow> op_restPort opts = []) \<and> (st_openID s = None \<longleftrightarrow> op_openIDIssuer opts = []) \<and>
        distinct (st_grpc s # (case st_rest s of Some l \<Rightarrow> [l] | None \<Rightarrow> []) @ (case st_openID s of Some l \<Rightarrow> [l] | None \<Rightarrow> []))"
proof (cases r)
  case (Inl err)
  then show ?thesis using run_startup_error [OF assms(1) assms(2) [unfolded Inl]] by simp
next
  case (Inr s)
  note st = run_startup_started [OF assms(2) [unfolded Inr]]
  from ensureQueues_ok [OF st(1) einv_NewEngine] st(2-) show ?thesis
    by (auto simp: Inr list_all_iff ownSockets_def optSocket_def split: option.splits)
qed

definition demoOptions :: "string \<Rightarrow> options" where
  "demoOptions rest = \<lparr>op_host = ''localhost'', op_port = ''8123'', op_restPort = rest, op_appEngineHost = [],
     op_openIDIssuer = [], op_hardReset = False, op_queues = [demoName]\<rparr>"

text \<open>The REST port is taken.\<close>

definition demoRefuse :: "string \<Rightarrow> net \<Rightarrow> string option" where
  "demoRefuse addr w = (if addr = ''localhost:8124'' then Some ''address already in use'' else None)"

theorem startup_is_all_or_nothing_witness:
  "let w = \<lparr>nt_open = [0], nt_next = 1\<rparr>;
       failed = run_startup (me_gl demoEnv) demoRefuse (Inr []) (demoOptions ''8124'') w :: net \<times> (startError + unit started);
       started = run_startup (me_gl demoEnv) demoRefuse (Inr []) (demoOptions ''8125'') w :: net \<times> (startError + unit started)
   in isl (snd failed) \<and> nt_open (fst failed) = [0] \<and>
      \<not> isl (snd started) \<and> st_rest (projr (snd started)) \<noteq> None \<and>
      gget (e_queues (st_engine (projr (snd started)))) demoName \<noteq> None"
proof -
  let ?w = "\<lparr>nt_open = [0], nt_next = 1\<rparr>"
  let ?run = "\<lambda>p. run_startup (me_gl demoEnv) demoRefuse (Inr []) (demoOptions p) ?w :: net \<times> (startError + unit started)"
  have w: "net_ok ?w" by (simp add: net_ok_def)
  have o: "isl (snd (?run ''8124''))" "\<not> isl (snd (?run ''8125''))" by code_simp+
  obtain w1 err where f: "?run ''8124'' = (w1, Inl err)" using o(1) by (metis isl_def prod.collapse)
  obtain w2 s where g: "?run ''8125'' = (w2, Inr s)" using o(2) by (metis prod.collapse sum.collapse(2))
  show ?thesis
    unfolding Let_def f g
    using startup_is_all_or_nothing [OF w f] startup_is_all_or_nothing [OF w g] by (simp add: demoOptions_def)
qed

text \<open>
  Shutting down: as long as the start-up has not closed \<^verbatim>\<open>serving\<close>, nothing is stopped; \<^verbatim>\<open>run\<close> returns
  nil only after the signal and with the OpenID and REST servers closed; and from any moment at which
  the server is serving and the signal has come, the remaining steps end in that return.
\<close>

lemma shutdown_is_ordered_and_clean:
  assumes "run shutStep es shut0 = Some s"
  shows "(sh_main s = MBoot \<longrightarrow> sh_openID s \<and> sh_rest s \<and> \<not> sh_stopped s) \<and>
    (sh_main s = MReturned None \<longrightarrow> sh_stop s \<and> \<not> sh_openID s \<and> \<not> sh_rest s) \<and>
    (sh_main s = MServing \<and> sh_stop s \<longrightarrow>
      (\<exists>s'. run shutStep (replicate (stepsLeft (sh_stopper s)) StopperStep @ [MainStep]) s = Some s' \<and>
        sh_main s' = MReturned None))"
proof -
  have i: "shinv s" by (rule sh.run_inv [OF shinv_shut0 assms])
  have "\<exists>s'. run shutStep (replicate (stepsLeft (sh_stopper s)) StopperStep @ [MainStep]) s = Some s' \<and>
        sh_main s' = MReturned None" if "sh_main s = MServing" "sh_stop s"
  proof -
    have "sh_serving s" using shinv_facts(3) [OF i] that by simp
    with \<open>sh_main s = MServing\<close> obtain s1 where s1: "run shutStep (replicate (stepsLeft (sh_stopper s)) StopperStep) s = Some s1"
      "sh_stopper s1 = StopperDone" "sh_main s1 = MServing"
      using stopper_finishes [OF \<open>sh_stop s\<close> _ refl] by auto
    then have "sh_stopped s1" using shinv_facts(4) [OF sh.run_inv [OF i s1(1)]] by simp
    with s1 show ?thesis by (simp add: run_append)
  qed
  moreover have "sh_main s = MBoot \<longrightarrow> sh_openID s \<and> sh_rest s \<and> \<not> sh_stopped s"
    "sh_main s = MReturned None \<longrightarrow> sh_stop s \<and> \<not> sh_openID s \<and> \<not> sh_rest s"
    using shinv_facts [OF i] by blast+
  ultimately show ?thesis by blast
qed

text \<open>
  The hand-over to \<^verbatim>\<open>Serve\<close> is not covered by the \<^verbatim>\<open>serving\<close> channel: a signal that arrives during start-up
  can still stop the gRPC server between \<^verbatim>\<open>close(serving)\<close> and the call of \<^verbatim>\<open>Serve\<close>, and \<^verbatim>\<open>run\<close> then returns
  the error the comment there sets out to avoid.
\<close>

lemma signal_before_Serve_is_an_error:
  "map_option sh_main (run shutStep [Signal, StopperStep, MainStep, StopperStep, StopperStep, StopperStep, StopperStep, MainStep] shut0)
     = Some (MReturned (Some ErrServerStopped))"
  by code_simp

end
