(* ===== verification/Main_Process.thy ===== *)
theory Main_Process
  imports Main_Run
begin

text \<open>
  \<^verbatim>\<open>main\<close> of \<^verbatim>\<open>main.go\<close>, the whole process: the main goroutine from the command line to its exit status, the
  goroutine that turns the first SIGINT or SIGTERM into the closing of \<^verbatim>\<open>stop\<close>, the goroutine that waits for it (of
  \<^verbatim>\<open>Main_Run\<close>), and the sockets. Signals arrive at any moment; before \<^verbatim>\<open>signal.Notify\<close> they end the process, afterwards
  they go to a channel with room for one. A \<^verbatim>\<open>logFatalf\<close> is exit code 1, the return of \<^verbatim>\<open>main\<close> is exit code 0.
\<close>

section \<open>The process\<close>

datatype exitStatus = ExitCode nat | KilledBySignal

text \<open>Where the main goroutine is: at \<^verbatim>\<open>parseFlags\<close>, at the start of \<^verbatim>\<open>run\<close>, in \<^verbatim>\<open>run\<close> with everything listening, or gone.\<close>

datatype 'p mainAt = AtFlags | AtRun options | InRun "'p started" | Exited exitStatus

text \<open>Where the signal goroutine is.\<close>

datatype signalPc = NotStarted | BeforeNotify | AtReceive | BeforeClose | SignalDone

record 'p process =
  pr_main :: "'p mainAt"
  pr_shut :: shutdown
  pr_signal :: signalPc
  pr_sigCh :: bool
  pr_net :: net

text \<open>What the program gets from outside: libraries, the operating system, environment and arguments.\<close>

record world =
  wd_gl :: golib
  wd_refuse :: "string \<Rightarrow> net \<Rightarrow> string option"
  wd_rest :: "string + string list"
  wd_env :: environment
  wd_args :: "string list"

datatype procEvent = MainGoes | SignalGoes | StopperGoes | ListenerFails string | Deliver

definition proc0 :: "net \<Rightarrow> 'p process" where
  "proc0 w = \<lparr>pr_main = AtFlags, pr_shut = shut0, pr_signal = NotStarted, pr_sigCh = False, pr_net = w\<rparr>"

definition exitWith :: "exitStatus \<Rightarrow> 'p process \<Rightarrow> 'p process" where
  "exitWith x p = p\<lparr>pr_main := Exited x\<rparr>"

text \<open>
  A server that is closed closes its socket, and \<^verbatim>\<open>Serve\<close> closes the listener when it returns, which is when \<^verbatim>\<open>main\<close>
  ends.
\<close>

definition closeIf :: "bool \<Rightarrow> nat option \<Rightarrow> net \<Rightarrow> net" where
  "closeIf b l w = (case l of Some l' \<Rightarrow> if b then Close l' w else w | None \<Rightarrow> w)"

definition inRun :: "shutEvent \<Rightarrow> 'p started \<Rightarrow> 'p process \<Rightarrow> 'p process option" where
  "inRun ev st p =
     (case shutStep ev (pr_shut p) of
        None \<Rightarrow> None
      | Some sh \<Rightarrow>
          let w1 = closeIf (sh_openID (pr_shut p) \<and> \<not> sh_openID sh) (st_openID st) (pr_net p);
              w2 = closeIf (sh_rest (pr_shut p) \<and> \<not> sh_rest sh) (st_rest st) w1
          in Some (case sh_main sh of
               MReturned r \<Rightarrow> exitWith (ExitCode (if r = None then 0 else 1)) (p\<lparr>pr_shut := sh, pr_net := Close (st_grpc st) w2\<rparr>)
             | _ \<Rightarrow> p\<lparr>pr_shut := sh, pr_net := w2\<rparr>))"

definition main :: "world \<Rightarrow> 'p process \<Rightarrow> 'p process option" where
  "main wd p =
     (case pr_main p of
        AtFlags \<Rightarrow>
          (case parseFlags (wd_env wd) (wd_args wd) of
             Inl code \<Rightarrow> Some (exitWith (ExitCode code) p)
           | Inr opts \<Rightarrow> Some (p\<lparr>pr_main := AtRun opts, pr_signal := BeforeNotify\<rparr>))
      | AtRun opts \<Rightarrow>
          (case run_startup (wd_gl wd) (wd_refuse wd) (wd_rest wd) opts (pr_net p) of
             (w, Inl err) \<Rightarrow> Some (exitWith (ExitCode 1) (p\<lparr>pr_net := w\<rparr>))
           | (w, Inr st) \<Rightarrow> Some (p\<lparr>pr_main := InRun st, pr_net := w\<rparr>))
      | InRun st \<Rightarrow> inRun MainStep st p
      | Exited x \<Rightarrow> None)"

text \<open>The goroutine that \<^verbatim>\<open>main\<close> starts: \<^verbatim>\<open>Notify\<close>, the receive, and \<^verbatim>\<open>close(stop)\<close>.\<close>

definition onSignal :: "'p process \<Rightarrow> 'p process option" where
  "onSignal p =
     (case pr_signal p of
        BeforeNotify \<Rightarrow> Some (p\<lparr>pr_signal := AtReceive\<rparr>)
      | AtReceive \<Rightarrow> if pr_sigCh p then Some (p\<lparr>pr_sigCh := False, pr_signal := BeforeClose\<rparr>) else None
      | BeforeClose \<Rightarrow> map_option (\<lambda>sh. p\<lparr>pr_shut := sh, pr_signal := SignalDone\<rparr>) (shutStep Signal (pr_shut p))
      | _ \<Rightarrow> None)"

fun exited :: "'p process \<Rightarrow> bool" where
  "exited p = (case pr_main p of Exited x \<Rightarrow> True | _ \<Rightarrow> False)"

fun procStep :: "world \<Rightarrow> procEvent \<Rightarrow> 'p process \<Rightarrow> 'p process option" where
  "procStep wd MainGoes p = main wd p"
| "procStep wd SignalGoes p = (if exited p then None else onSignal p)"
| "procStep wd StopperGoes p = (case pr_main p of InRun st \<Rightarrow> inRun StopperStep st p | _ \<Rightarrow> None)"
| "procStep wd (ListenerFails e) p = (case pr_main p of InRun st \<Rightarrow> inRun (AcceptFails e) st p | _ \<Rightarrow> None)"
| "procStep wd Deliver p =
     (if exited p then None
      else if pr_signal p = NotStarted \<or> pr_signal p = BeforeNotify then Some (exitWith KilledBySignal p)
      else Some (p\<lparr>pr_sigCh := True\<rparr>))"

section \<open>Invariant\<close>

lemma parseArgs_code: "parseArgs args v = Inl code \<Longrightarrow> code = 0 \<or> code = 2"
  by (induction args v rule: parseArgs.induct) (auto split: option.splits if_splits list.splits prod.splits)

lemma parseFlags_code: "parseFlags env args = Inl code \<Longrightarrow> code = 0 \<or> code = 2"
  by (auto simp: parseFlags_def Let_def split: sum.splits dest: parseArgs_code)

text \<open>The sockets that are still open while the servers are being closed.\<close>

definition openSockets :: "'p started \<Rightarrow> shutdown \<Rightarrow> nat list" where
  "openSockets st sh =
     (if sh_rest sh then optSocket (st_rest st) else []) @ (if sh_openID sh then optSocket (st_openID st) else []) @ [st_grpc st]"

definition startedAs :: "world \<Rightarrow> net \<Rightarrow> 'p started \<Rightarrow> bool" where
  "startedAs wd w st \<longleftrightarrow> (\<exists>opts w'. parseFlags (wd_env wd) (wd_args wd) = Inr opts \<and>
     run_startup (wd_gl wd) (wd_refuse wd) (wd_rest wd) opts w = (w', Inr st))"

lemma startedAs_sockets:
  assumes "net_ok w" "startedAs wd w st"
  shows "set (ownSockets st) \<inter> set (nt_open w) = {}" and "distinct (ownSockets st)"
proof -
  from assms(2) obtain opts w' where st: "run_startup (wd_gl wd) (wd_refuse wd) (wd_rest wd) opts w = (w', Inr st)"
    by (auto simp: startedAs_def)
  show "distinct (ownSockets st)" by (rule run_startup_started(3) [OF st])
  show "set (ownSockets st) \<inter> set (nt_open w) = {}"
    using run_startup_started(4) [OF st] assms(1) by (fastforce simp: net_ok_def list_all_iff)
qed

lemma nt_open_closeIf: "nt_open (closeIf b l w) = filter (\<lambda>x. \<not> (b \<and> l = Some x)) (nt_open w)"
  by (auto simp: closeIf_def Close_def split: option.split intro!: filter_cong)

lemma shutStep_closes: "shutStep ev sh = Some sh' \<Longrightarrow> (sh_openID sh' \<longrightarrow> sh_openID sh) \<and> (sh_rest sh' \<longrightarrow> sh_rest sh)"
  by (cases ev; cases "sh_main sh"; cases "sh_stopper sh") (auto split: if_splits)

lemma shutStep_stop: "shutStep ev sh = Some sh' \<Longrightarrow> ev \<noteq> Signal \<Longrightarrow> sh_stop sh' = sh_stop sh"
  by (cases ev; cases "sh_main sh"; cases "sh_stopper sh") (auto split: if_splits)

lemma shutStep_returns:
  "shutStep ev sh = Some sh' \<Longrightarrow> ev = MainStep \<or> ev = StopperStep \<Longrightarrow> \<not> sh_stopped sh \<Longrightarrow> sh_main sh' = MReturned r \<Longrightarrow>
    sh_main sh = MReturned r"
  by (cases "sh_main sh"; cases "sh_stopper sh") (auto split: if_splits)

lemma openSockets_closed:
  assumes "set (ownSockets st) \<inter> set ls = {}" "distinct (ownSockets st)"
    and "sh_openID sh' \<longrightarrow> sh_openID sh" "sh_rest sh' \<longrightarrow> sh_rest sh" "nt_open w = openSockets st sh @ ls"
  shows "nt_open (closeIf (sh_rest sh \<and> \<not> sh_rest sh') (st_rest st) (closeIf (sh_openID sh \<and> \<not> sh_openID sh') (st_openID st) w))
    = openSockets st sh' @ ls"
proof -
  let ?keep = "\<lambda>x. \<not> ((sh_openID sh \<and> \<not> sh_openID sh') \<and> st_openID st = Some x) \<and>
    \<not> ((sh_rest sh \<and> \<not> sh_rest sh') \<and> st_rest st = Some x)"
  have "\<forall>x \<in> set ls. st_rest st \<noteq> Some x \<and> st_openID st \<noteq> Some x"
    using assms(1) by (auto simp: ownSockets_def optSocket_def)
  then have "filter ?keep ls = ls" by (simp add: filter_id_conv)
  moreover have "filter ?keep (openSockets st sh) = openSockets st sh'"
    using assms(2-4) by (cases "st_rest st"; cases "st_openID st") (auto simp: openSockets_def ownSockets_def optSocket_def)
  ultimately show ?thesis by (simp add: nt_open_closeIf assms(5))
qed

lemma inRun_step:
  assumes "net_ok w" "startedAs wd w st" "shinv (pr_shut p)" "nt_open (pr_net p) = openSockets st (pr_shut p) @ nt_open w"
    and "inRun ev st p = Some p'"
  shows "shutStep ev (pr_shut p) = Some (pr_shut p')" "pr_signal p' = pr_signal p" "pr_sigCh p' = pr_sigCh p" "shinv (pr_shut p')"
    and "(pr_main p' = pr_main p \<and> (\<forall>r. sh_main (pr_shut p') \<noteq> MReturned r) \<and>
          nt_open (pr_net p') = openSockets st (pr_shut p') @ nt_open w) \<or>
      (\<exists>r. sh_main (pr_shut p') = MReturned r \<and> pr_main p' = Exited (ExitCode (if r = None then 0 else 1)) \<and>
         (r = None \<longrightarrow> nt_open (pr_net p') = nt_open w))"
proof -
  from assms(5) obtain sh where sh: "shutStep ev (pr_shut p) = Some sh" by (auto simp: inRun_def split: option.splits)
  let ?w = "closeIf (sh_rest (pr_shut p) \<and> \<not> sh_rest sh) (st_rest st)
    (closeIf (sh_openID (pr_shut p) \<and> \<not> sh_openID sh) (st_openID st) (pr_net p))"
  have p': "p' = (case sh_main sh of
       MReturned r \<Rightarrow> exitWith (ExitCode (if r = None then 0 else 1)) (p\<lparr>pr_shut := sh, pr_net := Close (st_grpc st) ?w\<rparr>)
     | _ \<Rightarrow> p\<lparr>pr_shut := sh, pr_net := ?w\<rparr>)"
    using assms(5) sh by (simp add: inRun_def Let_def)
  then have f: "pr_shut p' = sh" "pr_signal p' = pr_signal p" "pr_sigCh p' = pr_sigCh p"
    by (auto simp: exitWith_def split: mainPc.split)
  have inv: "shinv sh" by (rule sh.step_inv [OF assms(3) sh])
  have w: "nt_open ?w = openSockets st sh @ nt_open w"
    using openSockets_closed [OF startedAs_sockets [OF assms(1,2)] _ _ assms(4), of sh] shutStep_closes [OF sh] by blast
  have "st_grpc st \<notin> set (nt_open w)" using startedAs_sockets(1) [OF assms(1,2)] by (simp add: ownSockets_def)
  then have "filter (\<lambda>x. x \<noteq> st_grpc st) (nt_open w) = nt_open w" by (auto simp: filter_id_conv)
  moreover have "sh_main sh = MReturned None \<Longrightarrow> openSockets st sh = [st_grpc st]"
    using shinv_facts(2) [OF inv] by (simp add: openSockets_def)
  ultimately have "sh_main sh = MReturned None \<Longrightarrow> nt_open (Close (st_grpc st) ?w) = nt_open w"
    using w by (simp add: Close_def)
  then show "(pr_main p' = pr_main p \<and> (\<forall>r. sh_main (pr_shut p') \<noteq> MReturned r) \<and>
          nt_open (pr_net p') = openSockets st (pr_shut p') @ nt_open w) \<or>
      (\<exists>r. sh_main (pr_shut p') = MReturned r \<and> pr_main p' = Exited (ExitCode (if r = None then 0 else 1)) \<and>
         (r = None \<longrightarrow> nt_open (pr_net p') = nt_open w))"
    using p' w f(1) by (cases "sh_main sh") (simp_all add: exitWith_def)
  show "shutStep ev (pr_shut p) = Some (pr_shut p')" "pr_signal p' = pr_signal p" "pr_sigCh p' = pr_sigCh p" "shinv (pr_shut p')"
    using sh inv f by simp_all
qed

text \<open>
  What each exit status stands for, and where everything is before that. The waiting goroutine does not exist before
  \<^verbatim>\<open>run\<close> has started it.
\<close>

definition outcome :: "world \<Rightarrow> net \<Rightarrow> exitStatus \<Rightarrow> 'p process \<Rightarrow> bool" where
  "outcome wd w x p \<longleftrightarrow>
     (case x of
        KilledBySignal \<Rightarrow> pr_signal p = NotStarted \<or> pr_signal p = BeforeNotify
      | ExitCode c \<Rightarrow>
          (case parseFlags (wd_env wd) (wd_args wd) of
             Inl code \<Rightarrow> c = code \<and> pr_net p = w
           | Inr opts \<Rightarrow>
               (case run_startup (wd_gl wd) (wd_refuse wd) (wd_rest wd) opts w :: net \<times> (startError + 'p started) of
                  (w', Inl err) \<Rightarrow> c = 1 \<and> nt_open (pr_net p) = nt_open w
                | (w', Inr st) \<Rightarrow> (\<exists>r. sh_main (pr_shut p) = MReturned r \<and> c = (if r = None then 0 else 1) \<and>
                    (r = None \<longrightarrow> nt_open (pr_net p) = nt_open w)))))"

definition located :: "world \<Rightarrow> net \<Rightarrow> 'p process \<Rightarrow> bool" where
  "located wd w p \<longleftrightarrow>
     (case pr_main p of
        AtFlags \<Rightarrow> pr_signal p = NotStarted \<and> pr_net p = w \<and> pr_shut p = shut0
      | AtRun opts \<Rightarrow> pr_signal p \<noteq> NotStarted \<and> parseFlags (wd_env wd) (wd_args wd) = Inr opts \<and> pr_net p = w \<and>
          pr_shut p = shut0\<lparr>sh_stop := sh_stop (pr_shut p)\<rparr>
      | InRun st \<Rightarrow> pr_signal p \<noteq> NotStarted \<and> startedAs wd w st \<and> (\<forall>r. sh_main (pr_shut p) \<noteq> MReturned r) \<and>
          nt_open (pr_net p) = openSockets st (pr_shut p) @ nt_open w
      | Exited x \<Rightarrow> outcome wd w x p)"

definition procinv :: "world \<Rightarrow> net \<Rightarrow> 'p process \<Rightarrow> bool" where
  "procinv wd w p \<longleftrightarrow> net_ok w \<and> shinv (pr_shut p) \<and> (sh_stop (pr_shut p) \<longleftrightarrow> pr_signal p = SignalDone) \<and> located wd w p"

lemma procinv_inRun:
  assumes "procinv wd w p" "pr_main p = InRun st" "inRun ev st p = Some p'" "ev \<noteq> Signal"
  shows "procinv wd w p'"
proof -
  from assms(1,2) have i: "net_ok w" "startedAs wd w st" "shinv (pr_shut p)" "nt_open (pr_net p) = openSockets st (pr_shut p) @ nt_open w"
    "pr_signal p \<noteq> NotStarted" "sh_stop (pr_shut p) \<longleftrightarrow> pr_signal p = SignalDone"
    by (auto simp: procinv_def located_def)
  note st = inRun_step [OF i(1-4) assms(3)]
  from i st shutStep_stop [OF st(1) assms(4)] show ?thesis unfolding procinv_def
    using assms(2) by (auto simp: located_def outcome_def startedAs_def split: if_splits)
qed

lemma procinv_main:
  assumes "procinv wd w p" "main wd p = Some p'" shows "procinv wd w p'"
proof (cases "pr_main p")
  case AtFlags
  with assms show ?thesis
    by (auto simp: procinv_def located_def main_def exitWith_def outcome_def shinv_shut0 shut0_def split: sum.splits)
next
  case (AtRun opts)
  let ?r = "run_startup (wd_gl wd) (wd_refuse wd) (wd_rest wd) opts w :: net \<times> (startError + 'a started)"
  obtain w' r where r: "?r = (w', r)" by (rule prod.exhaust)
  from AtRun assms(1) have i: "net_ok w" "parseFlags (wd_env wd) (wd_args wd) = Inr opts" "pr_net p = w"
    "sh_main (pr_shut p) = MBoot" "sh_rest (pr_shut p)" "sh_openID (pr_shut p)"
    by (simp_all add: procinv_def located_def shut0_def, (metis shutdown.select_convs shutdown.update_convs)+)
  show ?thesis
  proof (cases r)
    case (Inl err)
    with AtRun assms i r run_startup_error [OF i(1) r [unfolded Inl]] show ?thesis
      by (auto simp: procinv_def located_def main_def exitWith_def outcome_def)
  next
    case (Inr st)
    with AtRun assms i r run_startup_started(2) [OF r [unfolded Inr]] show ?thesis
      by (auto simp: procinv_def located_def main_def startedAs_def openSockets_def ownSockets_def)
  qed
next
  case (InRun st)
  with assms procinv_inRun show ?thesis by (fastforce simp: main_def)
qed (use assms in \<open>auto simp: main_def\<close>)

lemma procinv_onSignal:
  assumes "procinv wd w p" "\<not> exited p" "onSignal p = Some p'" shows "procinv wd w p'"
proof -
  have "shinv (sh\<lparr>sh_stop := True\<rparr>)" "openSockets st (sh\<lparr>sh_stop := True\<rparr>) = openSockets st sh" if "shinv sh" for sh and st :: "'a started"
    using that by (auto simp: shinv_def openSockets_def)
  moreover from this(1) [OF shinv_shut0] have "shinv (shut0\<lparr>sh_stop := True\<rparr>)" .
  ultimately show ?thesis
    using assms by (cases "pr_main p"; cases "pr_signal p") (auto simp: procinv_def located_def onSignal_def split: if_splits)
qed

interpretation pc: invariant_system "procStep wd" "procinv wd w" for wd w
proof
  fix p ev p' assume inv: "procinv wd w p" and step: "procStep wd ev p = Some p'"
  show "procinv wd w p'"
  proof (cases ev)
    case Deliver
    with inv step show ?thesis
      by (cases "pr_main p") (auto simp: procinv_def located_def outcome_def exitWith_def split: if_splits)
  next
    case MainGoes
    with inv step procinv_main show ?thesis by simp
  next
    case SignalGoes
    with inv step procinv_onSignal show ?thesis by (simp split: if_splits del: exited.simps)
  next
    case StopperGoes
    with step obtain st where "pr_main p = InRun st" "inRun StopperStep st p = Some p'" by (auto split: mainAt.splits)
    then show ?thesis using procinv_inRun [OF inv] by blast
  next
    case (ListenerFails e)
    with step obtain st where "pr_main p = InRun st" "inRun (AcceptFails e) st p = Some p'" by (auto split: mainAt.splits)
    then show ?thesis using procinv_inRun [OF inv] by blast
  qed
qed

lemma procinv_proc0: "net_ok w \<Longrightarrow> procinv wd w (proc0 w)"
  by (simp add: procinv_def located_def proc0_def shinv_shut0) (simp add: shut0_def)

section \<open>What ends the process\<close>

text \<open>Without a signal the signal goroutine gets no further than its receive.\<close>

definition unsignalled :: "'p process \<Rightarrow> bool" where
  "unsignalled p \<longleftrightarrow> \<not> pr_sigCh p \<and> pr_signal p \<noteq> BeforeClose \<and> pr_signal p \<noteq> SignalDone \<and> pr_main p \<noteq> Exited KilledBySignal"

lemma inRun_keeps:
  assumes "inRun ev st p = Some p'"
  shows "pr_signal p' = pr_signal p" "pr_sigCh p' = pr_sigCh p" "shutStep ev (pr_shut p) = Some (pr_shut p')"
    "pr_main p' = (case sh_main (pr_shut p') of MReturned r \<Rightarrow> Exited (ExitCode (if r = None then 0 else 1)) | _ \<Rightarrow> pr_main p)"
  using assms by (auto simp: inRun_def Let_def exitWith_def split: option.splits mainPc.splits)

lemma main_keeps:
  assumes "main wd p = Some p'" "\<forall>st. pr_main p \<noteq> InRun st"
  shows "pr_shut p' = pr_shut p" "pr_sigCh p' = pr_sigCh p" "pr_main p' \<noteq> Exited KilledBySignal"
    "pr_signal p' = (if pr_main p' \<noteq> Exited (ExitCode 0) \<and> pr_main p' \<noteq> Exited (ExitCode 2) \<and> pr_main p = AtFlags then BeforeNotify else pr_signal p)"
  using assms by (auto simp: main_def exitWith_def split: mainAt.splits sum.splits prod.splits dest: parseFlags_code)

lemma unsignalled_inRun: "unsignalled p \<Longrightarrow> inRun ev st p = Some p' \<Longrightarrow> unsignalled p'"
  using inRun_keeps [of ev st p p'] by (auto simp: unsignalled_def split: mainPc.splits)

lemma unsignalled_step:
  assumes "unsignalled p" "procStep wd ev p = Some p'" "ev \<noteq> Deliver" shows "unsignalled p'"
proof (cases ev)
  case MainGoes
  show ?thesis
  proof (cases "\<exists>st. pr_main p = InRun st")
    case True
    with MainGoes assms(2) obtain st where "inRun MainStep st p = Some p'" by (auto simp: main_def)
    then show ?thesis by (rule unsignalled_inRun [OF assms(1)])
  next
    case False
    with MainGoes assms(1,2) main_keeps [of wd p p'] show ?thesis by (auto simp: unsignalled_def split: if_splits)
  qed
next
  case SignalGoes
  with assms show ?thesis by (auto simp: unsignalled_def onSignal_def split: signalPc.splits if_splits)
qed (use assms unsignalled_inRun [OF assms(1)] in \<open>auto split: mainAt.splits\<close>)

interpretation us: invariant_system "\<lambda>ev p. if ev \<noteq> Deliver then procStep wd ev p else None" unsignalled for wd
  by unfold_locales (auto split: if_splits intro: unsignalled_step)

text \<open>Steps of the program's own goroutines, and what they do while nothing comes from outside.\<close>

fun internal :: "procEvent \<Rightarrow> bool" where
  "internal (ListenerFails e) = False" | "internal Deliver = False" | "internal _ = True"

definition undisturbed :: "'p process \<Rightarrow> bool" where
  "undisturbed p \<longleftrightarrow> unsignalled p \<and> (\<forall>r. sh_main (pr_shut p) \<noteq> MReturned r)"

interpretation ud: invariant_system "\<lambda>ev p. if internal ev then procStep wd ev p else None" "\<lambda>p. procinv wd w p \<and> undisturbed p" for wd w
proof
  fix p ev p' assume p: "procinv wd w p \<and> undisturbed p" and "(if internal ev then procStep wd ev p else None) = Some p'"
  then have st: "internal ev" "procStep wd ev p = Some p'" by (auto split: if_splits)
  then have "ev \<noteq> Deliver" by auto
  then have u: "procinv wd w p'" "unsignalled p'" using pc.step_inv unsignalled_step p st(2) unfolding undisturbed_def by blast+
  have "\<not> sh_stopped (pr_shut p)" using p by (auto simp: procinv_def shinv_def undisturbed_def unsignalled_def)
  then have "\<forall>r. sh_main (pr_shut p') \<noteq> MReturned r" if "inRun e q p = Some p'" "e = MainStep \<or> e = StopperStep" for e q
    using shutStep_returns [OF inRun_keeps(3) [OF that(1)]] that(2) p unfolding undisturbed_def by blast
  moreover have "pr_shut p' = pr_shut p \<or> (\<exists>q. inRun MainStep q p = Some p' \<or> inRun StopperStep q p = Some p')
      \<or> sh_main (pr_shut p') = sh_main (pr_shut p)"
    using st main_keeps(1) [of wd p p']
    by (cases ev) (auto simp: main_def onSignal_def split: mainAt.splits signalPc.splits if_splits)
  ultimately have "\<forall>r. sh_main (pr_shut p') \<noteq> MReturned r" using p unfolding undisturbed_def by metis
  with u show "procinv wd w p' \<and> undisturbed p'" by (simp add: undisturbed_def)
qed















section \<open>Properties\<close>

lemma happened:
  assumes "run (procStep wd) es (proc0 w :: 'p process) = Some p"
  shows "Deliver \<notin> set es \<Longrightarrow> unsignalled p"
    and "net_ok w \<Longrightarrow> Deliver \<notin> set es \<Longrightarrow> \<forall>e. ListenerFails e \<notin> set es \<Longrightarrow> undisturbed p"
proof -
  have u: "unsignalled (proc0 w :: 'p process)" by (simp add: unsignalled_def proc0_def)
  show "unsignalled p" if "Deliver \<notin> set es"
  proof (rule us.run_inv [OF u])
    have "\<forall>e \<in> set es. e \<noteq> Deliver" using that by blast
    with assms show "run (\<lambda>ev p. if ev \<noteq> Deliver then procStep wd ev p else None) es (proc0 w) = Some p"
      by (simp only: run_restrict)
  qed
  assume "net_ok w" and only: "Deliver \<notin> set es" "\<forall>e. ListenerFails e \<notin> set es"
  then have "procinv wd w (proc0 w :: 'p process) \<and> undisturbed (proc0 w :: 'p process)"
    using u procinv_proc0 by (simp add: undisturbed_def proc0_def shut0_def)
  moreover have "\<forall>e \<in> set es. internal e" using only by (metis internal.elims(3))
  then have "run (\<lambda>ev p. if internal ev then procStep wd ev p else None) es (proc0 w) = Some p" using assms by (simp add: run_restrict)
  ultimately show "undisturbed p" using ud.run_inv by blast
qed

text \<open>
  C33. What the exit status says: a process that was killed got a signal before it asked for signals; codes 0 and 2 without
  a start are help and a mistake on the command line, with no socket touched; when the start-up fails the code is 1 and
  nothing is left listening; after a start the code is 0 only after a signal, with every socket of the program closed
  again, and otherwise it is 1, which takes a signal or a failing listener. Nothing else ends the process.
\<close>

theorem exit_status_tells_what_happened:
  assumes "net_ok w" and "run (procStep wd) es (proc0 w :: 'p process) = Some p" and "pr_main p = Exited x"
  shows "case x of
      KilledBySignal \<Rightarrow> Deliver \<in> set es \<and> (pr_signal p = NotStarted \<or> pr_signal p = BeforeNotify)
    | ExitCode c \<Rightarrow>
        (case parseFlags (wd_env wd) (wd_args wd) of
           Inl code \<Rightarrow> c = code \<and> c \<in> {0, 2} \<and> pr_net p = w
         | Inr opts \<Rightarrow>
             (case run_startup (wd_gl wd) (wd_refuse wd) (wd_rest wd) opts w :: net \<times> (startError + 'p started) of
                (w', Inl err) \<Rightarrow> c = 1 \<and> nt_open (pr_net p) = nt_open w
              | (w', Inr st) \<Rightarrow>
                  c = 0 \<and> Deliver \<in> set es \<and> nt_open (pr_net p) = nt_open w \<or>
                  c = 1 \<and> (Deliver \<in> set es \<or> (\<exists>e. ListenerFails e \<in> set es))))"
proof -
  have inv: "procinv wd w p" by (rule pc.run_inv [OF procinv_proc0 [OF assms(1)] assms(2)])
  then have out: "outcome wd w x p" using assms(3) by (simp add: procinv_def located_def)
  note h = happened [OF assms(2)]
  have "Deliver \<in> set es" if "x = KilledBySignal" using h(1) assms(3) that by (auto simp: unsignalled_def)
  moreover have "Deliver \<in> set es" if "sh_main (pr_shut p) = MReturned None"
    using h(1) shinv_facts(2) [OF _ that] inv by (auto simp: unsignalled_def procinv_def)
  moreover have "Deliver \<in> set es \<or> (\<exists>e. ListenerFails e \<in> set es)" if "sh_main (pr_shut p) = MReturned r" for r
    using h(2) [OF assms(1)] that by (auto simp: undisturbed_def)
  ultimately show ?thesis using out
    by (auto simp: outcome_def split: exitStatus.splits sum.splits prod.splits if_splits dest: parseFlags_code)
qed

text \<open>A command line, and the machine it runs on: a REST port that is taken.\<close>

definition demoWorld :: "string list \<Rightarrow> world" where
  "demoWorld args = \<lparr>wd_gl = me_gl demoEnv, wd_refuse = demoRefuse, wd_rest = Inr [], wd_env = (\<lambda>_. None), wd_args = args\<rparr>"

text \<open>The events of a process that starts, gets a signal and shuts down, and those up to its serving.\<close>

definition demoServing :: "procEvent list" where
  "demoServing = [MainGoes, MainGoes, SignalGoes, MainGoes, MainGoes, Deliver]"

definition demoShutdown :: "procEvent list" where
  "demoShutdown = [SignalGoes, SignalGoes] @ replicate 5 StopperGoes @ [MainGoes]"

theorem exit_status_tells_what_happened_witness:
  "\<exists>p :: unit process. run (procStep (demoWorld [''-rest-port=''])) (demoServing @ demoShutdown) (proc0 \<lparr>nt_open = [0], nt_next = 1\<rparr>) = Some p \<and>
     pr_main p = Exited (ExitCode 0) \<and> nt_open (pr_net p) = [0]"
proof -
  let ?w = "\<lparr>nt_open = [0], nt_next = 1\<rparr>" and ?wd = "demoWorld [''-rest-port='']" and ?es = "demoServing @ demoShutdown"
  let ?r = "run (procStep ?wd) ?es (proc0 ?w :: unit process)"
  have "map_option (\<lambda>p. case pr_main p of Exited x \<Rightarrow> x = ExitCode 0 | _ \<Rightarrow> False) ?r = Some True" by code_simp
  then obtain p where "?r = Some p" "case pr_main p of Exited x \<Rightarrow> x = ExitCode 0 | _ \<Rightarrow> False"
    unfolding map_option_eq_Some by blast
  then have p: "?r = Some p" "pr_main p = Exited (ExitCode 0)" by (cases "pr_main p"; simp)+
  have ok: "net_ok ?w" by (simp add: net_ok_def)
  have st: "\<not> isl (parseFlags (wd_env ?wd) (wd_args ?wd))"
    "\<not> isl (snd (run_startup (wd_gl ?wd) (wd_refuse ?wd) (wd_rest ?wd) (projr (parseFlags (wd_env ?wd) (wd_args ?wd))) ?w
       :: net \<times> (startError + unit started)))" by code_simp+
  from exit_status_tells_what_happened [OF ok p] st have "nt_open (pr_net p) = [0]"
    by (auto split: sum.splits prod.splits)
  with p show ?thesis by blast
qed



text \<open>
  The clean exit needs the process to be serving: a signal that is taken up during the start-up can stop the gRPC server
  between \<^verbatim>\<open>close(serving)\<close> and \<^verbatim>\<open>Serve\<close>, and then the exit code is 1.
\<close>

lemma signal_before_Serve_exits_with_1:
  "map_option (\<lambda>p. case pr_main p of Exited x \<Rightarrow> x = ExitCode 1 | _ \<Rightarrow> False)
     (run (procStep (demoWorld [''-rest-port='']))
       ([MainGoes, SignalGoes, Deliver, MainGoes, SignalGoes, SignalGoes, MainGoes] @ replicate 5 StopperGoes @ [MainGoes])
       (proc0 \<lparr>nt_open = [0], nt_next = 1\<rparr> :: unit process)) = Some True"
  by code_simp

end
